(* ===== verification/Prelude.thy ===== *)
theory Prelude
  imports Main
begin

text \<open>
  Shared vocabulary of the development: the exceptions the Python code can raise, the
  result type every fallible operation returns, the loops over it, Python values with
  their truth test and their \<open>repr\<close>, and dictionaries as association lists.

  A computation that may raise returns \<open>py_error + 'a\<close>: \<open>Inl\<close> is the exception,
  \<open>Inr\<close> the value. \<open>ErrorExit msg\<close> is \<open>console.error_exit(msg)\<close>: the message goes to
  stderr and \<open>SystemExit\<close> leaves the program; \<open>SysExit n\<close> is any other \<open>sys.exit(n)\<close>.

  A Python dictionary whose enumeration order the code observes is an association list,
  listed in the order the interpreter enumerates it. Python 2 does not specify that order,
  so theorems quantify over the list, asking only that its keys are distinct.
\<close>

named_theorems res_simps \<open>evaluation of the result monad\<close>
named_theorems frame_simps \<open>fields an operation leaves alone\<close>

section \<open>Exceptions and results\<close>

datatype py_error =
    ErrorExit string
  | PyException string
  | KeyError
  | IndexError
  | ValueError
  | TypeError
  | AttributeError
  | NameError
  | AssertionError
  | RuntimeError
  | OSError
  | SysExit int

type_synonym 'a res = "py_error + 'a"

definition bind_res :: "'e + 'a \<Rightarrow> ('a \<Rightarrow> 'e + 'b) \<Rightarrow> 'e + 'b" where
  "bind_res m f = (case m of Inl e \<Rightarrow> Inl e | Inr x \<Rightarrow> f x)"

definition assert_res :: "bool \<Rightarrow> 'e \<Rightarrow> 'e + unit" where
  "assert_res b e = (if b then Inr () else Inl e)"

definition is_ok :: "'e + 'a \<Rightarrow> bool" where
  "is_ok m = (case m of Inl _ \<Rightarrow> False | Inr _ \<Rightarrow> True)"

text \<open>\<open>for x in xs: s = f(x, s)\<close>, stopping at the first exception.\<close>

fun fold_res :: "('a \<Rightarrow> 's \<Rightarrow> 'e + 's) \<Rightarrow> 'a list \<Rightarrow> 's \<Rightarrow> 'e + 's" where
  "fold_res f [] s = Inr s"
| "fold_res f (x # xs) s = bind_res (f x s) (fold_res f xs)"

text \<open>\<open>[f(x) for x in xs]\<close>, stopping at the first exception.\<close>

fun map_res :: "('a \<Rightarrow> 'e + 'b) \<Rightarrow> 'a list \<Rightarrow> 'e + 'b list" where
  "map_res f [] = Inr []"
| "map_res f (x # xs) = bind_res (f x) (\<lambda>y. bind_res (map_res f xs) (\<lambda>ys. Inr (y # ys)))"

lemma bind_res_simps [simp, res_simps]:
  "bind_res (Inl e) f = Inl e"
  "bind_res (Inr x) f = f x"
  by (simp_all add: bind_res_def)

lemma bind_res_cong [fundef_cong]:
  "m = m' \<Longrightarrow> (\<And>x. m' = Inr x \<Longrightarrow> f x = g x) \<Longrightarrow> bind_res m f = bind_res m' g"
  by (cases m') auto

lemma bind_res_eq_Inr [res_simps]:
  "(bind_res m f = Inr y) = (\<exists>x. m = Inr x \<and> f x = Inr y)"
  by (cases m) auto

lemma bind_res_eq_Inl:
  "(bind_res m f = Inl e) = (m = Inl e \<or> (\<exists>x. m = Inr x \<and> f x = Inl e))"
  by (cases m) auto

lemma bind_res_assoc:
  "bind_res (bind_res m f) g = bind_res m (\<lambda>x. bind_res (f x) g)"
  by (cases m) auto

lemma bind_res_Inr_right [simp]: "bind_res m Inr = m"
  by (cases m) auto

lemma is_ok_simps [simp]: "is_ok (Inr x)" "\<not> is_ok (Inl e)"
  by (simp_all add: is_ok_def)

lemma is_ok_iff: "is_ok m \<longleftrightarrow> (\<exists>x. m = Inr x)"
  by (cases m) auto

lemma is_ok_bind [simp]: "is_ok (bind_res m f) = (\<exists>x. m = Inr x \<and> is_ok (f x))"
  by (cases m) auto

lemma assert_res_simps [simp, res_simps]:
  "(assert_res b e = Inr u) = b"
  "(assert_res b e = Inl e') = (\<not> b \<and> e' = e)"
  "is_ok (assert_res b e) = b"
  "assert_res True e = Inr ()"
  "assert_res False e = Inl e"
  by (auto simp: assert_res_def)

lemma fold_res_append:
  "fold_res f (xs @ ys) s = bind_res (fold_res f xs s) (fold_res f ys)"
proof (induction xs arbitrary: s)
  case (Cons x xs)
  then show ?case by (cases "f x s") auto
qed simp

text \<open>The two loop rules: an invariant of every successful step, and a loop that never raises.\<close>

lemma fold_res_invariant:
  assumes step: "\<And>x s s'. x \<in> set xs \<Longrightarrow> P s \<Longrightarrow> f x s = Inr s' \<Longrightarrow> P s'"
    and "P s" and "fold_res f xs s = Inr s'"
  shows "P s'"
  using assms
proof (induction xs arbitrary: s)
  case (Cons x xs)
  then obtain t where t: "f x s = Inr t" "fold_res f xs t = Inr s'"
    by (auto simp: res_simps)
  moreover have "P t" using Cons.prems(1) [of x s t] Cons.prems(2) t(1) by simp
  ultimately show ?case using Cons.IH [of t] Cons.prems(1) by (metis list.set_intros(2))
qed simp

lemma fold_res_ok:
  assumes step: "\<And>x s. x \<in> set xs \<Longrightarrow> P s \<Longrightarrow> \<exists>s'. f x s = Inr s' \<and> P s'"
    and "P s"
  shows "\<exists>s'. fold_res f xs s = Inr s' \<and> P s'"
  using assms
proof (induction xs arbitrary: s)
  case (Cons x xs)
  then obtain t where "f x s = Inr t" "P t" by fastforce
  with Cons show ?case by fastforce
qed simp

text \<open>The same with an invariant that knows which elements have been visited.\<close>

lemma fold_res_prefix:
  assumes step: "\<And>ys x zs s s'. xs = ys @ x # zs \<Longrightarrow> I ys s \<Longrightarrow> f x s = Inr s' \<Longrightarrow> I (ys @ [x]) s'"
    and "I [] s" and "fold_res f xs s = Inr s'"
  shows "I xs s'"
  using assms
proof (induction xs arbitrary: s' rule: rev_induct)
  case (snoc x xs)
  then obtain t where t: "fold_res f xs s = Inr t" "f x t = Inr s'"
    by (auto simp: fold_res_append res_simps)
  have "I xs t"
    by (rule snoc.IH [OF _ snoc.prems(2) t(1)]) (use snoc.prems(1) in auto)
  then show ?case using snoc.prems(1) [of xs x "[]" t s'] t(2) by simp
qed simp

lemma fold_res_prefix_ok:
  assumes step: "\<And>ys x zs s. xs = ys @ x # zs \<Longrightarrow> I ys s \<Longrightarrow> \<exists>s'. f x s = Inr s' \<and> I (ys @ [x]) s'"
    and "I [] s"
  shows "\<exists>s'. fold_res f xs s = Inr s' \<and> I xs s'"
  using assms
proof (induction xs rule: rev_induct)
  case (snoc x xs)
  then obtain t where t: "fold_res f xs s = Inr t" "I xs t" by fastforce
  then show ?case using snoc.prems(1) [of xs x "[]" t] by (auto simp: fold_res_append)
qed simp

lemma map_res_Inr_iff:
  "map_res f xs = Inr ys \<longleftrightarrow> list_all2 (\<lambda>x y. f x = Inr y) xs ys"
  by (induction xs arbitrary: ys) (auto simp: res_simps list_all2_Cons1)

lemma map_res_length: "map_res f xs = Inr ys \<Longrightarrow> length ys = length xs"
  by (auto simp: map_res_Inr_iff dest: list_all2_lengthD)

section \<open>Dictionaries\<close>

type_synonym ('k, 'v) dict = "('k \<times> 'v) list"

abbreviation keys :: "('k, 'v) dict \<Rightarrow> 'k list" where
  "keys d \<equiv> map fst d"

definition dict_wf :: "('k, 'v) dict \<Rightarrow> bool" where
  "dict_wf d = distinct (keys d)"

text \<open>\<open>d[k] = v\<close>: an existing entry is updated in place, a new one is added.\<close>

fun dict_set :: "'k \<Rightarrow> 'v \<Rightarrow> ('k, 'v) dict \<Rightarrow> ('k, 'v) dict" where
  "dict_set k v [] = [(k, v)]"
| "dict_set k v (kv # d) = (if fst kv = k then (k, v) # d else kv # dict_set k v d)"

text \<open>\<open>del d[k]\<close> for a key that is present.\<close>

definition dict_del :: "'k \<Rightarrow> ('k, 'v) dict \<Rightarrow> ('k, 'v) dict" where
  "dict_del k d = filter (\<lambda>kv. fst kv \<noteq> k) d"

text \<open>\<open>d[k]\<close>, raising \<open>KeyError\<close>, and \<open>d.get(k, default)\<close>.\<close>

definition dict_index :: "('k, 'v) dict \<Rightarrow> 'k \<Rightarrow> 'v res" where
  "dict_index d k = (case map_of d k of None \<Rightarrow> Inl KeyError | Some v \<Rightarrow> Inr v)"

definition dict_get :: "('k, 'v) dict \<Rightarrow> 'k \<Rightarrow> 'v \<Rightarrow> 'v" where
  "dict_get d k dflt = (case map_of d k of None \<Rightarrow> dflt | Some v \<Rightarrow> v)"

lemma map_of_dict_set [simp]: "map_of (dict_set k v d) = (map_of d)(k \<mapsto> v)"
  by (induction d) (auto simp: fun_eq_iff)

lemma keys_dict_set: "keys (dict_set k v d) = (if k \<in> set (keys d) then keys d else keys d @ [k])"
  by (induction d) auto

lemma set_keys_dict_set [simp]: "fst ` set (dict_set k v d) = insert k (fst ` set d)"
  using arg_cong [OF keys_dict_set, of set k v d] by (auto split: if_splits)

lemma dict_wf_dict_set [simp]: "dict_wf d \<Longrightarrow> dict_wf (dict_set k v d)"
  by (simp add: dict_wf_def keys_dict_set)

lemma length_dict_set: "k \<in> set (keys d) \<Longrightarrow> length (dict_set k v d) = length d"
  by (induction d) auto

lemma map_of_dict_del [simp]: "map_of (dict_del k d) = (map_of d)(k := None)"
  by (induction d) (auto simp: dict_del_def fun_eq_iff)

lemma set_keys_dict_del [simp]: "fst ` set (dict_del k d) = fst ` set d - {k}"
  by (auto simp: dict_del_def)

lemma dict_wf_dict_del [simp]: "dict_wf d \<Longrightarrow> dict_wf (dict_del k d)"
  by (auto simp: dict_wf_def dict_del_def distinct_map intro: inj_on_subset)

lemma length_dict_del: "k \<in> set (keys d) \<Longrightarrow> length (dict_del k d) < length d"
proof -
  assume "k \<in> set (keys d)"
  then obtain v where "(k, v) \<in> set d" by auto
  then show ?thesis unfolding dict_del_def by (rule length_filter_less) simp
qed

lemma dict_index_Inr [simp]: "dict_index d k = Inr v \<longleftrightarrow> map_of d k = Some v"
  by (auto simp: dict_index_def split: option.splits)

lemma dict_index_Inl: "dict_index d k = Inl e \<longleftrightarrow> map_of d k = None \<and> e = KeyError"
  by (auto simp: dict_index_def split: option.splits)

lemma map_of_None_iff: "map_of d k = None \<longleftrightarrow> k \<notin> fst ` set d"
  by (auto simp: map_of_eq_None_iff)

lemma map_of_in_keys: "k \<in> fst ` set d \<Longrightarrow> \<exists>v. map_of d k = Some v"
  by (metis map_of_None_iff not_None_eq)

lemma map_of_key: "map_of d k = Some v \<Longrightarrow> k \<in> fst ` set d"
  by (force dest: map_of_SomeD)

section \<open>Python values\<close>

datatype pyval =
    PNone
  | PBool bool
  | PInt int
  | PStr string
  | PList "pyval list"
  | PTuple "pyval list"

fun truthy :: "pyval \<Rightarrow> bool" where
  "truthy PNone = False"
| "truthy (PBool b) = b"
| "truthy (PInt n) = (n \<noteq> 0)"
| "truthy (PStr s) = (s \<noteq> [])"
| "truthy (PList xs) = (xs \<noteq> [])"
| "truthy (PTuple xs) = (xs \<noteq> [])"

fun is_list_val :: "pyval \<Rightarrow> bool" where
  "is_list_val (PList _) = True"
| "is_list_val _ = False"

fun list_items :: "pyval \<Rightarrow> pyval list" where
  "list_items (PList xs) = xs"
| "list_items _ = []"

fun str_items :: "pyval list \<Rightarrow> string list" where
  "str_items [] = []"
| "str_items (PStr s # vs) = s # str_items vs"
| "str_items (_ # vs) = str_items vs"

lemma str_items_map_PStr [simp]: "str_items (map PStr ss) = ss"
  by (induction ss) auto

section \<open>Lists\<close>

text \<open>\<open>if x not in xs: xs.append(x)\<close>\<close>

definition add_new :: "'a \<Rightarrow> 'a list \<Rightarrow> 'a list" where
  "add_new x xs = (if x \<in> set xs then xs else xs @ [x])"

definition add_all_new :: "'a list \<Rightarrow> 'a list \<Rightarrow> 'a list" where
  "add_all_new ys xs = fold add_new ys xs"

lemma set_add_new [simp]: "set (add_new x xs) = insert x (set xs)"
  by (auto simp: add_new_def)

lemma distinct_add_new [simp]: "distinct (add_new x xs) = distinct xs"
  by (auto simp: add_new_def)

lemma set_add_all_new [simp]: "set (add_all_new ys xs) = set xs \<union> set ys"
  unfolding add_all_new_def by (induction ys arbitrary: xs) auto

lemma distinct_add_all_new [simp]: "distinct (add_all_new ys xs) = distinct xs"
  unfolding add_all_new_def by (induction ys arbitrary: xs) auto

end
