(* ===== verification/PyString.thy ===== *)
theory PyString
  imports Prelude
begin

text \<open>
  The Python 2 \<open>str\<close> methods the program uses. A Python 2 string is a sequence of bytes
  and so is an Isabelle \<open>string\<close>, so lengths, slices and comparisons agree. Searches
  return \<open>nat option\<close> where Python returns an index or -1.
\<close>

section \<open>Prefixes, suffixes, searching\<close>

definition startswith :: "string \<Rightarrow> string \<Rightarrow> bool" where
  "startswith s p = (take (length p) s = p)"

definition endswith :: "string \<Rightarrow> string \<Rightarrow> bool" where
  "endswith s p = (length p \<le> length s \<and> drop (length s - length p) s = p)"

text \<open>\<open>s.find(sub)\<close>\<close>

fun find_sub :: "string \<Rightarrow> string \<Rightarrow> nat option" where
  "find_sub sub [] = (if sub = [] then Some 0 else None)"
| "find_sub sub (c # s) =
     (if startswith (c # s) sub then Some 0 else map_option Suc (find_sub sub s))"

text \<open>\<open>sub in s\<close>\<close>

definition has_sub :: "string \<Rightarrow> string \<Rightarrow> bool" where
  "has_sub sub s = (find_sub sub s \<noteq> None)"

definition count_char :: "char \<Rightarrow> string \<Rightarrow> nat" where
  "count_char c s = length (filter (\<lambda>x. x = c) s)"

text \<open>\<open>s[:-n]\<close> for a positive literal \<open>n\<close>\<close>

definition drop_last :: "nat \<Rightarrow> string \<Rightarrow> string" where
  "drop_last n s = take (length s - n) s"

lemma startswith_append [simp]: "startswith (p @ s) p"
  by (simp add: startswith_def)

lemma startswith_iff: "startswith s p \<longleftrightarrow> (\<exists>r. s = p @ r)"
  by (metis append_take_drop_id startswith_append startswith_def)

lemma startswith_Nil [simp]: "startswith s []" "startswith [] p \<longleftrightarrow> p = []"
  by (auto simp: startswith_def)

lemma startswith_Cons [simp]: "startswith (c # s) (d # p) \<longleftrightarrow> c = d \<and> startswith s p"
  by (auto simp: startswith_def)

lemma endswith_iff: "endswith s p \<longleftrightarrow> (\<exists>r. s = r @ p)"
  unfolding endswith_def
  by (metis append_eq_conv_conj append_take_drop_id diff_le_self length_append length_take
      length_drop le_add2 min.absorb2 add_diff_cancel_right')

lemma endswith_append [simp]: "endswith (s @ p) p"
  by (auto simp: endswith_iff)

lemma find_sub_Some:
  "find_sub sub s = Some i \<Longrightarrow> startswith (drop i s) sub \<and> i + length sub \<le> length s"
proof (induction s arbitrary: i)
  case (Cons c s)
  show ?case
  proof (cases "startswith (c # s) sub")
    case True
    with Cons.prems have "i = 0" by simp
    moreover have "length sub \<le> length (c # s)"
      using True by (metis le_cases startswith_def take_all length_take min.absorb2 min.cobounded1)
    ultimately show ?thesis using True by simp
  next
    case False
    with Cons show ?thesis by auto
  qed
qed (auto split: if_splits)

lemma has_sub_iff: "has_sub sub s \<longleftrightarrow> (\<exists>a b. s = a @ sub @ b)"
proof (induction s)
  case Nil
  show ?case by (simp add: has_sub_def)
next
  case (Cons c s)
  have "has_sub sub (c # s) \<longleftrightarrow> startswith (c # s) sub \<or> has_sub sub s"
    by (simp add: has_sub_def)
  also have "\<dots> \<longleftrightarrow> (\<exists>a b. c # s = a @ sub @ b)"
    unfolding Cons.IH startswith_iff
    by (metis append_Cons append_Nil append_eq_Cons_conv)
  finally show ?case .
qed

lemma has_sub_single [simp]: "has_sub [c] s \<longleftrightarrow> c \<in> set s"
  by (auto simp: has_sub_iff in_set_conv_decomp)

lemma count_char_simps [simp]:
  "count_char c [] = 0"
  "count_char c (x # s) = (if x = c then Suc (count_char c s) else count_char c s)"
  by (simp_all add: count_char_def)

lemma count_char_append [simp]: "count_char c (s @ t) = count_char c s + count_char c t"
  by (simp add: count_char_def)

lemma count_char_zero_iff: "count_char c s = 0 \<longleftrightarrow> c \<notin> set s"
  by (induction s) auto

section \<open>Splitting and joining\<close>

text \<open>\<open>s.split(c)\<close> for a single character\<close>

fun split_char :: "char \<Rightarrow> string \<Rightarrow> string list" where
  "split_char c [] = [[]]"
| "split_char c (x # s) =
     (if x = c then [] # split_char c s
      else (x # hd (split_char c s)) # tl (split_char c s))"

text \<open>\<open>sep.join(parts)\<close>\<close>

fun join_str :: "string \<Rightarrow> string list \<Rightarrow> string" where
  "join_str sep [] = []"
| "join_str sep [p] = p"
| "join_str sep (p # q # ps) = p @ sep @ join_str sep (q # ps)"

text \<open>\<open>s.split(sep)\<close> for a separator of any positive length\<close>

function split_str :: "string \<Rightarrow> string \<Rightarrow> string list" where
  "split_str sep s =
     (case (if sep = [] then None else find_sub sep s) of
        None \<Rightarrow> [s]
      | Some i \<Rightarrow> take i s # split_str sep (drop (i + length sep) s))"
  by pat_completeness auto
termination
proof (relation "measure (\<lambda>(sep, s). length s)", goal_cases)
  case (2 sep s i)
  then have "sep \<noteq> []" "i + length sep \<le> length s"
    by (auto dest: find_sub_Some split: if_splits)
  then show ?case by (cases sep) auto
qed simp

declare split_str.simps [simp del]

text \<open>\<open>s.rsplit(c, 1)\<close>: at the last occurrence, if there is one\<close>

definition rsplit_char1 :: "char \<Rightarrow> string \<Rightarrow> string list" where
  "rsplit_char1 c s =
     (if c \<in> set s
      then [rev (tl (dropWhile (\<lambda>x. x \<noteq> c) (rev s))), rev (takeWhile (\<lambda>x. x \<noteq> c) (rev s))]
      else [s])"

text \<open>\<open>s.replace(old, new)\<close> for a non-empty \<open>old\<close>\<close>

definition replace_str :: "string \<Rightarrow> string \<Rightarrow> string \<Rightarrow> string" where
  "replace_str old new s = join_str new (split_str old s)"

lemma split_char_not_Nil [simp]: "split_char c s \<noteq> []"
  by (cases s) auto

text \<open>The equations for evaluation call the recursion once.\<close>

lemma split_char_code [code]:
  "split_char c [] = [[]]"
  "split_char c (x # s) =
     (case split_char c s of [] \<Rightarrow> [] | p # ps \<Rightarrow> if x = c then [] # p # ps else (x # p) # ps)"
  by (simp_all split: list.split)

lemma join_split_char [simp]: "join_str [c] (split_char c s) = s"
proof (induction s)
  case (Cons x s)
  then show ?case
    by (cases "split_char c s"; cases "tl (split_char c s)") auto
qed simp

lemma split_char_no_sep: "p \<in> set (split_char c s) \<Longrightarrow> c \<notin> set p"
proof (induction s arbitrary: p)
  case (Cons x s)
  then show ?case
    by (cases "split_char c s") (auto split: if_splits)
qed simp

lemma split_char_id: "c \<notin> set s \<Longrightarrow> split_char c s = [s]"
  by (induction s) auto

lemma split_char_append:
  "c \<notin> set p \<Longrightarrow> split_char c (p @ c # s) = p # split_char c s"
  by (induction p) auto

lemma split_join_char:
  "ps \<noteq> [] \<Longrightarrow> \<forall>p \<in> set ps. c \<notin> set p \<Longrightarrow> split_char c (join_str [c] ps) = ps"
  by (induction "[c]" ps rule: join_str.induct) (auto simp: split_char_id split_char_append)

lemma join_str_append:
  "ps \<noteq> [] \<Longrightarrow> qs \<noteq> [] \<Longrightarrow> join_str s (ps @ qs) = join_str s ps @ s @ join_str s qs"
  by (induction s ps rule: join_str.induct) (auto simp: neq_Nil_conv)

lemma join_str_Nil_iff: "(\<forall>p \<in> set ps. p \<noteq> []) \<Longrightarrow> join_str sep ps = [] \<longleftrightarrow> ps = []"
  by (cases "(sep, ps)" rule: join_str.cases) auto

lemma length_split_char: "length (split_char c s) = Suc (count_char c s)"
proof (induction s)
  case (Cons x s)
  then show ?case by (cases "split_char c s") auto
qed simp

lemma split_str_no_sep: "\<not> has_sub sep s \<Longrightarrow> split_str sep s = [s]"
  by (subst split_str.simps) (auto simp: has_sub_def)

lemma rsplit_char1_append:
  "c \<notin> set t \<Longrightarrow> rsplit_char1 c (s @ c # t) = [s, t]"
  by (simp add: rsplit_char1_def takeWhile_append dropWhile_append)

lemma rsplit_char1_absent: "c \<notin> set s \<Longrightarrow> rsplit_char1 c s = [s]"
  by (simp add: rsplit_char1_def)

lemma rsplit_char1_present:
  assumes "c \<in> set s"
  obtains a b where "rsplit_char1 c s = [a, b]" "s = a @ c # b" "c \<notin> set b"
proof -
  from split_list_last [OF assms] obtain a b where "s = a @ c # b" "c \<notin> set b" by blast
  then show thesis using that by (simp add: rsplit_char1_append)
qed

section \<open>Stripping, case, translation\<close>

definition ws_chars :: string where
  "ws_chars = [CHR '' '', CHR 0x09, CHR 0x0A, CHR 0x0B, CHR 0x0C, CHR 0x0D]"

text \<open>\<open>s.strip(cs)\<close>, and \<open>s.strip()\<close> with the white-space characters\<close>

definition strip_chars :: "string \<Rightarrow> string \<Rightarrow> string" where
  "strip_chars cs s =
     rev (dropWhile (\<lambda>c. c \<in> set cs) (rev (dropWhile (\<lambda>c. c \<in> set cs) s)))"

definition rstrip_chars :: "string \<Rightarrow> string \<Rightarrow> string" where
  "rstrip_chars cs s = rev (dropWhile (\<lambda>c. c \<in> set cs) (rev s))"

definition strip_ws :: "string \<Rightarrow> string" where
  "strip_ws s = strip_chars ws_chars s"

text \<open>\<open>s.split()\<close>: maximal runs of non-space characters\<close>

fun split_ws_aux :: "string \<Rightarrow> string \<Rightarrow> string list" where
  "split_ws_aux acc [] = (if acc = [] then [] else [rev acc])"
| "split_ws_aux acc (c # s) =
     (if c \<in> set ws_chars
      then (if acc = [] then split_ws_aux [] s else rev acc # split_ws_aux [] s)
      else split_ws_aux (c # acc) s)"

definition split_ws :: "string \<Rightarrow> string list" where
  "split_ws s = split_ws_aux [] s"

text \<open>\<open>s.splitlines(True)\<close> and its first item, which raises for the empty string\<close>

fun splitlines_keep :: "string \<Rightarrow> string list" where
  "splitlines_keep [] = []"
| "splitlines_keep (c # s) =
     (if c = CHR 0x0A then [c] # splitlines_keep s
      else (case splitlines_keep s of [] \<Rightarrow> [[c]] | l # ls \<Rightarrow> (c # l) # ls))"

lemma concat_splitlines_keep [simp]: "concat (splitlines_keep s) = s"
  by (induction s) (auto split: list.splits)

definition nth_res :: "'a list \<Rightarrow> nat \<Rightarrow> 'a res" where
  "nth_res xs n = (if n < length xs then Inr (xs ! n) else Inl IndexError)"

definition first_line :: "string \<Rightarrow> string res" where
  "first_line s = nth_res (splitlines_keep s) 0"

definition lower_char :: "char \<Rightarrow> char" where
  "lower_char c =
     (if 65 \<le> (of_char c :: nat) \<and> of_char c \<le> (90 :: nat)
      then char_of (of_char c + 32 :: nat) else c)"

definition lower :: "string \<Rightarrow> string" where
  "lower s = map lower_char s"

text \<open>\<open>s.title()\<close>: a letter after a letter becomes lower case, any other upper case.\<close>

definition upper_char :: "char \<Rightarrow> char" where
  "upper_char c =
     (if 97 \<le> (of_char c :: nat) \<and> (of_char c :: nat) \<le> 122 then char_of ((of_char c :: nat) - 32) else c)"

definition is_letter :: "char \<Rightarrow> bool" where
  "is_letter c \<longleftrightarrow> 97 \<le> (of_char (lower_char c) :: nat) \<and> (of_char (lower_char c) :: nat) \<le> 122"

fun title_aux :: "bool \<Rightarrow> string \<Rightarrow> string" where
  "title_aux after_letter [] = []"
| "title_aux after_letter (c # s) =
     (if after_letter then lower_char c else upper_char c) # title_aux (is_letter c) s"

definition title :: "string \<Rightarrow> string" where
  "title s = title_aux False s"

lemma split_ws_aux_sound:
  "acc \<noteq> [] \<longrightarrow> set acc \<inter> set ws_chars = {} \<Longrightarrow> w \<in> set (split_ws_aux acc s) \<Longrightarrow>
     w \<noteq> [] \<and> set w \<inter> set ws_chars = {}"
  by (induction acc s rule: split_ws_aux.induct) (auto split: if_splits)

lemma split_ws_words: "w \<in> set (split_ws s) \<Longrightarrow> w \<noteq> [] \<and> set w \<inter> set ws_chars = {}"
  unfolding split_ws_def by (rule split_ws_aux_sound) auto

section \<open>Numbers and \<open>repr\<close>\<close>

definition digit_char :: "nat \<Rightarrow> char" where
  "digit_char n = ''0123456789abcdef'' ! (n mod 16)"

fun dec_nat :: "nat \<Rightarrow> string" where
  "dec_nat n = (if n < 10 then [digit_char n] else dec_nat (n div 10) @ [digit_char (n mod 10)])"

declare dec_nat.simps [simp del]

text \<open>\<open>'%d' % n\<close> and \<open>str(n)\<close>\<close>

definition dec_int :: "int \<Rightarrow> string" where
  "dec_int n = (if n < 0 then ''-'' @ dec_nat (nat (- n)) else dec_nat (nat n))"

definition backslash :: char where "backslash = CHR 0x5C"
definition quote1 :: char where "quote1 = CHR 0x27"
definition quote2 :: char where "quote2 = CHR 0x22"

definition hex_escape :: "char \<Rightarrow> string" where
  "hex_escape c =
     [backslash, CHR ''x'', digit_char (of_char c div 16), digit_char (of_char c mod 16)]"

text \<open>One character of \<open>repr(s)\<close>, between quotes \<open>q\<close>\<close>

definition repr_char :: "char \<Rightarrow> char \<Rightarrow> string" where
  "repr_char q c =
     (if c = q \<or> c = backslash then [backslash, c]
      else if c = CHR 0x09 then [backslash, CHR ''t'']
      else if c = CHR 0x0A then [backslash, CHR ''n'']
      else if c = CHR 0x0D then [backslash, CHR ''r'']
      else if (of_char c :: nat) < 32 \<or> 127 \<le> (of_char c :: nat) then hex_escape c
      else [c])"

text \<open>\<open>repr(s)\<close> picks double quotes when the text has single quotes only.\<close>

definition repr_quote :: "string \<Rightarrow> char" where
  "repr_quote s = (if quote1 \<in> set s \<and> quote2 \<notin> set s then quote2 else quote1)"

definition repr_str :: "string \<Rightarrow> string" where
  "repr_str s = [repr_quote s] @ concat (map (repr_char (repr_quote s)) s) @ [repr_quote s]"

fun repr_val :: "pyval \<Rightarrow> string" where
  "repr_val PNone = ''None''"
| "repr_val (PBool b) = (if b then ''True'' else ''False'')"
| "repr_val (PInt n) = dec_int n"
| "repr_val (PStr s) = repr_str s"
| "repr_val (PList vs) = ''['' @ join_str '', '' (map repr_val vs) @ '']''"
| "repr_val (PTuple vs) =
     (case vs of
        [v] \<Rightarrow> ''('' @ repr_val v @ '',)''
      | _ \<Rightarrow> ''('' @ join_str '', '' (map repr_val vs) @ '')'')"

text \<open>\<open>str(xs)\<close> and \<open>'%s' % xs\<close> for a list of strings\<close>

definition repr_strs :: "string list \<Rightarrow> string" where
  "repr_strs xs = ''['' @ join_str '', '' (map repr_str xs) @ '']''"

lemma repr_strs_val: "repr_strs xs = repr_val (PList (map PStr xs))"
  by (simp add: repr_strs_def o_def)

subsection \<open>Reading a string literal back\<close>

text \<open>
  \<open>SConstruct\<close> and the test history are Python text that is executed later. The reader
  below is the part of Python's literal syntax that \<open>repr\<close> writes.
\<close>

definition hex_value :: "char \<Rightarrow> nat option" where
  "hex_value c =
     (let k = length (takeWhile (\<lambda>d. d \<noteq> c) ''0123456789abcdef'')
      in if k < 16 then Some k else None)"

fun read_body :: "char \<Rightarrow> string \<Rightarrow> (string \<times> string) option" where
  "read_body q [] = None"
| "read_body q (c # s) =
     (if c = q then Some ([], s)
      else if c \<noteq> backslash then map_option (apfst (Cons c)) (read_body q s)
      else (case s of
          [] \<Rightarrow> None
        | d # s' \<Rightarrow>
            if d = CHR ''t'' then map_option (apfst (Cons (CHR 0x09))) (read_body q s')
            else if d = CHR ''n'' then map_option (apfst (Cons (CHR 0x0A))) (read_body q s')
            else if d = CHR ''r'' then map_option (apfst (Cons (CHR 0x0D))) (read_body q s')
            else if d = CHR ''x'' then
              (case s' of
                 h # l # s'' \<Rightarrow>
                   (case (hex_value h, hex_value l) of
                      (Some a, Some b) \<Rightarrow>
                        map_option (apfst (Cons (char_of (16 * a + b)))) (read_body q s'')
                    | _ \<Rightarrow> None)
               | _ \<Rightarrow> None)
            else map_option (apfst (Cons d)) (read_body q s')))"

definition read_literal :: "string \<Rightarrow> (string \<times> string) option" where
  "read_literal s =
     (case s of
        [] \<Rightarrow> None
      | q # s' \<Rightarrow> if q = quote1 \<or> q = quote2 then read_body q s' else None)"

lemma hex_value_digit_char: "n < 16 \<Longrightarrow> hex_value (digit_char n) = Some n"
proof -
  have "\<forall>n < 16. hex_value (digit_char n) = Some n" by code_simp
  then show "n < 16 \<Longrightarrow> hex_value (digit_char n) = Some n" by blast
qed

lemma char_of_hex: "char_of (16 * (of_char c div 16) + of_char c mod (16::nat)) = c"
  by (simp add: mult.commute [of 16])

lemma read_body_repr_char:
  assumes "q = quote1 \<or> q = quote2"
  shows "read_body q (repr_char q c @ s) = map_option (apfst (Cons c)) (read_body q s)"
proof -
  have "(of_char c :: nat) div 16 < 16" using nat_of_char_less_256 [of c] by (simp add: div_less_iff_less_mult)
  then show ?thesis
    using assms
    by (auto simp: repr_char_def hex_escape_def backslash_def quote1_def quote2_def
        hex_value_digit_char char_of_hex)
qed

lemma read_body_repr:
  assumes "q = quote1 \<or> q = quote2"
  shows "read_body q (concat (map (repr_char q) s) @ q # rest) = Some (s, rest)"
  by (induction s) (simp_all add: read_body_repr_char [OF assms])

lemma read_literal_repr: "read_literal (repr_str s @ rest) = Some (s, rest)"
  unfolding read_literal_def repr_str_def
  using read_body_repr [of "repr_quote s" s rest] by (simp add: repr_quote_def)

end
