(* ===== verification/PyPath.thy ===== *)
theory PyPath
  imports PyString
begin

text \<open>
  The functions of Python's \<open>os.path\<close> (module \<open>posixpath\<close>) that the program uses, with
  the facts the components need: \<open>normpath\<close> is idempotent and returns a normal path,
  \<open>join\<close> concatenates components.
\<close>

definition slash :: char where "slash = CHR 0x2F"

definition isabs :: "string \<Rightarrow> bool" where
  "isabs p = startswith p [slash]"

text \<open>\<open>os.path.join(a, b)\<close> and \<open>os.path.join(a, *bs)\<close>\<close>

definition path_join :: "string \<Rightarrow> string \<Rightarrow> string" where
  "path_join a b =
     (if isabs b then b
      else if a = [] \<or> endswith a [slash] then a @ b
      else a @ [slash] @ b)"

definition path_joins :: "string \<Rightarrow> string list \<Rightarrow> string" where
  "path_joins a bs = foldl path_join a bs"

text \<open>The loop of \<open>os.path.normpath\<close>; \<open>new_comps\<close> is kept in reverse.\<close>

definition norm_step :: "bool \<Rightarrow> string list \<Rightarrow> string \<Rightarrow> string list" where
  "norm_step ab st c =
     (if c = [] \<or> c = ''.'' then st
      else if c \<noteq> ''..'' \<or> (\<not> ab \<and> st = []) \<or> (st \<noteq> [] \<and> hd st = ''..'') then c # st
      else tl st)"

definition norm_comps :: "bool \<Rightarrow> string list \<Rightarrow> string list" where
  "norm_comps ab cs = rev (foldl (norm_step ab) [] cs)"

definition initial_slashes :: "string \<Rightarrow> nat" where
  "initial_slashes p =
     (if \<not> startswith p [slash] then 0
      else if startswith p [slash, slash] \<and> \<not> startswith p [slash, slash, slash] then 2
      else 1)"

definition normpath :: "string \<Rightarrow> string" where
  "normpath p =
     (if p = [] then ''.''
      else let k = initial_slashes p;
               r = replicate k slash @
                     join_str [slash] (norm_comps (0 < k) (split_char slash p))
           in if r = [] then ''.'' else r)"

definition abspath :: "string \<Rightarrow> string \<Rightarrow> string" where
  "abspath cwd p = normpath (if isabs p then p else path_join cwd p)"

text \<open>\<open>os.path.split\<close>: the head keeps a root of slashes only.\<close>

definition basename :: "string \<Rightarrow> string" where
  "basename p = rev (takeWhile (\<lambda>c. c \<noteq> slash) (rev p))"

definition dirname :: "string \<Rightarrow> string" where
  "dirname p =
     (let head = take (length p - length (basename p)) p
      in if (\<forall>c \<in> set head. c = slash) then head else rstrip_chars [slash] head)"

section \<open>Components\<close>

definition segs :: "string \<Rightarrow> string list" where
  "segs p = filter (\<lambda>c. c \<noteq> []) (split_char slash p)"

lemma split_char_sep: "split_char c (a @ c # b) = split_char c a @ split_char c b"
proof (induction a)
  case (Cons x a)
  then show ?case by (cases "split_char c a") auto
qed simp

lemma segs_Nil [simp]: "segs [] = []"
  by (simp add: segs_def)

lemma segs_sep: "segs (a @ slash # b) = segs a @ segs b"
  by (simp add: segs_def split_char_sep)

lemma segs_slash [simp]: "segs (slash # b) = segs b"
  using segs_sep [of "[]" b] by simp

lemma segs_no_slash: "c \<in> set (segs p) \<Longrightarrow> slash \<notin> set c \<and> c \<noteq> []"
  by (auto simp: segs_def dest: split_char_no_sep)

lemma segs_single: "slash \<notin> set p \<Longrightarrow> p \<noteq> [] \<Longrightarrow> segs p = [p]"
  by (simp add: segs_def split_char_id)

lemma segs_join_str:
  "\<forall>c \<in> set cs. slash \<notin> set c \<and> c \<noteq> [] \<Longrightarrow> segs (join_str [slash] cs) = cs"
proof (induction cs)
  case (Cons c cs)
  show ?case
  proof (cases cs)
    case Nil
    with Cons.prems show ?thesis by (simp add: segs_single)
  next
    case (Cons d ds)
    have "join_str [slash] (c # cs) = c @ slash # join_str [slash] cs"
      using Cons by simp
    then show ?thesis using Cons.IH Cons.prems by (simp add: segs_sep segs_single)
  qed
qed simp

lemma segs_replicate [simp]: "segs (replicate k slash @ p) = segs p"
  by (induction k) auto

lemma segs_path_join: "\<not> isabs b \<Longrightarrow> segs (path_join a b) = segs a @ segs b"
proof -
  assume b: "\<not> isabs b"
  consider "a = []" | a' where "a = a' @ [slash]" | "a \<noteq> []" "\<not> endswith a [slash]"
    by (auto simp: endswith_iff)
  then show ?thesis
  proof cases
    case 2
    have "segs a = segs a'" using segs_sep [of a' "[]"] 2 by simp
    with 2 b show ?thesis by (simp add: path_join_def segs_sep)
  qed (use b in \<open>simp_all add: path_join_def segs_sep\<close>)
qed

lemma segs_path_joins:
  "\<forall>b \<in> set bs. \<not> isabs b \<Longrightarrow> segs (path_joins a bs) = segs a @ concat (map segs bs)"
  unfolding path_joins_def
  by (induction bs arbitrary: a) (auto simp: segs_path_join)

lemma foldl_norm_filter:
  "foldl (norm_step ab) st (filter (\<lambda>c. c \<noteq> []) cs) = foldl (norm_step ab) st cs"
  by (induction cs arbitrary: st) (auto simp: norm_step_def)

lemma norm_comps_segs: "norm_comps ab (split_char slash p) = norm_comps ab (segs p)"
  by (simp add: norm_comps_def segs_def foldl_norm_filter)

section \<open>Normal components\<close>

text \<open>A reversed stack is normal: \<open>..\<close> only at the front of a relative path.\<close>

definition normal_stack :: "bool \<Rightarrow> string list \<Rightarrow> bool" where
  "normal_stack ab st \<longleftrightarrow>
     (\<forall>c \<in> set st. c \<noteq> [] \<and> c \<noteq> ''.'' \<and> slash \<notin> set c) \<and>
     (\<exists>xs n. st = xs @ replicate n ''..'' \<and> ''..'' \<notin> set xs \<and> (ab \<longrightarrow> n = 0))"

lemma normal_stack_Nil [simp]: "normal_stack ab []"
  by (simp add: normal_stack_def)

lemma norm_step_normal:
  assumes "normal_stack ab st" and "slash \<notin> set c"
  shows "normal_stack ab (norm_step ab st c)"
proof -
  obtain xs n where st: "st = xs @ replicate n ''..''" "''..'' \<notin> set xs" "ab \<longrightarrow> n = 0"
    using assms(1) by (auto simp: normal_stack_def)
  have elems: "\<forall>d \<in> set st. d \<noteq> [] \<and> d \<noteq> ''.'' \<and> slash \<notin> set d"
    using assms(1) by (simp add: normal_stack_def)
  consider "c = [] \<or> c = ''.''"
    | "c \<noteq> []" "c \<noteq> ''.''" "c \<noteq> ''..''"
    | "c = ''..''" "(\<not> ab \<and> st = []) \<or> (st \<noteq> [] \<and> hd st = ''..'')"
    | "c = ''..''" "\<not> ((\<not> ab \<and> st = []) \<or> (st \<noteq> [] \<and> hd st = ''..''))"
    by blast
  then show ?thesis
  proof cases
    case 1
    with assms(1) show ?thesis by (auto simp: norm_step_def)
  next
    case 2
    have "c # st = (c # xs) @ replicate n ''..'' \<and> ''..'' \<notin> set (c # xs) \<and> (ab \<longrightarrow> n = 0)"
      using st 2 by simp
    then have "\<exists>ys m. c # st = ys @ replicate m ''..'' \<and> ''..'' \<notin> set ys \<and> (ab \<longrightarrow> m = 0)"
      by blast
    with 2 elems assms(2) show ?thesis by (simp add: norm_step_def normal_stack_def)
  next
    case 3
    have "xs = []" using 3 st by (cases xs) auto
    have "\<not> ab" using 3 st \<open>xs = []\<close> by auto
    have "c # st = [] @ replicate (Suc n) ''..'' \<and> ''..'' \<notin> set ([] :: string list)"
      using st 3 \<open>xs = []\<close> by simp
    then have "\<exists>ys m. c # st = ys @ replicate m ''..'' \<and> ''..'' \<notin> set ys \<and> (ab \<longrightarrow> m = 0)"
      using \<open>\<not> ab\<close> by blast
    moreover have "norm_step ab st c = c # st"
      using 3 by (auto simp: norm_step_def)
    ultimately show ?thesis using elems assms(2) 3 by (simp add: normal_stack_def)
  next
    case 4
    then have tl: "norm_step ab st c = tl st" by (auto simp: norm_step_def)
    have "tl st = tl xs @ replicate n ''..''"
      using 4 st by (cases xs; cases n) auto
    moreover have "''..'' \<notin> set (tl xs)" using st(2) by (cases xs) auto
    ultimately have "\<exists>ys m. tl st = ys @ replicate m ''..'' \<and> ''..'' \<notin> set ys \<and> (ab \<longrightarrow> m = 0)"
      using st(3) by blast
    moreover have "\<forall>d \<in> set (tl st). d \<noteq> [] \<and> d \<noteq> ''.'' \<and> slash \<notin> set d"
      using elems by (cases st) auto
    ultimately show ?thesis using tl by (simp add: normal_stack_def)
  qed
qed

lemma foldl_norm_normal:
  "normal_stack ab st \<Longrightarrow> \<forall>c \<in> set cs. slash \<notin> set c \<Longrightarrow>
     normal_stack ab (foldl (norm_step ab) st cs)"
  by (induction cs arbitrary: st) (auto intro: norm_step_normal)

lemma norm_comps_normal: "normal_stack ab (rev (norm_comps ab (segs p)))"
  unfolding norm_comps_def rev_rev_ident
  by (rule foldl_norm_normal) (auto dest: segs_no_slash)

lemma normal_stack_tl: "normal_stack ab (c # st) \<Longrightarrow> normal_stack ab st"
proof -
  assume a: "normal_stack ab (c # st)"
  then obtain xs n where s: "c # st = xs @ replicate n ''..''" "''..'' \<notin> set xs" "ab \<longrightarrow> n = 0"
    by (auto simp: normal_stack_def)
  have "\<exists>ys m. st = ys @ replicate m ''..'' \<and> ''..'' \<notin> set ys \<and> (ab \<longrightarrow> m = 0)"
  proof (cases xs)
    case Nil
    with s obtain m where "n = Suc m" by (cases n) auto
    with Nil s have "st = [] @ replicate m ''..''" "ab \<longrightarrow> m = 0" by auto
    then show ?thesis by (metis empty_iff empty_set)
  next
    case (Cons y ys)
    with s have "st = ys @ replicate n ''..''" "''..'' \<notin> set ys" by auto
    with s(3) show ?thesis by blast
  qed
  with a show ?thesis by (simp add: normal_stack_def)
qed

lemma normal_stack_push: "normal_stack ab (c # st) \<Longrightarrow> norm_step ab st c = c # st"
proof -
  assume a: "normal_stack ab (c # st)"
  then obtain xs n where s: "c # st = xs @ replicate n ''..''" "''..'' \<notin> set xs" "ab \<longrightarrow> n = 0"
    by (auto simp: normal_stack_def)
  have "c \<noteq> ''..'' \<or> (\<not> ab \<and> st = []) \<or> (st \<noteq> [] \<and> hd st = ''..'')"
  proof (cases xs)
    case Nil
    with s obtain m where m: "n = Suc m" by (cases n) auto
    with Nil s have "st = replicate m ''..''" "\<not> ab" by auto
    then show ?thesis by (cases m) auto
  next
    case (Cons y ys)
    with s show ?thesis by auto
  qed
  with a show ?thesis by (auto simp: norm_step_def normal_stack_def)
qed

lemma foldl_norm_rev_normal: "normal_stack ab st \<Longrightarrow> foldl (norm_step ab) [] (rev st) = st"
proof (induction st)
  case (Cons c st)
  then have "foldl (norm_step ab) [] (rev st) = st" by (simp add: normal_stack_tl [of ab c])
  with Cons.prems show ?case by (simp add: normal_stack_push)
qed simp

lemma norm_comps_id: "normal_stack ab (rev cs) \<Longrightarrow> norm_comps ab cs = cs"
  unfolding norm_comps_def using foldl_norm_rev_normal [of ab "rev cs"] by simp

section \<open>Idempotence of \<open>normpath\<close>\<close>

lemma join_normal_head:
  "\<forall>c \<in> set cs. c \<noteq> [] \<and> slash \<notin> set c \<Longrightarrow> \<not> startswith (join_str [slash] cs) [slash]"
  by (cases "([slash], cs)" rule: join_str.cases) (auto simp: neq_Nil_conv)

lemma initial_slashes_replicate:
  assumes "k \<le> 2" and "\<not> startswith r [slash]"
  shows "initial_slashes (replicate k slash @ r) = k"
proof -
  have "k = 0 \<or> k = 1 \<or> k = 2" using assms(1) by auto
  then show ?thesis using assms(2)
    by (auto simp: initial_slashes_def numeral_2_eq_2)
qed

lemma initial_slashes_le: "initial_slashes p \<le> 2"
  by (simp add: initial_slashes_def)

lemma normpath_form:
  obtains k cs where "normpath p = replicate k slash @ join_str [slash] cs" "k \<le> 2"
      "normal_stack (0 < k) (rev cs)" "replicate k slash @ join_str [slash] cs \<noteq> []"
  | "normpath p = ''.''"
proof (cases "normpath p = ''.''")
  case False
  then show thesis
    using that(1) [of "initial_slashes p" "norm_comps (0 < initial_slashes p) (segs p)"]
      initial_slashes_le [of p] norm_comps_normal [of "0 < initial_slashes p" p]
    by (auto simp: normpath_def Let_def norm_comps_segs split: if_splits)
qed (rule that(2))

lemma normpath_of_normal:
  assumes "k \<le> 2" "normal_stack (0 < k) (rev cs)" "replicate k slash @ join_str [slash] cs \<noteq> []"
  shows "normpath (replicate k slash @ join_str [slash] cs) = replicate k slash @ join_str [slash] cs"
proof -
  have c: "\<forall>c \<in> set cs. c \<noteq> [] \<and> slash \<notin> set c"
    using assms(2) by (simp add: normal_stack_def)
  have "initial_slashes (replicate k slash @ join_str [slash] cs) = k"
    using assms(1) join_normal_head [OF c] by (rule initial_slashes_replicate)
  moreover have "segs (replicate k slash @ join_str [slash] cs) = cs"
    using c by (simp add: segs_join_str)
  ultimately show ?thesis
    using assms(2,3) by (simp add: normpath_def norm_comps_segs norm_comps_id)
qed

lemma normpath_dot [simp]: "normpath ''.'' = ''.''"
  by code_simp

lemma normpath_idem [simp]: "normpath (normpath p) = normpath p"
  by (rule normpath_form [of p]) (simp_all add: normpath_of_normal)

lemma normpath_not_Nil [simp]: "normpath p \<noteq> []"
  by (simp add: normpath_def Let_def)

lemma abspath_normal [simp]: "normpath (abspath cwd p) = abspath cwd p"
  by (simp add: abspath_def)

lemma basename_no_slash: "slash \<notin> set (basename p)"
  by (auto simp: basename_def dest: set_takeWhileD)

end
