(* ===== verification/BladeUtil.thy ===== *)
theory BladeUtil
  imports PyPath
begin

text \<open>
  \<open>blade_util.py\<close> and \<open>console.py\<close>: list-valued options, relative paths, PATH-like
  environment variables, console messages, checksums, the lock of a file, the working directory
  and the processor count. What the operating system and the standard library answer are
  arguments of the definitions.
\<close>

section \<open>Option values that are a string or a list\<close>

text \<open>A value that a BUILD file passes for a list-valued option: nothing, one string or a list.\<close>

datatype arg = ANone | AStr string | AList "string list"

fun arg_val :: "arg \<Rightarrow> pyval" where
  "arg_val ANone = PNone"
| "arg_val (AStr s) = PStr s"
| "arg_val (AList ss) = PList (map PStr ss)"

fun var_to_list :: "pyval \<Rightarrow> pyval list" where
  "var_to_list (PList vs) = vs"
| "var_to_list v = (if \<not> truthy v then [] else [v])"

definition strs :: "arg \<Rightarrow> string list" where
  "strs a = str_items (var_to_list (arg_val a))"

lemma strs_simps [simp]:
  "strs ANone = []"
  "strs (AStr s) = (if s = [] then [] else [s])"
  "strs (AList ss) = ss"
  by (simp_all add: strs_def)

lemma strs_exact: "map PStr (strs a) = var_to_list (arg_val a)"
  by (cases a) auto

section \<open>Relative paths\<close>

text \<open>The counter \<open>i\<close> of \<open>relative_path\<close> when its loop ends.\<close>

fun shared_segments :: "string list \<Rightarrow> string list \<Rightarrow> nat" where
  "shared_segments (r # rs) (p # ps) =
     (if lower r \<noteq> lower p then 0 else Suc (shared_segments rs ps))"
| "shared_segments _ _ = 0"

definition relative_path :: "string \<Rightarrow> string \<Rightarrow> string \<Rightarrow> string res" where
  "relative_path cwd a_path reference_path =
     (if a_path = [] then Inl ValueError
      else let reference_list = split_char slash (abspath cwd reference_path);
               path_list = split_char slash (abspath cwd a_path);
               i = shared_segments reference_list path_list;
               rel_list = replicate (length reference_list - i) ''..'' @ drop i path_list
           in case rel_list of
                [] \<Rightarrow> Inr ''.''
              | r # rs \<Rightarrow> Inr (path_joins r rs))"

section \<open>Environment variables\<close>

definition environ_add_path ::
  "(string, string) dict \<Rightarrow> string \<Rightarrow> string \<Rightarrow> (string, string) dict" where
  "environ_add_path env key path =
     (case map_of env key of
        None \<Rightarrow> dict_set key path env
      | Some old \<Rightarrow>
          if old = [] then dict_set key path env
          else dict_set key (old @ '':'' @ path) env)"

lemma environ_add_path_lookup:
  "map_of (environ_add_path env key path) =
     (map_of env)(key \<mapsto> (case map_of env key of
        None \<Rightarrow> path | Some old \<Rightarrow> if old = [] then path else old @ '':'' @ path))"
  by (simp add: environ_add_path_def split: option.splits)

section \<open>Console messages\<close>

datatype msg = Info string | Warning string | Error string

definition esc :: char where "esc = CHR 0x1B"

definition color_table :: "string \<rightharpoonup> string" where
  "color_table = map_of
     [(''red'', esc # ''[1;31m''), (''green'', esc # ''[1;32m''),
      (''yellow'', esc # ''[1;33m''), (''blue'', esc # ''[1;34m''),
      (''purple'', esc # ''[1;35m''), (''cyan'', esc # ''[1;36m''),
      (''white'', esc # ''[1;37m''), (''gray'', esc # ''[1;38m''),
      (''end'', esc # ''[0m'')]"

definition colors :: "bool \<Rightarrow> string \<Rightarrow> string res" where
  "colors color_enabled name =
     (if color_enabled
      then (case color_table name of None \<Rightarrow> Inl KeyError | Some s \<Rightarrow> Inr s)
      else Inr [])"

text \<open>The line each console function writes to stderr.\<close>

fun console_line :: "bool \<Rightarrow> msg \<Rightarrow> string" where
  "console_line ce (Error m) =
     (if ce then (esc # ''[1;31m'') @ ''Blade(error): '' @ m @ (esc # ''[0m'')
      else ''Blade(error): '' @ m)"
| "console_line ce (Warning m) =
     (if ce then (esc # ''[1;33m'') @ ''Blade(warning): '' @ m @ (esc # ''[0m'')
      else ''Blade(warning): '' @ m)"
| "console_line ce (Info m) =
     (if ce then (esc # ''[1;36m'') @ ''Blade(info): '' @ m @ (esc # ''[0m'')
      else ''Blade(info): '' @ m)"

definition error_exit :: "string \<Rightarrow> 'a res" where
  "error_exit m = Inl (ErrorExit m)"

lemma error_exit_simps [simp, res_simps]:
  "error_exit m \<noteq> Inr x"
  "Inr x \<noteq> error_exit m"
  "\<not> is_ok (error_exit m)"
  "bind_res (error_exit m) f = error_exit m"
  by (simp_all add: error_exit_def)

section \<open>Checksums, locks and the machine\<close>

text \<open>\<open>md5\<close> is the hexadecimal digest of a string.\<close>

definition md5sum_str :: "(string \<Rightarrow> string) \<Rightarrow> pyval \<Rightarrow> string res" where
  "md5sum_str md5 user_str =
     (case user_str of
        PStr s \<Rightarrow> Inr (md5 s)
      | _ \<Rightarrow> error_exit ''not a valid basestring type to caculate md5'')"

definition md5sum :: "(string \<Rightarrow> string) \<Rightarrow> pyval \<Rightarrow> string res" where
  "md5sum md5 obj = md5sum_str md5 obj"

text \<open>\<open>flock\<close> is the call of the system on the descriptor: the number of its error, if it fails.\<close>

definition lock_ex :: "int" where "lock_ex = 2"
definition lock_nb :: "int" where "lock_nb = 4"
definition lock_un :: "int" where "lock_un = 8"

definition lock_file :: "(int \<Rightarrow> int option) \<Rightarrow> int \<Rightarrow> bool \<times> int" where
  "lock_file flock flags =
     (case flock flags of None \<Rightarrow> (True, 0) | Some ex_value \<Rightarrow> (False, ex_value))"

definition unlock_file :: "(int \<Rightarrow> int option) \<Rightarrow> bool \<times> int" where
  "unlock_file flock =
     (case flock lock_un of None \<Rightarrow> (True, 0) | Some ex_value \<Rightarrow> (False, ex_value))"

text \<open>What \<open>pwd\<close> printed, and the two ways to count processors; the module \<open>multiprocessing\<close> may be
  missing.\<close>

definition get_cwd :: "string \<Rightarrow> string" where
  "get_cwd pwd_output = strip_ws pwd_output"

definition cpu_count :: "int option \<Rightarrow> int \<Rightarrow> int" where
  "cpu_count multiprocessing sc_nprocessors_onln =
     (case multiprocessing of Some n \<Rightarrow> n | None \<Rightarrow> sc_nprocessors_onln)"

section \<open>The relative path leads back\<close>

lemma shared_segments_le:
  "shared_segments rs ps \<le> length rs \<and> shared_segments rs ps \<le> length ps"
  by (induction rs ps rule: shared_segments.induct) auto

lemma shared_segments_lower:
  "map lower (take (shared_segments rs ps) rs) = map lower (take (shared_segments rs ps) ps)"
  by (induction rs ps rule: shared_segments.induct) auto

lemma shared_segments_take:
  "\<forall>x \<in> set rs. \<forall>y \<in> set ps. lower x = lower y \<longrightarrow> x = y \<Longrightarrow>
     take (shared_segments rs ps) rs = take (shared_segments rs ps) ps"
  by (induction rs ps rule: shared_segments.induct) auto

text \<open>An absolute normal path, given by its components.\<close>

definition abs_of :: "string list \<Rightarrow> string" where
  "abs_of cs = slash # join_str [slash] cs"

lemma segs_abs_of: "normal_stack True (rev cs) \<Longrightarrow> segs (abs_of cs) = cs"
  by (simp add: abs_of_def normal_stack_def segs_join_str)

lemma initial_slashes_abs_of: "normal_stack True (rev cs) \<Longrightarrow> initial_slashes (abs_of cs) = 1"
  using initial_slashes_replicate [of 1 "join_str [slash] cs"] join_normal_head [of cs]
  by (simp add: abs_of_def normal_stack_def)

lemma normpath_abs_of [simp]: "normal_stack True (rev cs) \<Longrightarrow> normpath (abs_of cs) = abs_of cs"
  using normpath_of_normal [of 1 cs] by (simp add: abs_of_def)

lemma isabs_abs_of [simp]: "isabs (abs_of cs)"
  by (simp add: isabs_def abs_of_def)

lemma abspath_abs_of [simp]: "normal_stack True (rev cs) \<Longrightarrow> abspath cwd (abs_of cs) = abs_of cs"
  by (simp add: abspath_def)

lemma split_abs_of:
  "normal_stack True (rev cs) \<Longrightarrow>
     split_char slash (abs_of cs) = [] # (if cs = [] then [[]] else cs)"
  by (simp add: abs_of_def normal_stack_def split_join_char)

lemma normal_no_dotdot: "normal_stack True (rev cs) \<Longrightarrow> ''..'' \<notin> set cs"
  by (auto simp: normal_stack_def)

lemma foldl_norm_dotdot:
  "''..'' \<notin> set st \<Longrightarrow> foldl (norm_step True) st (replicate n ''..'') = drop n st"
proof (induction n arbitrary: st)
  case (Suc n)
  have "norm_step True st ''..'' = tl st"
    using Suc.prems by (cases st) (auto simp: norm_step_def)
  moreover have "''..'' \<notin> set (tl st)" using Suc.prems by (cases st) auto
  ultimately show ?case using Suc.IH by (simp add: drop_Suc)
qed simp

lemma foldl_norm_plain:
  "\<forall>c \<in> set cs. c \<noteq> ''..'' \<and> c \<noteq> ''.'' \<and> c \<noteq> [] \<Longrightarrow>
     foldl (norm_step ab) st cs = rev cs @ st"
  by (induction cs arbitrary: st) (auto simp: norm_step_def)

lemma norm_climb:
  assumes R: "normal_stack True (rev R)" and A: "normal_stack True (rev A)"
    and k: "k \<le> length R" and n: "length R - k = n \<or> (k = 0 \<and> length R \<le> n)"
  shows "norm_comps True (R @ replicate n ''..'' @ drop k A) = take k R @ drop k A"
proof -
  have plain: "\<forall>c \<in> set A. c \<noteq> ''..'' \<and> c \<noteq> ''.'' \<and> c \<noteq> []"
    using A normal_no_dotdot [OF A] by (auto simp: normal_stack_def)
  have "foldl (norm_step True) [] R = rev R"
    using foldl_norm_rev_normal [OF R] by simp
  moreover have "drop n (rev R) = rev (take k R)"
    using k n by (auto simp: drop_rev)
  ultimately have "foldl (norm_step True) [] (R @ replicate n ''..'') = rev (take k R)"
    using normal_no_dotdot [OF R] by (simp add: foldl_norm_dotdot)
  moreover have "foldl (norm_step True) (rev (take k R)) (drop k A) = rev (drop k A) @ rev (take k R)"
    using plain by (intro foldl_norm_plain) (meson in_set_dropD)
  ultimately show ?thesis
    by (simp add: norm_comps_def flip: rev_append)
qed

lemma path_joins_extends:
  "\<forall>b \<in> set bs. \<not> isabs b \<Longrightarrow> \<exists>t. path_joins a bs = a @ t"
proof (induction bs arbitrary: a)
  case (Cons b bs)
  then obtain t where "path_joins (path_join a b) bs = path_join a b @ t" by auto
  with Cons.prems show ?case by (auto simp: path_joins_def path_join_def)
qed (simp add: path_joins_def)

lemma initial_slashes_join_abs:
  assumes R: "normal_stack True (rev R)" and r: "\<not> isabs r"
  shows "initial_slashes (path_join (abs_of R) r) = 1"
proof (cases R)
  case Nil
  have "endswith [slash] [slash]" using endswith_append [of "[]" "[slash]"] by simp
  with Nil r show ?thesis
    by (simp add: abs_of_def path_join_def initial_slashes_def) (auto simp: isabs_def)
next
  case (Cons c R')
  then obtain x c' where "c = x # c'" "x \<noteq> slash"
    using R by (cases c) (auto simp: normal_stack_def)
  then obtain t where "abs_of R = slash # x # t"
    using Cons by (cases R') (auto simp: abs_of_def)
  with r \<open>x \<noteq> slash\<close> show ?thesis
    by (auto simp: path_join_def initial_slashes_def)
qed

lemma normpath_join_abs:
  assumes "normal_stack True (rev R)" and "\<not> isabs r"
  shows "normpath (path_join (abs_of R) r) = abs_of (norm_comps True (R @ segs r))"
proof -
  have "path_join (abs_of R) r \<noteq> []" using assms(2) by (simp add: path_join_def abs_of_def)
  with assms show ?thesis
    by (simp add: normpath_def initial_slashes_join_abs norm_comps_segs segs_path_join
        segs_abs_of abs_of_def [of "norm_comps True _"])
qed

lemma segs_dots [simp]: "segs ''..'' = [''..'']" "segs ''.'' = [''.'']"
  by code_simp+

lemma rel_list_segs:
  assumes "\<forall>c \<in> set cs. slash \<notin> set c"
  shows "concat (map segs (replicate n ''..'' @ cs)) = replicate n ''..'' @ filter (\<lambda>c. c \<noteq> []) cs"
proof -
  have "concat (map segs cs) = filter (\<lambda>c. c \<noteq> []) cs"
    using assms by (induction cs) (auto simp: segs_single)
  moreover have "concat (map segs (replicate n ''..'')) = replicate n ''..''"
    by (induction n) auto
  ultimately show ?thesis by simp
qed

lemma lower_Nil_iff: "lower c = [] \<longleftrightarrow> c = []"
  by (simp add: lower_def)

lemma lower_join: "lower (join_str [slash] cs) = join_str [slash] (map lower cs)"
proof -
  have "map lower_char [slash] = [slash]" by code_simp
  then show ?thesis
    by (induction "[slash]" cs rule: join_str.induct) (auto simp: lower_def)
qed

lemma lower_abs_of: "map lower B = map lower A \<Longrightarrow> lower (abs_of B) = lower (abs_of A)"
  using lower_join [of A] lower_join [of B] by (simp add: abs_of_def) (simp add: lower_def)

lemma relative_path_list:
  assumes R: "normal_stack True (rev R)" and A: "normal_stack True (rev A)"
  defines "L \<equiv> (let rl = [] # (if R = [] then [[]] else R); pl = [] # (if A = [] then [[]] else A);
                   i = shared_segments rl pl
               in replicate (length rl - i) ''..'' @ drop i pl)"
  shows "\<exists>k. norm_comps True (R @ concat (map segs L)) = take k R @ drop k A \<and>
           map lower (take k R) = map lower (take k A) \<and>
           ((\<forall>x \<in> set R. \<forall>y \<in> set A. lower x = lower y \<longrightarrow> x = y) \<longrightarrow> take k R = take k A)"
    and "\<forall>b \<in> set L. \<not> isabs b" and "L \<noteq> [] \<Longrightarrow> hd L \<noteq> []"
proof -
  have ne: "\<forall>c \<in> set R \<union> set A. c \<noteq> [] \<and> slash \<notin> set c"
    using R A by (auto simp: normal_stack_def)
  then have len: "\<forall>c \<in> set R \<union> set A. lower c \<noteq> []" by (simp add: lower_Nil_iff)
  have low: "lower [] = []" by (simp add: lower_def)
  obtain n k tl where L: "L = replicate n ''..'' @ tl" and tl: "tl = drop k A \<or> (A = [] \<and> tl = [[]] \<and> 0 < n)"
    and k: "k \<le> length R" "length R - k = n \<or> (k = 0 \<and> length R \<le> n)"
    and kl: "k = 0 \<or> k = shared_segments R A"
  proof -
    consider "R = []" "A = []" | "R = []" "A \<noteq> []" | "R \<noteq> []" "A = []" | "R \<noteq> []" "A \<noteq> []"
      by blast
    then show thesis
    proof cases
      case 1
      then have "L = []" using low by (simp add: L_def)
      with 1 show thesis using that [of 0 "[]" 0] by simp
    next
      case 2
      then obtain c A' where "A = c # A'" by (cases A) auto
      then have "L = [''..''] @ A" using 2 low len by (auto simp: L_def)
      with 2 show thesis using that [of 1 A 0] by simp
    next
      case 3
      then obtain c R' where "R = c # R'" by (cases R) auto
      then have "L = replicate (length R) ''..'' @ [[]]" using 3 low len by (simp add: L_def)
      with 3 show thesis using that [of "length R" "[[]]" 0] by simp
    next
      case 4
      have L4: "L = replicate (length R - shared_segments R A) ''..'' @ drop (shared_segments R A) A"
        using 4 low by (simp add: L_def Let_def)
      show thesis
        by (rule that [OF L4, of "shared_segments R A"]) (simp_all add: shared_segments_le)
    qed
  qed
  have dropA: "\<forall>c \<in> set (drop k A). c \<noteq> [] \<and> slash \<notin> set c"
    using ne by (meson UnI2 in_set_dropD)
  have filt: "filter (\<lambda>c. c \<noteq> []) tl = drop k A"
    using tl dropA by (auto simp: filter_id_conv)
  have noslash: "\<forall>c \<in> set tl. slash \<notin> set c" using tl dropA by auto
  have "norm_comps True (R @ concat (map segs L)) = take k R @ drop k A"
    using norm_climb [OF R A k] rel_list_segs [OF noslash] by (simp add: L filt)
  moreover have "map lower (take k R) = map lower (take k A)"
    using kl shared_segments_lower [of R A] by auto
  moreover have "take k R = take k A" if "\<forall>x \<in> set R. \<forall>y \<in> set A. lower x = lower y \<longrightarrow> x = y"
    using kl shared_segments_take [OF that] by auto
  ultimately show "\<exists>k. norm_comps True (R @ concat (map segs L)) = take k R @ drop k A \<and>
           map lower (take k R) = map lower (take k A) \<and>
           ((\<forall>x \<in> set R. \<forall>y \<in> set A. lower x = lower y \<longrightarrow> x = y) \<longrightarrow> take k R = take k A)" by blast
  have "\<not> isabs ''..''" by code_simp
  moreover have "\<not> isabs c" if "slash \<notin> set c" for c
    using that by (cases c) (auto simp: isabs_def)
  ultimately show "\<forall>b \<in> set L. \<not> isabs b"
    using noslash by (auto simp: L)
  show "L \<noteq> [] \<Longrightarrow> hd L \<noteq> []"
    using tl dropA by (cases n) (auto simp: L hd_append)
qed

text \<open>The result is joined to the reference and normalised: the components \<open>R @ L\<close>.\<close>

lemma relative_path_joined:
  assumes R: "normal_stack True (rev R)" and A: "normal_stack True (rev A)"
  shows "\<exists>rel k. relative_path cwd (abs_of A) (abs_of R) = Inr rel \<and>
           normpath (path_join (abs_of R) rel) = abs_of (take k R @ drop k A) \<and>
           map lower (take k R) = map lower (take k A) \<and>
           ((\<forall>x \<in> set R. \<forall>y \<in> set A. lower x = lower y \<longrightarrow> x = y) \<longrightarrow> take k R = take k A)"
proof -
  define L where "L = (let rl = [] # (if R = [] then [[]] else R); pl = [] # (if A = [] then [[]] else A);
                   i = shared_segments rl pl
               in replicate (length rl - i) ''..'' @ drop i pl)"
  note L = relative_path_list [OF assms, folded L_def]
  obtain k where k: "norm_comps True (R @ concat (map segs L)) = take k R @ drop k A"
    "map lower (take k R) = map lower (take k A)"
    "(\<forall>x \<in> set R. \<forall>y \<in> set A. lower x = lower y \<longrightarrow> x = y) \<longrightarrow> take k R = take k A"
    using L(1) by blast
  have eq: "relative_path cwd (abs_of A) (abs_of R) =
      (case L of [] \<Rightarrow> Inr ''.'' | r # rs \<Rightarrow> Inr (path_joins r rs))"
    using assms(1,2)
    by (simp add: relative_path_def L_def Let_def split_abs_of) (simp add: abs_of_def)
  have "\<exists>rel. relative_path cwd (abs_of A) (abs_of R) = Inr rel \<and>
      normpath (path_join (abs_of R) rel) = abs_of (norm_comps True (R @ concat (map segs L)))"
  proof (cases L)
    case Nil
    have "norm_comps True (R @ [''.'']) = norm_comps True R"
      by (simp add: norm_comps_def norm_step_def)
    moreover have "\<not> isabs ''.''" by code_simp
    ultimately show ?thesis using Nil eq R by (simp add: normpath_join_abs)
  next
    case (Cons r rs)
    obtain t where t: "path_joins r rs = r @ t"
      using path_joins_extends [of rs r] L(2) Cons by auto
    have "r \<noteq> []" "\<not> isabs r" using L(2,3) Cons by auto
    then have "\<not> isabs (path_joins r rs)" unfolding t by (cases r) (auto simp: isabs_def)
    moreover have "segs (path_joins r rs) = concat (map segs L)"
      using L(2) Cons by (simp add: segs_path_joins)
    ultimately show ?thesis
      using Cons eq R by (simp add: normpath_join_abs)
  qed
  with k show ?thesis by auto
qed

text \<open>
  C18: For absolute normal paths, \<open>relative_path\<close> never raises. Joining its result to the
  reference directory and normalising leads back to the path up to the case of letters, and
  exactly to the path if no segment of the one path differs from a segment of the other in case
  only: the segments are compared in lower case (the TODO in the source).
\<close>

theorem relative_path_leads_back:
  assumes "normal_stack True (rev R)" and "normal_stack True (rev A)"
  shows "\<exists>rel. relative_path cwd (abs_of A) (abs_of R) = Inr rel \<and>
           lower (normpath (path_join (abs_of R) rel)) = lower (abs_of A) \<and>
           ((\<forall>x \<in> set R. \<forall>y \<in> set A. lower x = lower y \<longrightarrow> x = y) \<longrightarrow>
              normpath (path_join (abs_of R) rel) = abs_of A)"
proof -
  obtain rel k where rel: "relative_path cwd (abs_of A) (abs_of R) = Inr rel"
    and np: "normpath (path_join (abs_of R) rel) = abs_of (take k R @ drop k A)"
    and k: "map lower (take k R) = map lower (take k A)"
      "(\<forall>x \<in> set R. \<forall>y \<in> set A. lower x = lower y \<longrightarrow> x = y) \<longrightarrow> take k R = take k A"
    using relative_path_joined [OF assms] by blast
  have "map lower (take k R @ drop k A) = map lower A"
    using k(1) by (metis append_take_drop_id map_append)
  then have "lower (abs_of (take k R @ drop k A)) = lower (abs_of A)" by (rule lower_abs_of)
  then show ?thesis using rel np k(2) by auto
qed

theorem relative_path_leads_back_witness:
  "\<exists>rel. relative_path ''/w'' (abs_of [''src'', ''x'']) (abs_of [''src'', ''y'']) = Inr rel \<and>
     normpath (path_join (abs_of [''src'', ''y'']) rel) = abs_of [''src'', ''x'']"
proof -
  have n: "normal_stack True (rev [''src'', s]) \<longleftrightarrow> s \<noteq> [] \<and> s \<noteq> ''.'' \<and> s \<noteq> ''..'' \<and> slash \<notin> set s" for s
    by (auto simp: normal_stack_def slash_def intro!: exI [of _ "[s, ''src'']"])
  have R: "normal_stack True (rev [''src'', ''y''])" and A: "normal_stack True (rev [''src'', ''x''])"
    unfolding n by (simp_all add: slash_def)
  have "\<forall>x \<in> set [''src'', ''y'']. \<forall>y \<in> set [''src'', ''x'']. lower x = lower y \<longrightarrow> x = y"
    by code_simp
  then show ?thesis using relative_path_leads_back [OF R A] by blast
qed

text \<open>
  The lower-case comparison treats directories that differ in case only as shared, and
  the relative path then names another directory.
\<close>

lemma relative_path_ignores_case:
  "relative_path ''/w'' ''/src/Lib/a'' ''/src/lib'' = Inr ''a'' \<and>
   normpath (path_join ''/src/lib'' ''a'') \<noteq> ''/src/Lib/a''"
  by code_simp

end
