(* ===== verification/BladeState.thy ===== *)
theory BladeState
  imports BladeUtil
begin

text \<open>
  The data the components share: target objects (\<open>target.py\<close>), the options object
  (\<open>command_args.py\<close>), the configuration (\<open>configparse.py\<close>) and the state of the blade
  manager (\<open>blade.py\<close>), with the one operation every component uses to change the
  database, \<open>register_target\<close>.

  Target objects live in the target database. \<open>related_targets\<close>, later \<open>build_targets\<close>,
  holds references to the same objects, so the model stores each object once, in
  \<open>b_database\<close>, and keeps the keys of \<open>build_targets\<close> beside it.
\<close>

type_synonym tkey = "string \<times> string"

text \<open>The Python class of a target object decides which \<open>scons_rules\<close> runs.\<close>

datatype target_class =
    SystemLibrary | CcLibrary | CcBinary | CcTest | CcPlugin
  | ProtoLibrary | LexYaccLibrary | ResourceLibrary | SwigLibrary | ThriftLibrary
  | GenRuleTarget | JavaJarTarget | PythonBinaryTarget

datatype testdata_item = DataFile string | DataLink string string

text \<open>What \<open>thrift_helper.py\<close> learns from a thrift file; a target keeps one for each source.\<close>

record thrift_helper =
  h_path :: string
  h_thrift_name :: string
  h_package_name :: "(string, string) dict"
  h_has_constants :: bool
  h_enums :: "string list"
  h_structs :: "string list"
  h_exceptions :: "string list"
  h_services :: "string list"

text \<open>
  The dictionary \<open>self.data\<close>, one field per key. The program reads these keys with
  \<open>data.get\<close> and a false default, so an absent key is the false value of its type; the keys
  whose absence it can observe have an option type. \<open>jar_packing_files\<close> is read by the java
  targets and written by nobody. The last two fields are attributes of the thrift and swig
  targets, \<open>thrift_helpers\<close> and \<open>php_inc_list\<close>.
\<close>

record tdata =
  d_warning :: string
  d_defs :: "string list"
  d_incs :: "string list"
  d_export_incs :: "string list"
  d_optimize :: "string list"
  d_extra_cppflags :: "string list"
  d_extra_linkflags :: "string list"
  d_link_all_symbols :: bool
  d_always_optimize :: bool
  d_deprecated :: bool
  d_build_dynamic :: bool
  d_generate_java :: bool
  d_generate_php :: bool
  d_generate_python :: bool
  d_dynamic_link :: bool
  d_export_dynamic :: bool
  d_testdata :: "testdata_item list option"
  d_always_run :: bool
  d_exclusive :: bool
  d_heap_check :: string
  d_test_exit_code :: "int option"
  d_recursive :: bool
  d_prefix :: string
  d_res_srcs :: "string list"
  d_outs :: "string list"
  d_cmd :: string
  d_java_sources :: "(string \<times> string \<times> string) option"
  d_java_explict_dependency :: "string list"
  d_python_vars :: "string list"
  d_python_sources :: "string list"
  d_java_jars :: "string list"
  d_jar_class_path :: string
  d_cpperraswarn :: string
  d_java_package :: string
  d_java_lib_packed :: bool
  d_java_dep_var :: "string list"
  d_jar_packing_file :: "(string \<times> string) option"
  d_jar_packing_files :: "(string \<times> string) option"
  d_thrift_helpers :: "(string, thrift_helper) dict"
  d_php_inc_list :: "string list"

definition empty_data :: tdata where
  "empty_data = \<lparr>
     d_warning = [], d_defs = [], d_incs = [], d_export_incs = [], d_optimize = [],
     d_extra_cppflags = [], d_extra_linkflags = [], d_link_all_symbols = False,
     d_always_optimize = False, d_deprecated = False, d_build_dynamic = False,
     d_generate_java = False, d_generate_php = False, d_generate_python = False,
     d_dynamic_link = False, d_export_dynamic = False, d_testdata = None,
     d_always_run = False, d_exclusive = False, d_heap_check = [],
     d_test_exit_code = None, d_recursive = False, d_prefix = [], d_res_srcs = [],
     d_outs = [], d_cmd = [], d_java_sources = None, d_java_explict_dependency = [],
     d_python_vars = [], d_python_sources = [], d_java_jars = [], d_jar_class_path = [],
     d_cpperraswarn = [], d_java_package = [], d_java_lib_packed = False, d_java_dep_var = [],
     d_jar_packing_file = None, d_jar_packing_files = None, d_thrift_helpers = [],
     d_php_inc_list = []\<rparr>"

text \<open>\<open>t_var_name\<close> and \<open>t_file_and_link\<close> are attributes that only \<open>scons_rules\<close> sets.\<close>

record target =
  t_class :: target_class
  t_key :: tkey
  t_fullname :: string
  t_name :: string
  t_path :: string
  t_type :: string
  t_srcs :: "string list"
  t_deps :: "tkey list"
  t_expanded_deps :: "tkey list"
  t_data :: tdata
  t_rules :: "string list"
  t_var_name :: "string option"
  t_file_and_link :: "(string \<times> string) option"

type_synonym targets = "(tkey, target) dict"

text \<open>An option that a subcommand does not define is read with \<open>getattr\<close> and a default.\<close>

record options =
  o_command :: string
  o_m :: "string option"
  o_profile :: string
  o_generate_dynamic :: bool
  o_generate_java :: bool
  o_generate_php :: bool
  o_generate_python :: bool
  o_scons_only :: bool
  o_jobs :: int
  o_keep_going :: bool
  o_verbose :: bool
  o_no_test :: bool
  o_color :: "string option"
  o_cache_dir :: "string option"
  o_cache_size :: pyval
  o_deps :: bool
  o_depended :: bool
  o_output_to_dot :: "string option"
  o_testargs :: "string option"
  o_runargs :: "string option"
  o_fulltest :: bool
  o_test_jobs :: int
  o_show_details :: bool
  o_args :: "string list"
  o_gprof :: bool
  o_gcov :: bool

text \<open>\<open>'%s' % options.m\<close>\<close>

definition shown_m :: "options \<Rightarrow> string" where
  "shown_m opt = (case o_m opt of None \<Rightarrow> ''None'' | Some m \<Rightarrow> m)"

type_synonym section_items = "(string, pyval) dict"
type_synonym configs = "(string, section_items) dict"

text \<open>\<open>get_config(section)[item]\<close>\<close>

definition config_item :: "configs \<Rightarrow> string \<Rightarrow> string \<Rightarrow> pyval res" where
  "config_item cfg sec item = dict_index (dict_get cfg sec []) item"

definition config_strs :: "configs \<Rightarrow> string \<Rightarrow> string \<Rightarrow> string list res" where
  "config_strs cfg sec item = bind_res (config_item cfg sec item) (\<lambda>v. Inr (str_items (var_to_list v)))"

record blade =
  b_command_targets :: "string list"
  b_blade_path :: string
  b_working_dir :: string
  b_build_path :: string
  b_root_dir :: string
  b_options :: options
  b_command :: string
  b_current_source_path :: string
  b_direct_targets :: "tkey list"
  b_all_command_targets :: "tkey list"
  b_database :: targets
  b_build_targets :: "tkey list"
  b_sorted_keys :: "tkey list"
  b_expanded :: bool
  b_svn_roots :: "string list"
  b_src_target_map :: "(string, string) dict"
  b_config :: configs
  b_console :: "msg list"

definition warn :: "string \<Rightarrow> blade \<Rightarrow> blade" where
  "warn m b = b\<lparr>b_console := b_console b @ [Warning m]\<rparr>"

definition info :: "string \<Rightarrow> blade \<Rightarrow> blade" where
  "info m b = b\<lparr>b_console := b_console b @ [Info m]\<rparr>"

definition newline :: string where "newline = [CHR 0x0A]"

text \<open>\<open>'//path:name'\<close> and \<open>'path:name'\<close>\<close>

definition colon_name :: "tkey \<Rightarrow> string" where
  "colon_name k = fst k @ '':'' @ snd k"

definition label :: "string \<Rightarrow> string \<Rightarrow> string" where
  "label p n = ''//'' @ p @ '':'' @ n"

section \<open>Registering a target\<close>

definition register_target :: "target \<Rightarrow> blade \<Rightarrow> blade res" where
  "register_target t b =
     (if t_key t \<in> set (keys (b_database b))
      then error_exit (''target name '' @ t_name t @ '' is duplicate in //'' @ t_path t @ ''/BUILD'')
      else Inr (b\<lparr>b_database := dict_set (t_key t) t (b_database b)\<rparr>))"

text \<open>Every object of the database is stored under its own key, and keys do not repeat.\<close>

definition db_wf :: "targets \<Rightarrow> bool" where
  "db_wf db \<longleftrightarrow> dict_wf db \<and> (\<forall>k t. map_of db k = Some t \<longrightarrow> t_key t = k)"

text \<open>The database only grows: objects that are there stay as they are.\<close>

definition db_extends :: "targets \<Rightarrow> targets \<Rightarrow> bool" where
  "db_extends db db' \<longleftrightarrow> map_of db \<subseteq>\<^sub>m map_of db'"

lemma db_wf_Nil [simp]: "db_wf []"
  by (simp add: db_wf_def dict_wf_def)

lemma db_extends_refl [simp]: "db_extends db db"
  by (simp add: db_extends_def)

lemma db_extends_trans [trans]: "db_extends a b \<Longrightarrow> db_extends b c \<Longrightarrow> db_extends a c"
  unfolding db_extends_def by (rule map_le_trans)

lemma db_extendsD: "db_extends a b \<Longrightarrow> map_of a k = Some t \<Longrightarrow> map_of b k = Some t"
  unfolding db_extends_def by (metis domI map_le_def)

lemma db_extends_dict_set: "k \<notin> fst ` set db \<Longrightarrow> db_extends db (dict_set k t db)"
  unfolding db_extends_def map_le_def by (auto dest: map_of_SomeD) (force dest: map_of_SomeD)

lemma register_target_Inr:
  "register_target t b = Inr b' \<longleftrightarrow>
     t_key t \<notin> set (keys (b_database b)) \<and>
     b' = b\<lparr>b_database := dict_set (t_key t) t (b_database b)\<rparr>"
  by (auto simp: register_target_def)

lemma register_target_extends:
  "register_target t b = Inr b' \<Longrightarrow> db_extends (b_database b) (b_database b')"
  by (auto simp: register_target_Inr intro: db_extends_dict_set)

lemma register_target_wf:
  "register_target t b = Inr b' \<Longrightarrow> db_wf (b_database b) \<Longrightarrow> db_wf (b_database b')"
  by (auto simp: register_target_Inr db_wf_def)

lemma warn_fields [simp]:
  "b_database (warn m b) = b_database b"
  "b_current_source_path (warn m b) = b_current_source_path b"
  "b_build_path (warn m b) = b_build_path b"
  "b_config (warn m b) = b_config b"
  "b_options (warn m b) = b_options b"
  "b_src_target_map (warn m b) = b_src_target_map b"
  "b_console (warn m b) = b_console b @ [Warning m]"
  by (simp_all add: warn_def)

end
