(* ===== verification/TargetBase.thy ===== *)
theory TargetBase
  imports BladeState
begin

text \<open>
  \<open>target.py\<close>: the constructor of the abstract \<open>Target\<close> class with its checks, the parsing
  of dependency strings into keys, the variable names of the generated script, and the
  rule buffer.
\<close>

section \<open>The constructor and its checks\<close>

definition check_name :: "string \<Rightarrow> string \<Rightarrow> unit res" where
  "check_name path name =
     (if slash \<in> set name
      then error_exit (label path name @ '': Invalid target name, should not contain dir part.'')
      else Inr ())"

text \<open>\<open>repr\<close> of the dictionary of unrecognised options\<close>

definition repr_kwargs :: "(string, pyval) dict \<Rightarrow> string" where
  "repr_kwargs kw =
     ''{'' @ join_str '', '' (map (\<lambda>(k, v). repr_str k @ '': '' @ repr_val v) kw) @ ''}''"

definition check_kwargs :: "string \<Rightarrow> string \<Rightarrow> (string, pyval) dict \<Rightarrow> blade \<Rightarrow> blade" where
  "check_kwargs path name kwargs b =
     (if kwargs \<noteq> []
      then warn (label path name @ '': unrecognized options '' @ repr_kwargs kwargs) b
      else b)"

definition allow_dup_src_type_list :: "string list" where
  "allow_dup_src_type_list = [''cc_binary'', ''cc_test'']"

definition src_value :: "string \<Rightarrow> string \<Rightarrow> string \<Rightarrow> string" where
  "src_value ttype path name = ttype @ '' '' @ path @ '':'' @ name"

text \<open>One round of the loop of \<open>_check_srcs\<close>\<close>

definition check_src :: "string \<Rightarrow> string \<Rightarrow> string \<Rightarrow> string \<Rightarrow> blade \<Rightarrow> blade res" where
  "check_src ttype path name s b =
     (if has_sub ''..'' s \<or> startswith s [slash]
      then Inl (PyException (''Invalid source file path: '' @ s @
             ''. can only be relative path, and must in current directory or subdirectories''))
      else
        let src_key = normpath (path @ [slash] @ s);
            value = src_value ttype path name;
            b' = (case map_of (b_src_target_map b) src_key of
                    None \<Rightarrow> b
                  | Some value_existed \<Rightarrow>
                      if value_existed \<noteq> value \<and>
                         \<not> (hd (split_str '': '' value_existed) \<in> set allow_dup_src_type_list \<and>
                            ttype \<in> set allow_dup_src_type_list)
                      then warn (''Source file '' @ s @ '' belongs to both '' @ value_existed @
                                 '' and '' @ value) b
                      else b)
        in Inr (b'\<lparr>b_src_target_map := dict_set src_key value (b_src_target_map b')\<rparr>))"

definition check_srcs :: "string \<Rightarrow> string \<Rightarrow> string \<Rightarrow> string list \<Rightarrow> blade \<Rightarrow> blade res" where
  "check_srcs ttype path name ss b = fold_res (check_src ttype path name) ss b"

text \<open>One round of the loop of \<open>_check_deps_in_build_file\<close>\<close>

definition check_dep :: "string \<Rightarrow> string \<Rightarrow> string \<Rightarrow> unit res" where
  "check_dep path name dep =
     (if \<not> (startswith dep '':'' \<or> startswith dep ''#'' \<or> startswith dep ''//'' \<or>
             startswith dep ''./'')
      then error_exit (path @ [slash] @ name @ '': Invalid dep in '' @ dep @ ''.'')
      else if 1 < count_char CHR '':'' dep
      then error_exit (path @ [slash] @ name @ '': Invalid dep '' @ dep @
             '', missing '' @ [quote1] @ '','' @ [quote1] @ '' between 2 deps?'')
      else Inr ())"

definition check_deps_in_build_file :: "string \<Rightarrow> string \<Rightarrow> string list \<Rightarrow> unit res" where
  "check_deps_in_build_file path name ds =
     fold_res (\<lambda>d _. check_dep path name d) ds ()"

text \<open>The attributes that \<open>Target.__init__\<close> sets before it runs the checks\<close>

definition new_target :: "target_class \<Rightarrow> string \<Rightarrow> string \<Rightarrow> string \<Rightarrow> string list \<Rightarrow> target" where
  "new_target cls path name ttype ss = \<lparr>
     t_class = cls, t_key = (path, name), t_fullname = colon_name (path, name), t_name = name,
     t_path = path, t_type = ttype, t_srcs = ss, t_deps = [], t_expanded_deps = [],
     t_data = empty_data, t_rules = [], t_var_name = None, t_file_and_link = None\<rparr>"

definition init_checks ::
  "string \<Rightarrow> string \<Rightarrow> string list \<Rightarrow> string list \<Rightarrow> (string, pyval) dict \<Rightarrow> blade \<Rightarrow> blade res" where
  "init_checks name ttype ss ds kwargs b =
     (let path = b_current_source_path b in
      bind_res (check_name path name) (\<lambda>_.
      bind_res (check_srcs ttype path name ss (check_kwargs path name kwargs b)) (\<lambda>b'.
      bind_res (check_deps_in_build_file path name ds) (\<lambda>_. Inr b'))))"

text \<open>
  \<open>SystemLibrary(name, blade)\<close>: the base constructor with no sources and no dependencies,
  whose dependency loop does nothing, then another key and path.
\<close>

definition system_library :: "string \<Rightarrow> blade \<Rightarrow> (target \<times> blade) res" where
  "system_library dep b =
     (let name = drop 1 dep in
      bind_res (init_checks name ''system_library'' [] [] [] b) (\<lambda>b'.
      Inr ((new_target SystemLibrary (b_current_source_path b) name ''system_library'' [])
             \<lparr>t_key := (''#'', name), t_fullname := colon_name (''#'', name), t_path := ''#''\<rparr>,
           b')))"

definition add_system_library :: "tkey \<Rightarrow> string \<Rightarrow> blade \<Rightarrow> blade res" where
  "add_system_library k name b =
     (if k \<notin> set (keys (b_database b))
      then bind_res (system_library name b) (\<lambda>(lib, b'). register_target lib b')
      else Inr b)"

section \<open>Dependency strings\<close>

definition wrong_format :: "string \<Rightarrow> string \<Rightarrow> py_error" where
  "wrong_format path name = PyException (''Wrong format in '' @ path @ '':'' @ name)"

text \<open>\<open>(path, lib) = d.rsplit(':', 1)\<close>\<close>

definition rsplit_pair :: "string \<Rightarrow> tkey res" where
  "rsplit_pair d =
     (case rsplit_char1 CHR '':'' d of
        [p, l] \<Rightarrow> Inr (p, l)
      | _ \<Rightarrow> Inl ValueError)"

text \<open>The key of one dependency; the system libraries are the keys whose path is \<open>#\<close>.\<close>

definition dep_key :: "string \<Rightarrow> string \<Rightarrow> string \<Rightarrow> tkey res" where
  "dep_key path name d =
     (case d of
        [] \<Rightarrow> Inl IndexError
      | c # _ \<Rightarrow>
          if c = CHR '':'' then Inr (normpath path, drop 1 d)
          else if startswith d ''//'' then
            (if CHR '':'' \<notin> set d then Inl (wrong_format path name)
             else bind_res (rsplit_pair (drop 2 d)) (\<lambda>(p, lib). Inr (normpath p, lib)))
          else if startswith d ''#'' then Inr (''#'', drop 1 d)
          else
            (if CHR '':'' \<notin> set d then Inl (wrong_format path name)
             else bind_res (rsplit_pair d) (\<lambda>(p, lib).
               if has_sub ''..'' p then Inl (PyException (''Don'' @ [quote1] @ ''t use '' @
                   [quote1] @ ''..'' @ [quote1] @ '' in path''))
               else Inr (normpath (path @ [slash] @ p), lib))))"

text \<open>One round of \<open>_init_target_deps\<close>, on the target under construction and the manager\<close>

definition init_dep :: "string \<Rightarrow> target \<times> blade \<Rightarrow> (target \<times> blade) res" where
  "init_dep d tb =
     (case tb of (t, b) \<Rightarrow>
      bind_res (dep_key (t_path t) (t_name t) d) (\<lambda>dkey.
      bind_res (if \<not> startswith d '':'' \<and> \<not> startswith d ''//'' \<and> startswith d ''#''
                then add_system_library dkey d b else Inr b) (\<lambda>b'.
      Inr (t\<lparr>t_expanded_deps := add_new dkey (t_expanded_deps t),
             t_deps := add_new dkey (t_deps t)\<rparr>, b'))))"

definition init_target_deps :: "string list \<Rightarrow> target \<times> blade \<Rightarrow> (target \<times> blade) res" where
  "init_target_deps ds tb = fold_res init_dep ds tb"

text \<open>\<open>Target.__init__\<close>\<close>

definition target_init ::
  "target_class \<Rightarrow> string \<Rightarrow> string \<Rightarrow> string list \<Rightarrow> string list \<Rightarrow> (string, pyval) dict \<Rightarrow>
   blade \<Rightarrow> (target \<times> blade) res" where
  "target_init cls name ttype ss ds kwargs b =
     bind_res (init_checks name ttype ss ds kwargs b) (\<lambda>b'.
     init_target_deps ds (new_target cls (b_current_source_path b) name ttype ss, b'))"

text \<open>\<open>_convert_string_to_target_helper\<close>: \<open>#lib\<close> or \<open>path:lib\<close>\<close>

definition convert_string_to_target :: "string \<Rightarrow> tkey res" where
  "convert_string_to_target s =
     (if s \<noteq> [] \<and> startswith s ''#'' then Inr (''#'', drop 1 s)
      else if s \<noteq> [] \<and> CHR '':'' \<in> set s then
        (case split_char CHR '':'' s of
           [path, name] \<Rightarrow>
             let path = strip_ws path;
                 path = (if startswith path ''//'' then drop 2 path else path)
             in Inr (path, strip_ws name)
         | _ \<Rightarrow> Inl ValueError)
      else error_exit (''invalid target lib format: '' @ s @
             '', should be #lib_name or lib_path:lib_name''))"

text \<open>One round of \<open>_add_hardcode_library\<close>; only \<open>expanded_deps\<close> grows.\<close>

definition add_hardcode_dep :: "string \<Rightarrow> target \<times> blade \<Rightarrow> (target \<times> blade) res" where
  "add_hardcode_dep dep tb =
     (case tb of (t, b) \<Rightarrow>
      bind_res (convert_string_to_target dep) (\<lambda>dkey.
      bind_res (if fst dkey = ''#''
                then add_system_library dkey dep b else Inr b) (\<lambda>b'.
      Inr (t\<lparr>t_expanded_deps := add_new dkey (t_expanded_deps t)\<rparr>, b'))))"

definition add_hardcode_library :: "string list \<Rightarrow> target \<times> blade \<Rightarrow> (target \<times> blade) res" where
  "add_hardcode_library ds tb = fold_res add_hardcode_dep ds tb"

section \<open>Names in the generated script\<close>

definition regular_char :: "char \<Rightarrow> char" where
  "regular_char c = (if c \<in> set '',-/.+*'' then CHR ''_'' else c)"

definition regular_variable_name :: "string \<Rightarrow> string" where
  "regular_variable_name v = map regular_char v"

definition generate_variable_name :: "string \<Rightarrow> string \<Rightarrow> string \<Rightarrow> string" where
  "generate_variable_name path name suffix =
     (let suffix_str = (if suffix \<noteq> [] then ''_suFFix_'' @ suffix else [])
      in ''v_'' @ regular_variable_name path @ ''_mAgIc_'' @ regular_variable_name name @ suffix_str)"

definition env_name :: "target \<Rightarrow> string" where
  "env_name t = ''env_'' @ generate_variable_name (t_path t) (t_name t) []"

definition fill_path_name :: "target \<Rightarrow> string \<Rightarrow> string \<Rightarrow> string \<times> string" where
  "fill_path_name t path name =
     (if path = [] then t_path t else path, if name = [] then t_name t else name)"

definition target_file_path :: "string \<Rightarrow> target \<Rightarrow> string \<Rightarrow> string \<Rightarrow> string" where
  "target_file_path build_path t path name =
     (case fill_path_name t path name of (p, n) \<Rightarrow> path_joins build_path [p, n])"

section \<open>The rule buffer\<close>

definition write_rule :: "string \<Rightarrow> target \<Rightarrow> target" where
  "write_rule r t = t\<lparr>t_rules := t_rules t @ [r @ newline]\<rparr>"

definition get_rules :: "target \<Rightarrow> string list" where
  "get_rules t = t_rules t"

definition clone_env :: "target \<Rightarrow> target" where
  "clone_env t = write_rule (env_name t @ '' = top_env.Clone()'') t"

text \<open>
  \<open>_generate_target_explict_dependency\<close> for the dictionary \<open>bt\<close> of build targets. The
  variable name of a \<open>gen_rule\<close> target exists once its own rules have been generated.
\<close>

definition explict_dep :: "targets \<Rightarrow> string \<Rightarrow> tkey \<Rightarrow> target \<Rightarrow> target res" where
  "explict_dep bt files_str d t =
     bind_res (dict_index bt d) (\<lambda>dep_target.
     if t_type dep_target = ''gen_rule'' then
       (case t_var_name dep_target of
          None \<Rightarrow> Inl AttributeError
        | Some srcs_list \<Rightarrow>
            Inr (if srcs_list \<noteq> []
                 then write_rule (env_name t @ ''.Depends(['' @ files_str @ ''], ['' @
                        srcs_list @ ''])'') t
                 else t))
     else Inr t)"

definition generate_target_explict_dependency :: "targets \<Rightarrow> string list \<Rightarrow> target \<Rightarrow> target res" where
  "generate_target_explict_dependency bt target_files t =
     (if target_files = [] then Inr t
      else fold_res (explict_dep bt (join_str '','' target_files)) (t_expanded_deps t) t)"

end
