(* ===== verification/Config.thy ===== *)
theory Config
  imports BladeState
begin

text \<open>
  \<open>configparse.py\<close>: the configuration sections, the functions a configuration file calls and
  the parsing of the three files.

  A configuration file is a Python script; the model runs the sequence of section functions
  it calls, with their arguments evaluated. Values are compared and copied as values: two
  items that a script sets to one list object are not linked. The text of the set of legal
  heap check values, whose order is the interpreter's, and the text of a traceback are
  arguments.
\<close>

section \<open>The sections and their defaults\<close>

definition default_configs :: configs where
  "default_configs =
     [(''global_config'', [(''build_path_template'', PStr ''build${m}_${profile}'')]),
      (''cc_test_config'',
        [(''dynamic_link'', PBool False), (''heap_check'', PStr []),
         (''gperftools_libs'', PList []), (''gperftools_debug_libs'', PList []),
         (''gtest_libs'', PList []), (''gtest_main_libs'', PList [])]),
      (''cc_binary_config'', [(''extra_libs'', PList [])]),
      (''distcc_config'', [(''enabled'', PBool False)]),
      (''link_config'', [(''link_on_tmp'', PBool False), (''enable_dccc'', PBool False)]),
      (''java_config'', [(''source_version'', PStr []), (''target_version'', PStr [])]),
      (''thrift_config'',
        [(''thrift'', PStr ''thrift''), (''thrift_libs'', PList []), (''thrift_incs'', PList [])]),
      (''proto_library_config'',
        [(''protoc'', PStr ''thirdparty/protobuf/bin/protoc''), (''protobuf_libs'', PList []),
         (''protobuf_path'', PStr []), (''protobuf_incs'', PList []),
         (''protobuf_php_path'', PStr []), (''protoc_php_plugin'', PStr [])]),
      (''cc_config'',
        [(''extra_incs'', PList []), (''cppflags'', PList []), (''cflags'', PList []),
         (''cxxflags'', PList []), (''linkflags'', PList []), (''c_warnings'', PList []),
         (''cxx_warnings'', PList []), (''warnings'', PList []),
         (''cpplint'', PStr ''cpplint.py''), (''optimize'', PList []),
         (''benchmark_libs'', PList []), (''benchmark_main_libs'', PList []),
         (''mapreduce_libs'', PList [])])]"

record conf =
  c_configs :: configs
  c_file_name :: string
  c_console :: "msg list"

definition new_conf :: conf where
  "new_conf = \<lparr>c_configs = default_configs, c_file_name = [], c_console = []\<rparr>"

definition c_warn :: "string \<Rightarrow> conf \<Rightarrow> conf" where
  "c_warn m c = c\<lparr>c_console := c_console c @ [Warning m]\<rparr>"

definition c_error :: "string \<Rightarrow> conf \<Rightarrow> conf" where
  "c_error m c = c\<lparr>c_console := c_console c @ [Error m]\<rparr>"

text \<open>The argument \<open>append\<close>: absent, a dictionary, or a value of another type\<close>

datatype append_arg = NoAppend | AppendDict "(string, pyval) dict" | AppendOther pyval

fun append_truthy :: "append_arg \<Rightarrow> bool" where
  "append_truthy NoAppend = False"
| "append_truthy (AppendDict d) = (d \<noteq> [])"
| "append_truthy (AppendOther v) = truthy v"

section \<open>Updating a section\<close>

definition config_message :: "conf \<Rightarrow> string \<Rightarrow> string \<Rightarrow> string" where
  "config_message c sec m = c_file_name c @ '': '' @ sec @ '': '' @ m"

definition append_item :: "string \<Rightarrow> string \<times> pyval \<Rightarrow> section_items \<times> conf \<Rightarrow> section_items \<times> conf" where
  "append_item sec kv st =
     (case st of (config, c) \<Rightarrow>
      case map_of config (fst kv) of
        None \<Rightarrow> (config, c_warn (config_message c sec (''unknown config item name: '' @ fst kv)) c)
      | Some (PList vs) \<Rightarrow> (dict_set (fst kv) (PList (vs @ var_to_list (snd kv))) config, c)
      | Some _ \<Rightarrow>
          (config, c_warn (config_message c sec (''config item '' @ fst kv @ '' is not a list'')) c))"

definition append_config :: "string \<Rightarrow> append_arg \<Rightarrow> section_items \<times> conf \<Rightarrow> section_items \<times> conf" where
  "append_config sec app st =
     (case app of
        AppendDict d \<Rightarrow> fold (append_item sec) d st
      | _ \<Rightarrow> (fst st, c_error (config_message (snd st) sec ''append must be a dict'') (snd st)))"

text \<open>
  The loop of \<open>_replace_config\<close>. Deleting from the dictionary it iterates over makes the
  interpreter raise when the loop asks for the next key, also after the last one.
\<close>

definition replace_value :: "pyval \<Rightarrow> pyval \<Rightarrow> pyval" where
  "replace_value old new = (if is_list_val old then PList (var_to_list new) else new)"

fun check_items ::
  "string \<Rightarrow> section_items \<Rightarrow> (string, pyval) dict \<Rightarrow> conf \<Rightarrow> (string, pyval) dict res" where
  "check_items sec config [] c = Inr []"
| "check_items sec config ((k, v) # kvs) c =
     (case map_of config k of
        None \<Rightarrow> Inl RuntimeError
      | Some old \<Rightarrow>
          bind_res (check_items sec config kvs c) (\<lambda>rest. Inr ((k, replace_value old v) # rest)))"

definition dict_update :: "('k, 'v) dict \<Rightarrow> ('k, 'v) dict \<Rightarrow> ('k, 'v) dict" where
  "dict_update d new = fold (\<lambda>(k, v). dict_set k v) new d"

definition replace_config ::
  "string \<Rightarrow> (string, pyval) dict \<Rightarrow> section_items \<times> conf \<Rightarrow> (section_items \<times> conf) res" where
  "replace_config sec user st =
     (case st of (config, c) \<Rightarrow>
      bind_res (check_items sec config user c) (\<lambda>user'. Inr (dict_update config user', c)))"

definition update_config ::
  "string \<Rightarrow> append_arg \<Rightarrow> (string, pyval) dict \<Rightarrow> conf \<Rightarrow> conf res" where
  "update_config sec app user c =
     (let config = dict_get (c_configs c) sec [] in
      if config \<noteq> [] then
        bind_res (replace_config sec user
                    (if append_truthy app then append_config sec app (config, c) else (config, c)))
          (\<lambda>(config', c'). Inr (c'\<lparr>c_configs := dict_set sec config' (c_configs c')\<rparr>))
      else Inr (c_error (config_message c sec ''unknown config section name'') c))"

definition get_config :: "conf \<Rightarrow> string \<Rightarrow> section_items" where
  "get_config c sec = dict_get (c_configs c) sec []"

section \<open>The section functions\<close>

definition heap_check_values :: "string list" where
  "heap_check_values = [''minimal'', ''normal'', ''strict'', ''draconian'', ''as-is'', ''local'']"

fun hashable :: "pyval \<Rightarrow> bool" where
  "hashable (PList _) = False"
| "hashable (PTuple vs) = list_all hashable vs"
| "hashable _ = True"

text \<open>\<open>heap_check not in HEAP_CHECK_VALUES\<close>, which raises for a list\<close>

definition bad_heap_check :: "pyval \<Rightarrow> bool res" where
  "bad_heap_check v =
     (if \<not> hashable v then Inl TypeError
      else Inr (case v of PStr s \<Rightarrow> s \<notin> set heap_check_values | _ \<Rightarrow> True))"

definition cc_test_config ::
  "string \<Rightarrow> append_arg \<Rightarrow> (string, pyval) dict \<Rightarrow> conf \<Rightarrow> conf res" where
  "cc_test_config shown app kwargs c =
     (let heap_check = dict_get kwargs ''heap_check'' PNone in
      bind_res (if truthy heap_check then bad_heap_check heap_check else Inr False) (\<lambda>bad.
      if bad then error_exit (''cc_test_config: heap_check can only be in '' @ shown)
      else update_config ''cc_test_config'' app kwargs c))"

definition proto_library_config :: "append_arg \<Rightarrow> (string, pyval) dict \<Rightarrow> conf \<Rightarrow> conf res" where
  "proto_library_config app kwargs c =
     (let path = dict_get kwargs ''protobuf_include_path'' PNone in
      if truthy path then
        (let c' = c_warn (c_file_name c @ '': proto_library_config: protobuf_include_path has '' @
                          ''been renamed to protobuf_incs, and become a list'') c;
             kw = dict_del ''protobuf_include_path'' kwargs;
             incs = (case path of
                       PStr s \<Rightarrow> if CHR '' '' \<in> set s then PList (map PStr (split_ws s)) else PList [path]
                     | _ \<Rightarrow> PList [path])
         in update_config ''proto_library_config'' app (dict_set ''protobuf_incs'' incs kw) c')
      else update_config ''proto_library_config'' app kwargs c)"

definition cc_config :: "append_arg \<Rightarrow> (string, pyval) dict \<Rightarrow> conf \<Rightarrow> conf res" where
  "cc_config app kwargs c =
     (case map_of kwargs ''extra_incs'' of
        Some (PStr s) \<Rightarrow>
          if CHR '' '' \<in> set s
          then update_config ''cc_config'' app
                 (dict_set ''extra_incs'' (PList (map PStr (split_ws s))) kwargs)
                 (c_warn (c_file_name c @ '': cc_config: extra_incs has been changed to list'') c)
          else update_config ''cc_config'' app kwargs c
      | _ \<Rightarrow> update_config ''cc_config'' app kwargs c)"

text \<open>The functions a configuration file can call\<close>

datatype config_call =
    CcTestConfig | CcBinaryConfig | GlobalConfig | DistccConfig | LinkConfig | JavaConfig
  | ProtoLibraryConfig | ThriftLibraryConfig | CcConfig

definition run_config_call ::
  "string \<Rightarrow> config_call \<times> append_arg \<times> (string, pyval) dict \<Rightarrow> conf \<Rightarrow> conf res" where
  "run_config_call shown x c =
     (case x of (f, app, kwargs) \<Rightarrow>
      case f of
        CcTestConfig \<Rightarrow> cc_test_config shown app kwargs c
      | CcBinaryConfig \<Rightarrow> update_config ''cc_binary_config'' app kwargs c
      | GlobalConfig \<Rightarrow> update_config ''global_config'' app kwargs c
      | DistccConfig \<Rightarrow> update_config ''distcc_config'' app kwargs c
      | LinkConfig \<Rightarrow> update_config ''link_config'' app kwargs c
      | JavaConfig \<Rightarrow> update_config ''java_config'' app kwargs c
      | ProtoLibraryConfig \<Rightarrow> proto_library_config app kwargs c
      | ThriftLibraryConfig \<Rightarrow> update_config ''thrift_config'' app kwargs c
      | CcConfig \<Rightarrow> cc_config app kwargs c)"

type_synonym config_script = "(config_call \<times> append_arg \<times> (string, pyval) dict) list"

section \<open>Parsing the files\<close>

text \<open>\<open>files\<close> says which files exist and what they call.\<close>

definition try_parse_file ::
  "string \<Rightarrow> (py_error \<Rightarrow> string) \<Rightarrow> (string \<rightharpoonup> config_script) \<Rightarrow> string \<Rightarrow> conf \<Rightarrow> conf res" where
  "try_parse_file shown traceback files filename c =
     (let c1 = c\<lparr>c_file_name := filename\<rparr> in
      case files filename of
        None \<Rightarrow> Inr c1
      | Some script \<Rightarrow>
          (case fold_res (run_config_call shown) script c1 of
             Inr c2 \<Rightarrow> Inr c2
           | Inl e \<Rightarrow> error_exit (''Parse error in config file '' @ filename @ '', exit...'' @
               [CHR 0x0A] @ traceback e)))"

definition parse_config ::
  "string \<Rightarrow> (py_error \<Rightarrow> string) \<Rightarrow> (string \<rightharpoonup> config_script) \<Rightarrow>
   string \<Rightarrow> string \<Rightarrow> string \<Rightarrow> conf \<Rightarrow> conf res" where
  "parse_config shown traceback files argv0 rc_file source_dir c =
     fold_res (try_parse_file shown traceback files)
       [path_join (dirname argv0) ''blade.conf'', rc_file, path_join source_dir ''BLADE_ROOT''] c"

section \<open>The shape of the configuration\<close>

text \<open>
  Sections and items stay, and an item that is a list stays a list: the rest of the program
  indexes sections by item name and concatenates list items.
\<close>

definition list_at :: "section_items \<Rightarrow> string \<Rightarrow> bool" where
  "list_at d k = (case map_of d k of None \<Rightarrow> False | Some v \<Rightarrow> is_list_val v)"

definition items_shape :: "section_items \<Rightarrow> section_items \<Rightarrow> bool" where
  "items_shape d d' \<longleftrightarrow> keys d' = keys d \<and> (\<forall>k. list_at d k \<longrightarrow> list_at d' k)"

definition same_shape :: "configs \<Rightarrow> configs \<Rightarrow> bool" where
  "same_shape cfg cfg' \<longleftrightarrow> keys cfg' = keys cfg \<and>
     (\<forall>s. items_shape (dict_get cfg s []) (dict_get cfg' s []))"

lemma items_shape_refl [simp]: "items_shape d d"
  by (simp add: items_shape_def)

lemma items_shape_trans: "items_shape a b \<Longrightarrow> items_shape b c \<Longrightarrow> items_shape a c"
  by (simp add: items_shape_def)

lemma same_shape_refl [simp]: "same_shape c c"
  by (simp add: same_shape_def)

lemma same_shape_trans: "same_shape a b \<Longrightarrow> same_shape b c \<Longrightarrow> same_shape a c"
  unfolding same_shape_def by (auto intro: items_shape_trans)

lemma items_shape_dict_set:
  "k \<in> fst ` set d \<Longrightarrow> (list_at d k \<longrightarrow> is_list_val v) \<Longrightarrow> items_shape d (dict_set k v d)"
  by (simp add: items_shape_def keys_dict_set list_at_def)

lemma same_shape_dict_set:
  "map_of cfg s = Some d \<Longrightarrow> items_shape d d' \<Longrightarrow> same_shape cfg (dict_set s d' cfg)"
  using map_of_key [of cfg s d] by (auto simp: same_shape_def keys_dict_set dict_get_def)

lemma list_at_Some: "map_of d k = Some v \<Longrightarrow> list_at d k = is_list_val v"
  by (simp add: list_at_def)

lemma append_item_shape:
  "items_shape d (fst st) \<Longrightarrow>
     items_shape d (fst (append_item sec kv st)) \<and>
     c_configs (snd (append_item sec kv st)) = c_configs (snd st)"
proof -
  assume d: "items_shape d (fst st)"
  obtain config c where st: "st = (config, c)" by fastforce
  show ?thesis
  proof (cases "\<exists>vs. map_of config (fst kv) = Some (PList vs)")
    case True
    then obtain vs where vs: "map_of config (fst kv) = Some (PList vs)" ..
    then have "fst kv \<in> fst ` set config" by (rule map_of_key)
    then have "items_shape config (dict_set (fst kv) (PList (vs @ var_to_list (snd kv))) config)"
      by (rule items_shape_dict_set) simp
    with d vs show ?thesis using items_shape_trans by (auto simp: st append_item_def)
  next
    case False
    with d show ?thesis
      by (auto simp: st append_item_def c_warn_def split: option.splits pyval.splits)
  qed
qed

lemma append_items_shape:
  "items_shape d (fst st) \<Longrightarrow>
     items_shape d (fst (fold (append_item sec) kvs st)) \<and>
     c_configs (snd (fold (append_item sec) kvs st)) = c_configs (snd st)"
proof (induction kvs arbitrary: st)
  case (Cons kv kvs)
  then show ?case using append_item_shape [OF Cons.prems, of sec kv] by simp
qed simp

lemma append_config_shape:
  "items_shape config (fst (append_config sec app (config, c))) \<and>
   c_configs (snd (append_config sec app (config, c))) = c_configs c"
  using append_items_shape [of config "(config, c)" sec]
  by (auto simp: append_config_def c_error_def split: append_arg.splits)

lemma check_items_Inr:
  "check_items sec config user c = Inr user' \<longleftrightarrow>
     (\<forall>kv \<in> set user. fst kv \<in> fst ` set config) \<and>
     user' = map (\<lambda>(k, v). (k, replace_value (the (map_of config k)) v)) user"
proof (induction user arbitrary: user')
  case (Cons kv user)
  obtain k v where kv: "kv = (k, v)" by fastforce
  show ?case
    using Cons map_of_None_iff [of config k]
    by (cases "map_of config k") (auto simp: kv bind_res_eq_Inr)
qed auto

lemma check_items_Inl:
  "check_items sec config user c = Inl e \<longleftrightarrow>
     e = RuntimeError \<and> \<not> (\<forall>kv \<in> set user. fst kv \<in> fst ` set config)"
proof (induction user)
  case (Cons kv user)
  obtain k v where kv: "kv = (k, v)" by fastforce
  show ?case
  proof (cases "map_of config k")
    case None
    then have "k \<notin> fst ` set config" by (metis map_of_None_iff)
    with None show ?thesis by (simp add: kv) blast
  next
    case (Some old)
    then have "k \<in> fst ` set config" by (rule map_of_key)
    with Some Cons show ?thesis by (auto simp: kv bind_res_eq_Inl)
  qed
qed simp

lemma dict_update_shape:
  "items_shape config d \<Longrightarrow>
     \<forall>kv \<in> set new. fst kv \<in> fst ` set config \<and> (list_at config (fst kv) \<longrightarrow> is_list_val (snd kv)) \<Longrightarrow>
     items_shape config (dict_update d new)"
proof (induction new arbitrary: d)
  case (Cons kv new)
  obtain k v where kv: "kv = (k, v)" by fastforce
  have "fst ` set d = fst ` set config"
    using Cons.prems(1) unfolding items_shape_def by (metis set_map)
  then have "items_shape config (dict_set k v d)"
    using Cons.prems by (simp add: items_shape_def keys_dict_set list_at_def kv)
  from Cons.IH [OF this] Cons.prems(2) show ?case
    unfolding dict_update_def kv fold_simps prod.case by (metis list.set_intros(2))
qed (simp add: dict_update_def)

lemma update_config_shape:
  assumes "update_config sec app user c = Inr c'"
  shows "same_shape (c_configs c) (c_configs c')"
proof (cases "map_of (c_configs c) sec")
  case None
  then show ?thesis using assms by (auto simp: update_config_def dict_get_def c_error_def)
next
  case (Some config)
  show ?thesis
  proof (cases "config = []")
    case True
    then show ?thesis using assms Some by (auto simp: update_config_def dict_get_def c_error_def)
  next
    case False
    define st where "st = (if append_truthy app then append_config sec app (config, c) else (config, c))"
    have st: "items_shape config (fst st)" "c_configs (snd st) = c_configs c"
      using append_config_shape [of config sec app c] by (auto simp: st_def)
    from assms Some False obtain user' where
      chk: "check_items sec (fst st) user (snd st) = Inr user'"
      and c': "c' = (snd st)\<lparr>c_configs := dict_set sec (dict_update (fst st) user') (c_configs (snd st))\<rparr>"
      by (auto simp: update_config_def dict_get_def st_def [symmetric] replace_config_def bind_res_eq_Inr
          split: prod.splits)
    have "items_shape (fst st) (dict_update (fst st) user')"
    proof (rule dict_update_shape [OF items_shape_refl], intro ballI conjI impI)
      fix kv assume kv: "kv \<in> set user'"
      obtain k v where kv': "kv = (k, v)" by fastforce
      from kv chk obtain v0 where v0: "(k, v0) \<in> set user" "v = replace_value (the (map_of (fst st) k)) v0"
        by (auto simp: check_items_Inr kv')
      then show "fst kv \<in> fst ` set (fst st)" using chk by (force simp: check_items_Inr kv')
      assume "list_at (fst st) (fst kv)"
      then show "is_list_val (snd kv)"
        by (simp add: kv' v0(2) list_at_def replace_value_def split: option.splits)
    qed
    then have "items_shape config (dict_update (fst st) user')" by (rule items_shape_trans [OF st(1)])
    then show ?thesis using same_shape_dict_set [OF Some] by (simp add: c' st(2))
  qed
qed

lemma run_config_call_shape:
  "run_config_call shown x c = Inr c' \<Longrightarrow> same_shape (c_configs c) (c_configs c')"
  by (cases x, cases "fst x")
    (auto simp: run_config_call_def cc_test_config_def proto_library_config_def cc_config_def
      bind_res_eq_Inr Let_def c_warn_def split: if_splits option.splits pyval.splits
      dest!: update_config_shape)

lemma try_parse_file_shape:
  "try_parse_file shown tb files filename c = Inr c' \<Longrightarrow> same_shape (c_configs c) (c_configs c')"
proof (cases "files filename")
  case (Some script)
  assume "try_parse_file shown tb files filename c = Inr c'"
  then have "fold_res (run_config_call shown) script (c\<lparr>c_file_name := filename\<rparr>) = Inr c'"
    using Some by (auto simp: try_parse_file_def Let_def split: sum.splits)
  then show ?thesis
    by (rule fold_res_invariant [where P = "\<lambda>d. same_shape (c_configs c) (c_configs d)", rotated 2])
      (auto intro: same_shape_trans run_config_call_shape)
qed (auto simp: try_parse_file_def Let_def)

section \<open>Lookup after an update\<close>

text \<open>The value of an item after one update: replaced, extended, or what it was.\<close>

fun extend_value :: "pyval \<Rightarrow> pyval option \<Rightarrow> pyval" where
  "extend_value (PList vs) (Some v) = PList (vs @ var_to_list v)"
| "extend_value old _ = old"

definition updated_item ::
  "append_arg \<Rightarrow> (string, pyval) dict \<Rightarrow> string \<Rightarrow> pyval \<Rightarrow> pyval" where
  "updated_item app user k old =
     (case map_of user k of
        Some v \<Rightarrow> replace_value old v
      | None \<Rightarrow> (case app of AppendDict d \<Rightarrow> extend_value old (map_of d k) | _ \<Rightarrow> old))"

lemma extend_value_None [simp]: "extend_value old None = old"
  by (cases old) auto

lemma is_list_extend [simp]: "is_list_val (extend_value old x) = is_list_val old"
  by (cases "(old, x)" rule: extend_value.cases) auto

lemma map_of_append_item:
  "map_of (fst (append_item sec (j, v) (config, c))) k =
     (if k = j then map_option (\<lambda>old. extend_value old (Some v)) (map_of config k) else map_of config k)"
  by (auto simp: append_item_def split: option.splits pyval.splits)

lemma map_of_append_items:
  "distinct (keys kvs) \<Longrightarrow>
     map_of (fst (fold (append_item sec) kvs (config, c))) k =
       map_option (\<lambda>old. extend_value old (map_of kvs k)) (map_of config k)"
proof (induction kvs arbitrary: config c)
  case Nil
  then show ?case by (simp add: option.map_ident)
next
  case (Cons kv kvs)
  obtain j v where kv: "kv = (j, v)" by fastforce
  obtain config' c' where step: "append_item sec (j, v) (config, c) = (config', c')" by fastforce
  have d: "distinct (keys kvs)" and j: "map_of kvs j = None"
    using Cons.prems by (simp_all add: kv map_of_None_iff)
  have "map_of config' k = (if k = j then map_option (\<lambda>old. extend_value old (Some v)) (map_of config k)
      else map_of config k)"
    using map_of_append_item [of sec j v config c k] by (simp add: step)
  then show ?case
    using Cons.IH [OF d, of config' c'] j by (simp add: kv step option.map_comp o_def)
qed

lemma map_of_dict_update:
  "distinct (keys new) \<Longrightarrow>
     map_of (dict_update d new) k = (case map_of new k of Some v \<Rightarrow> Some v | None \<Rightarrow> map_of d k)"
proof (induction new arbitrary: d)
  case (Cons kv new)
  obtain j v where kv: "kv = (j, v)" by fastforce
  have "distinct (keys new)" and j: "map_of new j = None"
    using Cons.prems by (simp_all add: kv map_of_None_iff)
  then show ?case
    using Cons.IH [of "dict_set j v d"] by (auto simp: dict_update_def kv split: option.splits)
qed (simp add: dict_update_def)

lemma map_of_append_config:
  assumes "\<forall>d. app = AppendDict d \<longrightarrow> distinct (keys d)"
  shows "map_of (fst (append_config sec app (config, c))) k =
    map_option (updated_item app [] k) (map_of config k)"
  using assms map_of_append_items [of _ sec config c k]
  by (cases app; cases "map_of config k") (auto simp: append_config_def updated_item_def)

lemma update_config_lookup:
  assumes cfg: "map_of (c_configs c) sec = Some config" "config \<noteq> []"
    and user: "distinct (keys user)" "set (keys user) \<subseteq> set (keys config)"
    and app: "\<forall>d. app = AppendDict d \<longrightarrow> distinct (keys d)"
  shows "\<exists>c'. update_config sec app user c = Inr c' \<and>
    get_config c' s = (if s = sec then get_config c' sec else get_config c s) \<and>
    (\<forall>k. map_of (get_config c' sec) k = map_option (updated_item app user k) (map_of config k))"
proof -
  define st where "st = (if append_truthy app then append_config sec app (config, c) else (config, c))"
  have st: "items_shape config (fst st)" "c_configs (snd st) = c_configs c"
    using append_config_shape [of config sec app c] by (auto simp: st_def)
  have look: "map_of (fst st) k = map_option (updated_item app [] k) (map_of config k)" for k
  proof (cases "append_truthy app")
    case True
    then show ?thesis using map_of_append_config [OF app] by (simp add: st_def)
  next
    case False
    then have "updated_item app [] k old = old" for old
      by (cases app) (auto simp: updated_item_def)
    with False show ?thesis by (cases "map_of config k") (simp_all add: st_def)
  qed
  have dom: "fst ` set (fst st) = fst ` set config"
    using st(1) unfolding items_shape_def by (metis set_map)
  define user' where "user' = map (\<lambda>(k, v). (k, replace_value (the (map_of (fst st) k)) v)) user"
  have chk: "check_items sec (fst st) user (snd st) = Inr user'"
    unfolding check_items_Inr dom user'_def using user(2) by auto
  have ku: "keys user' = keys user" by (auto simp: user'_def)
  have "map_of user' k = map_option (replace_value (the (map_of (fst st) k))) (map_of user k)" for k
    unfolding user'_def by (induction user) auto
  then have upd: "map_of (dict_update (fst st) user') k = map_option (updated_item app user k) (map_of config k)" for k
  proof (cases "map_of user k")
    case (Some v)
    then have "k \<in> fst ` set config" using user(2) map_of_key [OF Some] by auto
    then obtain old where old: "map_of config k = Some old" using map_of_in_keys by fastforce
    have "is_list_val (updated_item app [] k old) = is_list_val old"
      by (cases app) (auto simp: updated_item_def)
    then have "replace_value (updated_item app [] k old) v = replace_value old v"
      by (simp add: replace_value_def)
    then show ?thesis
      using \<open>\<And>k. map_of user' k = _ k\<close> Some old
      by (simp add: map_of_dict_update ku user(1) look updated_item_def [of app user])
  next
    case None
    then show ?thesis
      using \<open>\<And>k. map_of user' k = _ k\<close>
      by (cases "map_of config k") (simp_all add: map_of_dict_update ku user(1) look updated_item_def [of app user]
          updated_item_def [of app "[]"])
  qed
  have run: "update_config sec app user c =
      Inr ((snd st)\<lparr>c_configs := dict_set sec (dict_update (fst st) user') (c_configs c)\<rparr>)"
    using cfg chk st(2) by (simp add: update_config_def dict_get_def st_def [symmetric] replace_config_def
        case_prod_beta)
  show ?thesis unfolding run by (simp add: get_config_def dict_get_def upd)
qed

lemma update_config_error:
  "update_config sec app user c = Inl e \<longleftrightarrow>
     e = RuntimeError \<and> get_config c sec \<noteq> [] \<and>
     \<not> set (keys user) \<subseteq> set (keys (get_config c sec))"
proof (cases "get_config c sec = []")
  case True
  then show ?thesis by (simp add: update_config_def get_config_def)
next
  case False
  let ?config = "get_config c sec"
  define st where "st = (if append_truthy app then append_config sec app (?config, c) else (?config, c))"
  have "items_shape ?config (fst st)"
    using append_config_shape [of ?config sec app c] by (auto simp: st_def)
  then have dom: "fst ` set (fst st) = fst ` set ?config"
    unfolding items_shape_def by (metis set_map)
  have "update_config sec app user c = Inl e \<longleftrightarrow> check_items sec (fst st) user (snd st) = Inl e"
    using False by (auto simp: update_config_def get_config_def [symmetric] st_def [symmetric]
        replace_config_def bind_res_eq_Inl case_prod_beta)
  then show ?thesis using False unfolding check_items_Inl dom by auto
qed

section \<open>Properties\<close>

text \<open>C14: Parsing the configuration files keeps every section and every item of the
  defaults, adds none, and leaves every item that is a list a list, whatever the files set
  or append.\<close>

theorem parse_config_shape:
  assumes "parse_config shown tb files argv0 rc dir new_conf = Inr c"
  shows "same_shape default_configs (c_configs c)"
proof -
  have "same_shape (c_configs new_conf) (c_configs c)"
    by (rule fold_res_invariant [where P = "\<lambda>d. same_shape (c_configs new_conf) (c_configs d)",
          OF _ _ assms [unfolded parse_config_def]])
      (auto intro: same_shape_trans try_parse_file_shape)
  then show ?thesis by (simp add: new_conf_def)
qed

definition demo_files :: "string \<rightharpoonup> config_script" where
  "demo_files = [''/src/BLADE_ROOT'' \<mapsto>
     [(CcConfig, AppendDict [(''cppflags'', PStr ''-g'')],
        [(''extra_incs'', PStr ''thirdparty include''), (''optimize'', PStr ''O2'')])]]"

theorem parse_config_shape_witness:
  "\<exists>c. parse_config [] (\<lambda>_. []) demo_files ''/bin/blade'' ''/root/.bladerc'' ''/src'' new_conf = Inr c \<and>
     same_shape default_configs (c_configs c) \<and>
     config_item (c_configs c) ''cc_config'' ''optimize'' = Inr (PList [PStr ''O2''])"
proof -
  let ?run = "parse_config [] (\<lambda>_. []) demo_files ''/bin/blade'' ''/root/.bladerc'' ''/src'' new_conf"
  have "case ?run of Inl _ \<Rightarrow> False
      | Inr c \<Rightarrow> config_item (c_configs c) ''cc_config'' ''optimize'' = Inr (PList [PStr ''O2''])"
    by code_simp
  then obtain c where "?run = Inr c"
      "config_item (c_configs c) ''cc_config'' ''optimize'' = Inr (PList [PStr ''O2''])"
    by (auto split: sum.splits)
  with parse_config_shape show ?thesis by blast
qed

text \<open>C12: An update whose items are all known succeeds, leaves the other sections alone, and
  gives each item of its section the new value where one is set (as a list where the item is
  one), else its old value extended by what \<open>append\<close> holds for it.\<close>

theorem update_config_result:
  assumes "get_config c sec \<noteq> []" and "distinct (keys user)"
    and "set (keys user) \<subseteq> set (keys (get_config c sec))"
    and "\<forall>d. app = AppendDict d \<longrightarrow> distinct (keys d)"
  shows "\<exists>c'. update_config sec app user c = Inr c' \<and>
    (\<forall>s. s \<noteq> sec \<longrightarrow> get_config c' s = get_config c s) \<and>
    (\<forall>k. map_of (get_config c' sec) k =
       map_option (updated_item app user k) (map_of (get_config c sec) k))"
proof -
  have cfg: "map_of (c_configs c) sec = Some (get_config c sec)"
    using assms(1) by (auto simp: get_config_def dict_get_def split: option.splits)
  have run: "is_ok (update_config sec app user c)"
    using update_config_lookup [OF cfg assms, of undefined] by (auto simp: is_ok_iff)
  then obtain c' where c': "update_config sec app user c = Inr c'" by (auto simp: is_ok_iff)
  then have "get_config c' s = (if s = sec then get_config c' sec else get_config c s)"
    and "\<forall>k. map_of (get_config c' sec) k =
       map_option (updated_item app user k) (map_of (get_config c sec) k)" for s
    using update_config_lookup [OF cfg assms, of s] by auto
  with c' show ?thesis by metis
qed

theorem update_config_result_witness:
  "\<exists>c'. update_config ''cc_config'' (AppendDict [(''cppflags'', PStr ''-g'')])
       [(''optimize'', PStr ''O2'')] new_conf = Inr c' \<and>
     map_of (get_config c' ''cc_config'') ''cppflags'' = Some (PList [PStr ''-g''])"
proof -
  let ?app = "AppendDict [(''cppflags'', PStr ''-g'')]"
  have ne: "get_config new_conf ''cc_config'' \<noteq> []" by code_simp
  have sub: "set (keys [(''optimize'', PStr ''O2'')]) \<subseteq> set (keys (get_config new_conf ''cc_config''))"
    by code_simp
  have old: "map_of (get_config new_conf ''cc_config'') ''cppflags'' = Some (PList [])" by code_simp
  show ?thesis
    using update_config_result [OF ne _ sub, of ?app] old by (fastforce simp: updated_item_def)
qed

text \<open>C13: An update fails exactly when the section exists and the update names an item the
  section does not have, and then with the interpreter's \<open>RuntimeError\<close>: the branch that
  means to warn about the item and drop it deletes from the dictionary under iteration.\<close>

theorem update_config_fails_iff:
  "(update_config sec app user c = Inl e) =
     (e = RuntimeError \<and> get_config c sec \<noteq> [] \<and>
      \<not> set (keys user) \<subseteq> set (keys (get_config c sec)))"
  by (rule update_config_error)

end
