(* ===== verification/CcTargets.thy ===== *)
theory CcTargets
  imports TargetBase Config
begin

text \<open>
  \<open>cc_targets.py\<close>: the constructors of the C++ targets, the BUILD functions that create and
  register them, and their \<open>scons_rules\<close>.

  A BUILD function takes its keyword arguments as a record \<open>cc_args\<close>; \<open>cc_defaults\<close> holds the
  defaults of the signatures. Flags are their truth value; list-valued options are \<open>arg\<close>, a
  string or a list. Configuration items that the code concatenates are lists.

  \<open>scons_rules\<close> reads the manager through a context \<open>ctx\<close> and returns the target with its
  rule buffer extended, beside the warnings it printed. What comes from outside is a field of the context: the
  version of gcc and the java include paths of the platform, \<open>os.path.realpath\<close>, the current
  directory, the order in which the interpreter lists a set, which paths exist, and the lines
  of the files the code reads.
\<close>

section \<open>The context of rule generation\<close>

record ctx =
  x_database :: targets
  x_build :: targets
  x_direct :: "tkey list"
  x_options :: options
  x_build_path :: string
  x_config :: configs
  x_gcc_version :: string
  x_realpath :: "string \<Rightarrow> string"
  x_cwd :: string
  x_set_order :: "(string \<times> string \<times> string) list \<Rightarrow> (string \<times> string \<times> string) list"
  x_java_include :: "string list"
  x_root_dir :: string
  x_exists :: "string \<Rightarrow> bool"
  x_lines :: "string \<Rightarrow> string list option"

type_synonym emit = "target \<Rightarrow> target res"

definition dq :: "string \<Rightarrow> string" where "dq s = quote2 # s @ [quote2]"
definition sq :: "string \<Rightarrow> string" where "sq s = quote1 # s @ [quote1]"

definition x_data :: "targets \<Rightarrow> tkey \<Rightarrow> tdata res" where
  "x_data ts k = bind_res (dict_index ts k) (\<lambda>t. Inr (t_data t))"

section \<open>Arguments of the BUILD functions\<close>

record cc_args =
  a_name :: string
  a_srcs :: arg
  a_deps :: arg
  a_warning :: string
  a_defs :: arg
  a_incs :: arg
  a_export_incs :: arg
  a_optimize :: arg
  a_always_optimize :: bool
  a_pre_build :: bool
  a_prebuilt :: bool
  a_link_all_symbols :: bool
  a_deprecated :: bool
  a_extra_cppflags :: arg
  a_extra_linkflags :: arg
  a_dynamic_link :: "bool option"
  a_export_dynamic :: bool
  a_testdata :: "testdata_item list"
  a_always_run :: bool
  a_exclusive :: bool
  a_heap_check :: "string option"
  a_heap_check_debug :: bool
  a_kwargs :: "(string, pyval) dict"

definition cc_defaults :: "string \<Rightarrow> cc_args" where
  "cc_defaults name = \<lparr>
     a_name = name, a_srcs = AList [], a_deps = AList [], a_warning = ''yes'', a_defs = AList [],
     a_incs = AList [], a_export_incs = AList [], a_optimize = AList [],
     a_always_optimize = False, a_pre_build = False, a_prebuilt = False,
     a_link_all_symbols = False, a_deprecated = False, a_extra_cppflags = AList [],
     a_extra_linkflags = AList [], a_dynamic_link = None, a_export_dynamic = False,
     a_testdata = [], a_always_run = False, a_exclusive = False, a_heap_check = None,
     a_heap_check_debug = False, a_kwargs = []\<rparr>"

section \<open>Constructors\<close>

definition cxx_keyword_list :: "string list" where
  "cxx_keyword_list =
     [''and'', ''and_eq'', ''alignas'', ''alignof'', ''asm'', ''auto'',
      ''bitand'', ''bitor'', ''bool'', ''break'', ''case'', ''catch'',
      ''char'', ''char16_t'', ''char32_t'', ''class'', ''compl'', ''const'',
      ''constexpr'', ''const_cast'', ''continue'', ''decltype'', ''default'',
      ''delete'', ''double'', ''dynamic_cast'', ''else'', ''enum'',
      ''explicit'', ''export'', ''extern'', ''false'', ''float'', ''for'',
      ''friend'', ''goto'', ''if'', ''inline'', ''int'', ''long'', ''mutable'',
      ''namespace'', ''new'', ''noexcept'', ''not'', ''not_eq'', ''nullptr'',
      ''operator'', ''or'', ''or_eq'', ''private'', ''protected'', ''public'',
      ''register'', ''reinterpret_cast'', ''return'', ''short'', ''signed'',
      ''sizeof'', ''static'', ''static_assert'', ''static_cast'', ''struct'',
      ''switch'', ''template'', ''this'', ''thread_local'', ''throw'',
      ''true'', ''try'', ''typedef'', ''typeid'', ''typename'', ''union'',
      ''unsigned'', ''using'', ''virtual'', ''void'', ''volatile'', ''wchar_t'',
      ''while'', ''xor'', ''xor_eq'']"

definition macro_name :: "string \<Rightarrow> string" where
  "macro_name macro = takeWhile (\<lambda>c. c \<noteq> CHR ''='') macro"

definition check_def :: "string \<Rightarrow> blade \<Rightarrow> blade" where
  "check_def macro b =
     (if macro_name macro \<in> set cxx_keyword_list
      then warn (''DO NOT define c++ keyword '' @ macro_name macro @ '' as macro'') b else b)"

definition check_defs :: "target \<Rightarrow> blade \<Rightarrow> blade" where
  "check_defs t b = fold check_def (d_defs (t_data t)) b"

definition sources_keyword_list :: "string list" where
  "sources_keyword_list = [''thirdparty'']"

definition check_incorrect_no_warning :: "target \<Rightarrow> blade \<Rightarrow> blade" where
  "check_incorrect_no_warning t b =
     (if t_srcs t = [] \<or> d_warning (t_data t) \<noteq> ''no'' then b
      else if \<exists>kw \<in> set sources_keyword_list. has_sub kw (t_path t) then b
      else if concat (map (\<lambda>kw. filter (\<lambda>s. \<not> has_sub kw s) (t_srcs t)) sources_keyword_list) \<noteq> []
      then warn (label (fst (t_key t)) (snd (t_key t)) @ '' : warning='' @ sq ''no'' @
             '' is only allowed for code in thirdparty.'') b
      else b)"

definition cc_target_init ::
  "target_class \<Rightarrow> string \<Rightarrow> cc_args \<Rightarrow> blade \<Rightarrow> (target \<times> blade) res" where
  "cc_target_init cls ttype a b =
     bind_res (target_init cls (a_name a) ttype (strs (a_srcs a)) (strs (a_deps a)) (a_kwargs a) b)
       (\<lambda>(t, b').
        let t' = t\<lparr>t_data := (t_data t)\<lparr>
                   d_warning := a_warning a,
                   d_defs := strs (a_defs a),
                   d_incs := strs (a_incs a),
                   d_export_incs := strs (a_export_incs a),
                   d_optimize := strs (a_optimize a),
                   d_extra_cppflags := strs (a_extra_cppflags a),
                   d_extra_linkflags := strs (a_extra_linkflags a)\<rparr>\<rparr>
        in Inr (t', check_incorrect_no_warning t' (check_defs t' b')))"

definition cc_library_init :: "cc_args \<Rightarrow> blade \<Rightarrow> (target \<times> blade) res" where
  "cc_library_init a b =
     bind_res (cc_target_init CcLibrary ''cc_library'' a b) (\<lambda>(t, b').
        let t1 = (if a_prebuilt a \<or> a_pre_build a
                  then t\<lparr>t_type := ''prebuilt_cc_library'', t_srcs := []\<rparr> else t)
        in Inr (t1\<lparr>t_data := (t_data t1)\<lparr>
                  d_link_all_symbols := a_link_all_symbols a,
                  d_always_optimize := a_always_optimize a,
                  d_deprecated := a_deprecated a\<rparr>\<rparr>, b'))"

definition pre_build_warning :: "cc_args \<Rightarrow> target \<Rightarrow> blade \<Rightarrow> blade" where
  "pre_build_warning a t b =
     (if a_pre_build a
      then warn (label (t_path t) (t_name t) @ '': '' @ sq ''pre_build'' @
             '' has been deprecated, please use '' @ sq ''prebuilt'') b
      else b)"

definition cc_library :: "cc_args \<Rightarrow> blade \<Rightarrow> blade res" where
  "cc_library a b =
     bind_res (cc_library_init a b) (\<lambda>(t, b'). register_target t (pre_build_warning a t b'))"

text \<open>\<open>CcBinary.__init__\<close>, also run by \<open>CcTest\<close>, with the value of \<open>dynamic_link\<close>\<close>

definition cc_binary_init ::
  "target_class \<Rightarrow> bool \<Rightarrow> cc_args \<Rightarrow> blade \<Rightarrow> (target \<times> blade) res" where
  "cc_binary_init cls dynamic_link a b =
     bind_res (cc_target_init cls ''cc_binary'' a b) (\<lambda>(t, b').
     let t' = t\<lparr>t_data := (t_data t)\<lparr>d_dynamic_link := dynamic_link,
                d_export_dynamic := a_export_dynamic a\<rparr>\<rparr> in
     bind_res (config_strs (b_config b') ''cc_binary_config'' ''extra_libs'') (\<lambda>link_libs.
     add_hardcode_library link_libs (t', b')))"

definition cc_binary :: "cc_args \<Rightarrow> blade \<Rightarrow> blade res" where
  "cc_binary a b =
     bind_res (cc_binary_init CcBinary (a_dynamic_link a = Some True) a b)
       (\<lambda>(t, b'). register_target t b')"

definition cc_benchmark :: "cc_args \<Rightarrow> blade \<Rightarrow> blade res" where
  "cc_benchmark a b =
     bind_res (config_strs (b_config b) ''cc_config'' ''benchmark_libs'') (\<lambda>benchmark_libs.
     bind_res (config_strs (b_config b) ''cc_config'' ''benchmark_main_libs'') (\<lambda>benchmark_main_libs.
     cc_binary (a\<lparr>a_deps := AList (strs (a_deps a) @ benchmark_libs @ benchmark_main_libs)\<rparr>) b))"

definition cc_mapr :: "cc_args \<Rightarrow> blade \<Rightarrow> blade res" where
  "cc_mapr a b =
     bind_res (config_strs (b_config b) ''cc_config'' ''mapreduce_libs'') (\<lambda>mapreduce_libs.
     cc_binary (a\<lparr>a_deps := AList (strs (a_deps a) @ mapreduce_libs)\<rparr>) b)"

definition cc_plugin_init :: "cc_args \<Rightarrow> blade \<Rightarrow> (target \<times> blade) res" where
  "cc_plugin_init a b =
     bind_res (cc_target_init CcPlugin ''cc_plugin'' a b) (\<lambda>(t, b').
        Inr (if a_prebuilt a \<or> a_pre_build a
             then t\<lparr>t_type := ''prebuilt_cc_library'', t_srcs := []\<rparr> else t, b'))"

definition cc_plugin :: "cc_args \<Rightarrow> blade \<Rightarrow> blade res" where
  "cc_plugin a b =
     bind_res (cc_plugin_init a b) (\<lambda>(t, b'). register_target t (pre_build_warning a t b'))"

text \<open>The heap check value of a test: the argument, checked, or the configured default\<close>

definition cc_heap_check :: "string \<Rightarrow> target \<Rightarrow> cc_args \<Rightarrow> configs \<Rightarrow> string res" where
  "cc_heap_check shown t a cfg =
     (case a_heap_check a of
        None \<Rightarrow>
          Inr (case dict_get (dict_get cfg ''cc_test_config'' []) ''heap_check'' (PStr []) of
                 PStr s \<Rightarrow> s | _ \<Rightarrow> [])
      | Some h \<Rightarrow>
          if h \<notin> set heap_check_values
          then error_exit (label (t_path t) (t_name t) @ '': heap_check can only be in '' @ shown)
          else Inr h)"

definition cc_test_init ::
  "string \<Rightarrow> cc_args \<Rightarrow> blade \<Rightarrow> (target \<times> blade) res" where
  "cc_test_init shown a b =
     (let cfg = b_config b in
      bind_res (case a_dynamic_link a of
                  Some d \<Rightarrow> Inr d
                | None \<Rightarrow> bind_res (config_item cfg ''cc_test_config'' ''dynamic_link'')
                            (\<lambda>v. Inr (truthy v))) (\<lambda>dynamic_link.
      bind_res (cc_binary_init CcTest dynamic_link a b) (\<lambda>(t, b1).
      let t1 = t\<lparr>t_type := ''cc_test'', t_data := (t_data t)\<lparr>
                 d_testdata := Some (a_testdata a), d_always_run := a_always_run a,
                 d_exclusive := a_exclusive a\<rparr>\<rparr> in
      bind_res (config_strs cfg ''cc_test_config'' ''gtest_libs'') (\<lambda>gtest_lib.
      bind_res (config_strs cfg ''cc_test_config'' ''gtest_main_libs'') (\<lambda>gtest_main_lib.
      bind_res (add_hardcode_library gtest_lib (t1, b1)) (\<lambda>tb2.
      bind_res (add_hardcode_library gtest_main_lib tb2) (\<lambda>(t3, b3).
      bind_res (cc_heap_check shown t3 a cfg) (\<lambda>heap_check.
      bind_res (config_strs cfg ''cc_test_config'' ''gperftools_libs'') (\<lambda>perftools_lib.
      bind_res (config_strs cfg ''cc_test_config'' ''gperftools_debug_libs'') (\<lambda>perftools_debug_lib.
      if heap_check \<noteq> [] then
        add_hardcode_library
          (if a_heap_check_debug a then perftools_debug_lib else perftools_lib)
          (t3\<lparr>t_data := (t_data t3)\<lparr>d_heap_check := heap_check\<rparr>\<rparr>, b3)
      else Inr (t3, b3)))))))))))"

definition cc_test :: "string \<Rightarrow> cc_args \<Rightarrow> blade \<Rightarrow> blade res" where
  "cc_test shown a b =
     bind_res (cc_test_init shown a b) (\<lambda>(t, b'). register_target t b')"

end
