(* ===== verification/CcRules.thy ===== *)
theory CcRules
  imports CcTargets
begin

text \<open>
  The \<open>scons_rules\<close> of the C++ targets (\<open>cc_targets.py\<close>): compiler flags, include paths,
  the lists of libraries a target is linked with, and the statements written for objects,
  libraries, programs and plugins.
\<close>

section \<open>Before the rules\<close>

definition deprecated_warning :: "ctx \<Rightarrow> target \<Rightarrow> tkey \<Rightarrow> msg list res" where
  "deprecated_warning x t dep =
     (case map_of (x_database x) dep of
        None \<Rightarrow> Inl AttributeError
      | Some target \<Rightarrow>
          if d_deprecated (t_data target) then
            (case t_deps target of
               [] \<Rightarrow> Inl IndexError
             | r # _ \<Rightarrow> Inr [Warning (label (t_path t) (t_name t) @ '' : '' @
                 label (t_path target) (t_name target) @ '' has been deprecated, please depends on '' @
                 label (fst r) (snd r))])
          else Inr [])"

definition check_deprecated_deps :: "ctx \<Rightarrow> target \<Rightarrow> msg list res" where
  "check_deprecated_deps x t = bind_res (map_res (deprecated_warning x t) (t_deps t)) (\<lambda>ms. Inr (concat ms))"

definition cc_clone_env :: emit where
  "cc_clone_env t =
     Inr (if d_warning (t_data t) = ''yes''
          then write_rule (env_name t @ '' = env_with_error.Clone()'') t
          else write_rule (env_name t @ '' = env_no_warning.Clone()'') t)"

section \<open>Names and paths\<close>

definition objs_name :: "target \<Rightarrow> string" where
  "objs_name t = ''objs_'' @ generate_variable_name (t_path t) (t_name t) []"

definition lib_suffix :: "bool \<Rightarrow> string" where
  "lib_suffix dynamic = (if dynamic then ''so'' else ''a'')"

definition prebuilt_build_path :: "ctx \<Rightarrow> target \<Rightarrow> string \<Rightarrow> string \<Rightarrow> bool \<Rightarrow> string" where
  "prebuilt_build_path x t path name dynamic =
     (case fill_path_name t path name of (p, n) \<Rightarrow>
        path_joins (x_build_path x) [p, ''lib'' @ n @ ''.'' @ lib_suffix dynamic])"

definition prebuilt_src_path :: "ctx \<Rightarrow> target \<Rightarrow> string \<Rightarrow> string \<Rightarrow> bool \<Rightarrow> string" where
  "prebuilt_src_path x t path name dynamic =
     (case fill_path_name t path name of (p, n) \<Rightarrow>
        path_joins p [''lib'' @ shown_m (x_options x) @ ''_'' @ o_profile (x_options x),
          ''lib'' @ n @ ''.'' @ lib_suffix dynamic])"

section \<open>Flags\<close>

definition check_gcc_flag :: "ctx \<Rightarrow> string list \<Rightarrow> string list" where
  "check_gcc_flag x flags =
     filter (\<lambda>f. \<not> (f = ''-fno-omit-frame-pointer'' \<and> o_profile (x_options x) \<noteq> ''release'')) flags"

definition dash_flag :: "string \<Rightarrow> string" where
  "dash_flag f = (if startswith f ''-'' then f else ''-'' @ f)"

definition get_optimize_flags :: "ctx \<Rightarrow> target \<Rightarrow> string list res" where
  "get_optimize_flags x t =
     bind_res (if d_optimize (t_data t) = []
               then config_strs (x_config x) ''cc_config'' ''optimize''
               else Inr (d_optimize (t_data t))) (\<lambda>opt_list.
     Inr (if opt_list \<noteq> [] then map dash_flag opt_list else [''-O2'']))"

definition dep_is_library :: "ctx \<Rightarrow> tkey \<Rightarrow> bool res" where
  "dep_is_library x dep =
     bind_res (dict_index (x_build x) dep) (\<lambda>d.
     Inr (has_sub ''library'' (t_type d) \<or> has_sub ''plugin'' (t_type d)))"

text \<open>The include paths that one dependency exports\<close>

definition export_incs_of :: "ctx \<Rightarrow> tkey \<Rightarrow> string list res" where
  "export_incs_of x lib =
     bind_res (dep_is_library x lib) (\<lambda>is_lib.
     if \<not> is_lib then Inr []
     else if fst lib = ''#'' then Inr []
     else bind_res (dict_index (x_database x) lib) (\<lambda>target.
       Inr (map (\<lambda>inc. normpath (fst lib @ [slash] @ inc)) (d_export_incs (t_data target)))))"

definition export_incs_list :: "ctx \<Rightarrow> target \<Rightarrow> string list res" where
  "export_incs_list x t =
     bind_res (map_res (export_incs_of x) (t_expanded_deps t)) (\<lambda>l. Inr (concat l))"

definition get_cc_flags :: "ctx \<Rightarrow> target \<Rightarrow> (string list \<times> string list) res" where
  "get_cc_flags x t =
     (let d = t_data t;
          flags1 = (if d_warning d = ''no'' then [''-w''] else []) @ map ((@) ''-D'') (d_defs d)
      in bind_res (if o_profile (x_options x) = ''release'' \<or> d_always_optimize d
                   then get_optimize_flags x t else Inr []) (\<lambda>oflags.
         let flags2 = flags1 @ oflags;
             flags3 = flags2 @ filter (\<lambda>f. f \<notin> set flags2)
                        (check_gcc_flag x [''-fno-omit-frame-pointer'']);
             cpp_flags = flags3 @ d_extra_cppflags d;
             incs = (if d_incs d = [] then d_export_incs d else d_incs d)
         in bind_res (export_incs_list x t) (\<lambda>exported.
            Inr (cpp_flags,
                 add_all_new (map normpath (map (path_join (t_path t)) incs @ exported)) []))))"

definition get_as_flags :: "ctx \<Rightarrow> string list res" where
  "get_as_flags x = (case o_m (x_options x) of None \<Rightarrow> Inl TypeError | Some m \<Rightarrow> Inr [''--'' @ m])"

definition setup_cc_flags :: "ctx \<Rightarrow> emit" where
  "setup_cc_flags x t =
     bind_res (get_cc_flags x t) (\<lambda>(flags_from_option, incs_list).
     let t1 = (if flags_from_option \<noteq> []
               then write_rule (env_name t @ ''.Append(CPPFLAGS='' @ repr_strs flags_from_option @ '')'') t
               else t)
     in Inr (if incs_list \<noteq> []
             then write_rule (env_name t @ ''.Append(CPPPATH='' @ repr_strs incs_list @ '')'') t1
             else t1))"

definition setup_as_flags :: "ctx \<Rightarrow> emit" where
  "setup_as_flags x t =
     bind_res (get_as_flags x) (\<lambda>as_flags.
     Inr (if as_flags \<noteq> []
          then write_rule (env_name t @ ''.Append(ASFLAGS='' @ repr_strs as_flags @ '')'') t else t))"

definition setup_extra_link_flags :: emit where
  "setup_extra_link_flags t =
     Inr (if d_extra_linkflags (t_data t) \<noteq> []
          then write_rule (env_name t @ ''.Append(LINKFLAGS='' @
                 repr_strs (d_extra_linkflags (t_data t)) @ '')'') t
          else t)"

section \<open>Libraries to link with\<close>

text \<open>The variable or the quoted name a dependency has in the generated script\<close>

definition lib_name :: "tkey \<Rightarrow> string \<Rightarrow> string" where
  "lib_name dep suffix =
     (if fst dep = ''#'' then sq (snd dep) else generate_variable_name (fst dep) (snd dep) suffix)"

text \<open>One dependency: the library to link whole, or the library to link, if it is one\<close>

definition static_dep :: "ctx \<Rightarrow> tkey \<Rightarrow> (string list \<times> string list) res" where
  "static_dep x dep =
     bind_res (dep_is_library x dep) (\<lambda>is_lib.
     if \<not> is_lib then Inr ([], [])
     else bind_res (x_data (x_build x) dep) (\<lambda>d.
       Inr (if d_link_all_symbols d then ([lib_name dep []], []) else ([], [lib_name dep []]))))"

definition static_deps_list :: "ctx \<Rightarrow> target \<Rightarrow> (string list \<times> string list) res" where
  "static_deps_list x t =
     bind_res (map_res (static_dep x) (t_expanded_deps t)) (\<lambda>l.
     Inr (concat (map fst l), concat (map snd l)))"

definition dynamic_dep :: "ctx \<Rightarrow> tkey \<Rightarrow> string list res" where
  "dynamic_dep x lib =
     bind_res (dep_is_library x lib) (\<lambda>is_lib.
     if \<not> is_lib then Inr []
     else bind_res (dict_index (x_build x) lib) (\<lambda>d.
       if t_type d = ''cc_library'' \<and> t_srcs d = [] then Inr []
       else Inr [lib_name lib ''dynamic'']))"

definition dynamic_deps_list :: "ctx \<Rightarrow> target \<Rightarrow> string list res" where
  "dynamic_deps_list x t =
     bind_res (map_res (dynamic_dep x) (t_expanded_deps t)) (\<lambda>l. Inr (concat l))"

definition get_static_deps_lib_list :: "ctx \<Rightarrow> target \<Rightarrow> (string list \<times> string \<times> string) res" where
  "get_static_deps_lib_list x t =
     bind_res (static_deps_list x t) (\<lambda>(link_all, lib_list).
     Inr (link_all, ''LIBS=['' @ join_str '','' lib_list @ '']'',
       join_str '', ''
         (if link_all \<noteq> []
          then dq ''-Wl,--whole-archive'' # link_all @ [dq ''-Wl,--no-whole-archive''] else [])))"

definition get_dynamic_deps_lib_list :: "ctx \<Rightarrow> target \<Rightarrow> string res" where
  "get_dynamic_deps_lib_list x t =
     bind_res (dynamic_deps_list x t) (\<lambda>lib_list.
     Inr (if lib_list \<noteq> [] then ''LIBS=['' @ join_str '','' lib_list @ '']'' else ''LIBS=[]''))"

section \<open>Rules\<close>

definition command_copy :: "string \<Rightarrow> string \<Rightarrow> string" where
  "command_copy target source =
     ''Command('' @ dq target @ '', '' @ dq source @ '', Copy('' @ dq ''$TARGET'' @ '', '' @
     dq ''$SOURCE'' @ ''))''"

definition need_static_lib_targets :: "string list" where
  "need_static_lib_targets =
     [''cc_test'', ''cc_binary'', ''cc_benchmark'', ''cc_mapr'', ''cc_plugin'', ''swig_library'']"

definition allow_only_dynamic :: "ctx \<Rightarrow> target \<Rightarrow> bool" where
  "allow_only_dynamic x t \<longleftrightarrow>
     \<not> (\<exists>kt \<in> set (x_build x). t_key t \<in> set (t_expanded_deps (snd kt)) \<and>
          t_type (snd kt) \<in> set need_static_lib_targets)"

definition top_env_file :: "string \<Rightarrow> string \<Rightarrow> string" where
  "top_env_file var file = var @ '' = top_env.File('' @ dq file @ '')''"

definition prebuilt_cc_library :: "ctx \<Rightarrow> bool \<Rightarrow> emit" where
  "prebuilt_cc_library x dynamic t =
     (let var_name = generate_variable_name (t_path t) (t_name t) [];
          t1 = (if \<not> allow_only_dynamic x t
                then write_rule (top_env_file var_name (prebuilt_build_path x t [] [] False))
                       (write_rule (command_copy (prebuilt_build_path x t [] [] False)
                          (prebuilt_src_path x t [] [] False)) t)
                else t)
      in Inr (if dynamic then
            (let target_file = prebuilt_build_path x t (t_path t) (t_name t) True;
                 src_file = prebuilt_src_path x t (t_path t) (t_name t) True;
                 var_dyn = generate_variable_name (t_path t) (t_name t) ''dynamic'';
                 t2 = write_rule (top_env_file var_dyn target_file)
                        (write_rule (command_copy target_file src_file) t1)
             in t2\<lparr>t_file_and_link := Some (target_file, basename (x_realpath x src_file))\<rparr>)
          else t1\<lparr>t_file_and_link := None\<rparr>))"

definition depends_rule :: "target \<Rightarrow> string \<Rightarrow> string \<Rightarrow> string" where
  "depends_rule t a b = env_name t @ ''.Depends('' @ a @ '', '' @ b @ '')''"

definition cc_library_rule :: "ctx \<Rightarrow> emit" where
  "cc_library_rule x t =
     (let var_name = generate_variable_name (t_path t) (t_name t) [];
          t1 = write_rule (var_name @ '' = '' @ env_name t @ ''.Library('' @
                 dq (target_file_path (x_build_path x) t [] []) @ '', '' @ objs_name t @ '')'') t;
          t2 = write_rule (depends_rule t var_name (objs_name t)) t1
      in generate_target_explict_dependency (x_build x) [var_name] t2)"

definition shared_library_rule :: "ctx \<Rightarrow> target \<Rightarrow> string \<Rightarrow> string \<Rightarrow> string" where
  "shared_library_rule x t var_name lib_str =
     var_name @ '' = '' @ env_name t @ ''.SharedLibrary('' @
     dq (target_file_path (x_build_path x) t [] []) @ '', '' @ objs_name t @ '', '' @ lib_str @ '')''"

definition dynamic_cc_library :: "ctx \<Rightarrow> emit" where
  "dynamic_cc_library x t =
     bind_res (setup_extra_link_flags t) (\<lambda>t1.
     let var_name = generate_variable_name (t_path t) (t_name t) ''dynamic'' in
     bind_res (get_dynamic_deps_lib_list x t) (\<lambda>lib_str.
     let t2 = (if t_srcs t \<noteq> [] \<or> t_expanded_deps t \<noteq> [] then
                 write_rule (depends_rule t var_name (objs_name t))
                   (write_rule (shared_library_rule x t var_name lib_str)
                     (write_rule (env_name t @ ''.Append(LINKFLAGS=['' @ dq ''-Xlinker'' @ '', '' @
                        dq ''--no-undefined'' @ ''])'') t1))
               else t1)
     in generate_target_explict_dependency (x_build x) [var_name] t2))"

definition object_rule_types :: "string list" where
  "object_rule_types = [''cc_library'', ''cc_binary'', ''cc_test'', ''cc_plugin'']"

definition object_name :: "target \<Rightarrow> string \<Rightarrow> string" where
  "object_name t src =
     generate_variable_name (t_path t) src [] @ ''_'' @ regular_variable_name (t_name t) @ ''_object''"

definition object_rule :: "ctx \<Rightarrow> string \<Rightarrow> target \<Rightarrow> target" where
  "object_rule x src t =
     (let obj = object_name t src;
          target_path = path_joins (x_build_path x) [t_path t, t_name t @ ''.objs'', src];
          src_path = target_file_path (x_build_path x) t (t_path t) src
      in write_rule (env_name t @ ''.Depends('' @ obj @ '', '' @ dq src_path @ '')'')
           (write_rule (obj @ '' = '' @ env_name t @ ''.SharedObject(target = '' @ dq target_path @
              '' + top_env['' @ dq ''OBJSUFFIX'' @ ''], source = '' @ dq src_path @ '')'') t))"

definition cc_objects_rules :: "ctx \<Rightarrow> emit" where
  "cc_objects_rules x t =
     (if t_type t \<notin> set object_rule_types
      then error_exit (''logic error, type '' @ t_type t @ '' err in object rule'')
      else
        bind_res (setup_cc_flags x t) (\<lambda>t1.
        bind_res (setup_as_flags x t1) (\<lambda>t2.
        let t3 = fold (object_rule x) (t_srcs t) t2
        in Inr (write_rule (objs_name t @ '' = ['' @ join_str '','' (map (object_name t) (t_srcs t)) @ '']'') t3))))"

definition build_dynamic :: "ctx \<Rightarrow> target \<Rightarrow> bool" where
  "build_dynamic x t \<longleftrightarrow> o_generate_dynamic (x_options x) \<or> d_build_dynamic (t_data t)"

definition cc_library_scons_rules :: "ctx \<Rightarrow> emit" where
  "cc_library_scons_rules x t =
     bind_res (cc_clone_env t) (\<lambda>t1.
     if t_type t = ''prebuilt_cc_library'' then prebuilt_cc_library x (build_dynamic x t) t1
     else
       bind_res (cc_objects_rules x t1) (\<lambda>t2.
       bind_res (cc_library_rule x t2) (\<lambda>t3.
       if build_dynamic x t then dynamic_cc_library x t3 else Inr t3)))"

definition append_linkflags :: "target \<Rightarrow> string \<Rightarrow> target \<Rightarrow> target" where
  "append_linkflags t v = write_rule (env_name t @ ''.Append(LINKFLAGS='' @ v @ '')'')"

definition program_rule :: "ctx \<Rightarrow> target \<Rightarrow> string \<Rightarrow> string" where
  "program_rule x t lib_str =
     generate_variable_name (t_path t) (t_name t) [] @ '' = '' @ env_name t @ ''.Program('' @
     dq (target_file_path (x_build_path x) t [] []) @ '', '' @ objs_name t @ '', '' @ lib_str @ '')''"

definition requires_version :: "target \<Rightarrow> target \<Rightarrow> target" where
  "requires_version t u =
     write_rule (env_name t @ ''.Requires('' @ generate_variable_name (t_path t) (t_name t) [] @
       '', version_obj)'') (append_linkflags t ''str(version_obj[0])'' u)"

text \<open>Strings compare lexicographically by character code.\<close>

fun str_less :: "string \<Rightarrow> string \<Rightarrow> bool" where
  "str_less _ [] = False"
| "str_less [] (_ # _) = True"
| "str_less (c # cs) (d # ds) =
     (if of_char c < (of_char d :: nat) then True else if c = d then str_less cs ds else False)"

definition cc_binary_rule :: "ctx \<Rightarrow> emit" where
  "cc_binary_rule x t =
     (let var_name = generate_variable_name (t_path t) (t_name t) [];
          t1 = (if str_less ''4.5'' (x_gcc_version x)
                then append_linkflags t (repr_strs [''-static-libgcc'', ''-static-libstdc++'']) t
                else t)
      in bind_res (get_static_deps_lib_list x t) (\<lambda>(link_all, lib_str, whole_link_flags).
         let t2 = (if whole_link_flags \<noteq> []
                   then append_linkflags t (''['' @ whole_link_flags @ '']'') t1 else t1);
             t3 = (if d_export_dynamic (t_data t) then append_linkflags t (dq ''-rdynamic'') t2 else t2)
         in bind_res (config_strs (x_config x) ''cc_config'' ''linkflags'') (\<lambda>linkflags.
            let t4 = (if linkflags \<noteq> [] then append_linkflags t (repr_strs linkflags) t3 else t3)
            in bind_res (setup_extra_link_flags t4) (\<lambda>t5.
               bind_res (generate_target_explict_dependency (x_build x) [var_name]
                   (write_rule (depends_rule t var_name (objs_name t))
                      (write_rule (program_rule x t lib_str) t5))) (\<lambda>t6.
               let t7 = (if link_all \<noteq> []
                         then write_rule (depends_rule t var_name (''['' @ join_str '', '' link_all @ '']'')) t6
                         else t6)
               in Inr (requires_version t t7))))))"

definition dynamic_cc_binary :: "ctx \<Rightarrow> emit" where
  "dynamic_cc_binary x t =
     (let var_name = generate_variable_name (t_path t) (t_name t) [];
          t1 = (if d_export_dynamic (t_data t) then append_linkflags t (dq ''-rdynamic'') t else t)
      in bind_res (setup_extra_link_flags t1) (\<lambda>t2.
         bind_res (get_dynamic_deps_lib_list x t) (\<lambda>lib_str.
         generate_target_explict_dependency (x_build x) [var_name]
           (requires_version t
             (write_rule (depends_rule t var_name (objs_name t))
               (write_rule (program_rule x t lib_str) t2))))))"

text \<open>\<open>CcBinary.scons_rules\<close>, also the rules of \<open>CcTest\<close>\<close>

definition cc_binary_scons_rules :: "ctx \<Rightarrow> emit" where
  "cc_binary_scons_rules x t =
     bind_res (cc_clone_env t) (\<lambda>t1.
     bind_res (cc_objects_rules x t1) (\<lambda>t2.
     if d_dynamic_link (t_data t) then dynamic_cc_binary x t2 else cc_binary_rule x t2))"

definition cc_plugin_scons_rules :: "ctx \<Rightarrow> emit" where
  "cc_plugin_scons_rules x t =
     bind_res (cc_clone_env t) (\<lambda>t1.
     let var_name = generate_variable_name (t_path t) (t_name t) ''dynamic'' in
     bind_res (cc_objects_rules x t1) (\<lambda>t2.
     bind_res (setup_extra_link_flags t2) (\<lambda>t3.
     bind_res (get_static_deps_lib_list x t) (\<lambda>(link_all, lib_str, whole_link_flags).
     let t4 = (if whole_link_flags \<noteq> []
               then append_linkflags t (''['' @ whole_link_flags @ '']'') t3 else t3);
         t5 = (if t_srcs t \<noteq> [] \<or> t_expanded_deps t \<noteq> []
               then write_rule (shared_library_rule x t var_name lib_str) t4 else t4);
         t6 = (if link_all \<noteq> []
               then write_rule (depends_rule t var_name (''['' @ join_str '', '' link_all @ '']'')) t5
               else t5)
     in generate_target_explict_dependency (x_build x) [var_name] t6))))"

end
