(* ===== verification/ProtoLibrary.thy ===== *)
theory ProtoLibrary
  imports CcRules
begin

text \<open>
  \<open>proto_library_target.py\<close>: the check of the source names, the names of the generated C++,
  PHP, Python and Java files, the package that decides the Java path, and the rules.
\<close>

section \<open>The constructor\<close>

definition proto_name_ok :: "string \<Rightarrow> bool" where
  "proto_name_ok src =
     (case rsplit_char1 CHR ''.'' (basename src) of
        [_, file_suffix] \<Rightarrow> file_suffix = ''proto''
      | _ \<Rightarrow> False)"

definition check_proto_srcs_name :: "string list \<Rightarrow> unit res" where
  "check_proto_srcs_name srcs_list =
     fold_res (\<lambda>src _. if proto_name_ok src then Inr ()
                       else error_exit (''invalid proto file name '' @ src)) srcs_list ()"

definition proto_library_init :: "cc_args \<Rightarrow> blade \<Rightarrow> (target \<times> blade) res" where
  "proto_library_init a b =
     bind_res (check_proto_srcs_name (strs (a_srcs a))) (\<lambda>_.
     bind_res (cc_target_init ProtoLibrary ''proto_library''
       ((cc_defaults (a_name a))\<lparr>a_srcs := a_srcs a, a_deps := a_deps a, a_warning := [],
          a_optimize := a_optimize a, a_kwargs := a_kwargs a\<rparr>) b) (\<lambda>(t, b').
     bind_res (config_strs (b_config b') ''proto_library_config'' ''protobuf_libs'') (\<lambda>protobuf_lib.
     bind_res (add_hardcode_library protobuf_lib (t, b')) (\<lambda>(t2, b2).
     Inr (t2\<lparr>t_data := (t_data t2)\<lparr>d_link_all_symbols := True, d_deprecated := a_deprecated a,
            d_java_explict_dependency := [], d_python_vars := [], d_python_sources := []\<rparr>\<rparr>, b2)))))"

definition proto_library :: "cc_args \<Rightarrow> blade \<Rightarrow> blade res" where
  "proto_library a b = bind_res (proto_library_init a b) (\<lambda>(t, b'). register_target t b')"

section \<open>Generated files\<close>

definition proto_stem :: "string \<Rightarrow> string" where
  "proto_stem src = drop_last 6 src"

definition proto_gen_files :: "ctx \<Rightarrow> target \<Rightarrow> string \<Rightarrow> string \<Rightarrow> string \<times> string" where
  "proto_gen_files x t path src =
     (target_file_path (x_build_path x) t path (proto_stem src @ ''.pb.cc''),
      target_file_path (x_build_path x) t path (proto_stem src @ ''.pb.h''))"

definition proto_gen_php_file :: "ctx \<Rightarrow> target \<Rightarrow> string \<Rightarrow> string \<Rightarrow> string" where
  "proto_gen_php_file x t path src =
     target_file_path (x_build_path x) t path (proto_stem src @ ''.pb.php'')"

definition proto_gen_python_file :: "ctx \<Rightarrow> target \<Rightarrow> string \<Rightarrow> string \<Rightarrow> string" where
  "proto_gen_python_file x t path src =
     target_file_path (x_build_path x) t path (proto_stem src @ ''_pb2.py'')"

text \<open>
  The loop of \<open>_get_java_package_name\<close>: the first line with \<open>java_package\<close>, which ends the
  loop, and the last line seen before it that starts with \<open>package\<close>.
\<close>

definition strip_comment :: "string \<Rightarrow> string" where
  "strip_comment line = (case find_sub ''//'' line of None \<Rightarrow> line | Some pos \<Rightarrow> take pos line)"

fun scan_package :: "string list \<Rightarrow> string \<Rightarrow> string \<times> string" where
  "scan_package [] normal = ([], normal)"
| "scan_package (l # ls) normal =
     (let line = strip_ws l in
      if startswith line ''//'' then scan_package ls normal
      else let line = strip_comment line in
        if has_sub ''java_package'' line then (line, normal)
        else if startswith line ''package'' then scan_package ls line
        else scan_package ls normal)"

definition second :: "string list \<Rightarrow> string res" where
  "second xs = (case xs of _ # y # _ \<Rightarrow> Inr y | _ \<Rightarrow> Inl IndexError)"

definition java_quotes :: string where
  "java_quotes = [backslash, quote1, quote2, CHR '';'']"

definition get_java_package_name :: "ctx \<Rightarrow> string \<Rightarrow> string res" where
  "get_java_package_name x src =
     (case x_lines x src of
        None \<Rightarrow> Inr []
      | Some lines \<Rightarrow>
          (case scan_package lines [] of (package_line, normal_package_line) \<Rightarrow>
           bind_res
             (if package_line \<noteq> [] then
                bind_res (second (split_char CHR ''='' package_line))
                  (\<lambda>p. Inr (strip_chars java_quotes (strip_ws p)))
              else if normal_package_line \<noteq> [] then
                bind_res (second (split_char CHR '' '' normal_package_line))
                  (\<lambda>p. Inr (strip_chars '';'' (strip_ws p)))
              else Inr [])
             (\<lambda>package. Inr (replace_str ''.'' [slash] package))))"

definition proto_java_gen_file :: "ctx \<Rightarrow> string \<Rightarrow> string \<Rightarrow> string \<Rightarrow> string" where
  "proto_java_gen_file x path src package =
     (let base_name = concat (split_char CHR ''_'' (title (basename (proto_stem src)))) @ ''.java''
      in path_join (x_build_path x) (path_join (path_join path package) base_name))"

section \<open>Rules\<close>

definition proto_java_rule :: "ctx \<Rightarrow> string \<Rightarrow> target \<Rightarrow> target res" where
  "proto_java_rule x src t =
     (let src_path = path_join (t_path t) src in
      bind_res (get_java_package_name x src_path) (\<lambda>package_dir.
      let gen = proto_java_gen_file x (t_path t) src package_dir;
          t1 = write_rule (env_name t @ ''.ProtoJava(['' @ dq gen @ ''], '' @ dq src_path @ '')'') t
      in Inr (t1\<lparr>t_data := (t_data t1)\<lparr>
           d_java_sources := Some (dirname gen, path_join (x_build_path x) (t_path t), t_name t),
           d_java_explict_dependency := d_java_explict_dependency (t_data t1) @ [gen]\<rparr>\<rparr>)))"

definition proto_php_rule :: "ctx \<Rightarrow> string \<Rightarrow> target \<Rightarrow> target res" where
  "proto_php_rule x src t =
     Inr (write_rule (env_name t @ ''.ProtoPhp(['' @ dq (proto_gen_php_file x t (t_path t) src) @
       ''], '' @ dq (path_join (t_path t) src) @ '')'') t)"

definition proto_python_rule :: "ctx \<Rightarrow> string \<Rightarrow> target \<Rightarrow> target res" where
  "proto_python_rule x src t =
     (let proto_python_src = proto_gen_python_file x t (t_path t) src;
          py_cmd_var = generate_variable_name (t_path t) (t_name t) [] @ ''_python'';
          t1 = write_rule (py_cmd_var @ '' = '' @ env_name t @ ''.ProtoPython(['' @
                 dq proto_python_src @ ''], '' @ dq (path_join (t_path t) src) @ '')'') t
      in Inr (t1\<lparr>t_data := (t_data t1)\<lparr>
           d_python_vars := d_python_vars (t_data t1) @ [py_cmd_var],
           d_python_sources := d_python_sources (t_data t1) @ [proto_python_src]\<rparr>\<rparr>))"

definition proto_object :: "target \<Rightarrow> string \<Rightarrow> string" where
  "proto_object t src = generate_variable_name (t_path t) src [] @ ''_object''"

definition proto_cc_rule :: "ctx \<Rightarrow> string \<Rightarrow> target \<Rightarrow> target" where
  "proto_cc_rule x src t =
     (case proto_gen_files x t (t_path t) src of (proto_src, proto_hdr) \<Rightarrow>
        write_rule (proto_object t src @ '' = '' @ env_name t @ ''.SharedObject(target='' @
            dq proto_src @ '' + top_env['' @ dq ''OBJSUFFIX'' @ ''], source='' @ dq proto_src @ '')'')
          (write_rule (env_name t @ ''.Proto(['' @ dq proto_src @ '', '' @ dq proto_hdr @ ''], '' @
            dq (path_join (t_path t) src) @ '')'') t))"

definition generate_java :: "ctx \<Rightarrow> target \<Rightarrow> bool" where
  "generate_java x t \<longleftrightarrow>
     o_generate_java (x_options x) \<or> d_generate_java (t_data t) \<or> t_key t \<in> set (x_direct x)"

definition generate_php :: "ctx \<Rightarrow> target \<Rightarrow> bool" where
  "generate_php x t \<longleftrightarrow>
     o_generate_php (x_options x) \<and> (d_generate_php (t_data t) \<or> t_key t \<in> set (x_direct x))"

definition generate_python :: "ctx \<Rightarrow> target \<Rightarrow> bool" where
  "generate_python x t \<longleftrightarrow>
     o_generate_python (x_options x) \<or> d_generate_python (t_data t) \<or> t_key t \<in> set (x_direct x)"

definition proto_library_scons_rules :: "ctx \<Rightarrow> emit" where
  "proto_library_scons_rules x t =
     bind_res (cc_clone_env t) (\<lambda>t1.
     bind_res (if generate_java x t then fold_res (proto_java_rule x) (t_srcs t) t1 else Inr t1) (\<lambda>t2.
     bind_res (if generate_php x t then fold_res (proto_php_rule x) (t_srcs t) t2 else Inr t2) (\<lambda>t3.
     bind_res (if generate_python x t then fold_res (proto_python_rule x) (t_srcs t) t3 else Inr t3) (\<lambda>t4.
     bind_res (setup_cc_flags x t4) (\<lambda>t5.
     let t6 = fold (proto_cc_rule x) (t_srcs t) t5;
         sources = map (\<lambda>src. fst (proto_gen_files x t (t_path t) src)) (t_srcs t);
         t7 = write_rule (depends_rule t (objs_name t) (repr_strs sources))
                (write_rule (objs_name t @ '' = ['' @ join_str '','' (map (proto_object t) (t_srcs t)) @ '']'') t6)
     in bind_res (cc_library_rule x t7) (\<lambda>t8.
        if build_dynamic x t then dynamic_cc_library x t8 else Inr t8))))))"

end
