(* ===== verification/GenRule.thy ===== *)
theory GenRule
  imports CcTargets
begin

text \<open>
  \<open>gen_rule_target.py\<close>: targets built by a shell command, whose placeholders are translated
  to those of the generated script, and the variables of the targets they depend on.
\<close>

record gen_args =
  g_name :: string
  g_srcs :: arg
  g_deps :: arg
  g_outs :: arg
  g_cmd :: string
  g_kwargs :: "(string, pyval) dict"

definition gen_rule_init :: "gen_args \<Rightarrow> blade \<Rightarrow> (target \<times> blade) res" where
  "gen_rule_init a b =
     bind_res (target_init GenRuleTarget (g_name a) ''gen_rule'' (strs (g_srcs a)) (strs (g_deps a))
                 (g_kwargs a) b) (\<lambda>(t, b').
     Inr (t\<lparr>t_data := (t_data t)\<lparr>d_outs := strs (g_outs a), d_cmd := g_cmd a\<rparr>\<rparr>, b'))"

definition gen_rule :: "gen_args \<Rightarrow> blade \<Rightarrow> blade res" where
  "gen_rule a b = bind_res (gen_rule_init a b) (\<lambda>(t, b'). register_target t b')"

definition gen_srcs_list :: "ctx \<Rightarrow> string \<Rightarrow> string list \<Rightarrow> string" where
  "gen_srcs_list x path ss =
     join_str '','' (map (\<lambda>src. dq (path_joins (x_build_path x) [path, src])) ss)"

definition gen_command :: "ctx \<Rightarrow> string \<Rightarrow> string" where
  "gen_command x cmd =
     replace_str ''$BUILD_DIR'' (x_build_path x)
      (replace_str ''$FIRST_OUT'' ''$TARGET''
        (replace_str ''$FIRST_SRC'' ''$SOURCE''
          (replace_str ''$OUTS'' ''$TARGETS''
            (replace_str ''$SRCS'' ''$SOURCES'' cmd))))"

definition dep_skip_list :: "string list" where
  "dep_skip_list = [''system_library'', ''prebuilt_cc_library'']"

text \<open>The variables of one dependency\<close>

definition gen_dep_vars :: "ctx \<Rightarrow> tkey \<Rightarrow> string list res" where
  "gen_dep_vars x i =
     bind_res (dict_index (x_build x) i) (\<lambda>d.
     Inr (if t_type d \<in> set dep_skip_list then []
          else if t_type d = ''swig_library'' then
            [generate_variable_name (t_path d) (t_name d) ''dynamic_py'',
             generate_variable_name (t_path d) (t_name d) ''dynamic_java'']
          else if t_type d = ''java_jar'' then d_java_jars (t_data d)
          else [generate_variable_name (t_path d) (t_name d) []]))"

definition gen_rule_scons_rules :: "ctx \<Rightarrow> emit" where
  "gen_rule_scons_rules x t =
     (let t1 = clone_env t;
          var_name = generate_variable_name (t_path t) (t_name t) [];
          srcs_str = (if t_srcs t = [] then ''time_value'' else gen_srcs_list x (t_path t) (t_srcs t));
          t2 = write_rule (var_name @ '' = '' @ env_name t @ ''.Command(['' @
                 gen_srcs_list x (t_path t) (d_outs (t_data t)) @ ''], ['' @ srcs_str @ ''], '' @
                 dq (gen_command x (d_cmd (t_data t))) @ '')'') t1;
          t3 = t2\<lparr>t_var_name := Some var_name\<rparr>
      in bind_res (generate_target_explict_dependency (x_build x) [var_name] t3) (\<lambda>t4.
         bind_res (map_res (gen_dep_vars x) (t_expanded_deps t)) (\<lambda>vars.
         Inr (fold (\<lambda>v. write_rule (env_name t @ ''.Depends('' @ var_name @ '', '' @ v @ '')''))
                (concat vars) t4))))"

end
