(* ===== verification/LexYacc.thy ===== *)
theory LexYacc
  imports CcRules
begin

text \<open>\<open>lex_yacc_target.py\<close>: libraries generated by lex and yacc from a pair of sources.\<close>

record lex_args =
  l_name :: string
  l_srcs :: arg
  l_deps :: arg
  l_recursive :: bool
  l_prefix :: "string option"
  l_kwargs :: "(string, pyval) dict"

text \<open>\<open>len(srcs)\<close> of the argument as it was passed: of a string, its characters\<close>

fun arg_len :: "arg \<Rightarrow> nat res" where
  "arg_len ANone = Inl TypeError"
| "arg_len (AStr s) = Inr (length s)"
| "arg_len (AList l) = Inr (length l)"

definition lex_yacc_init :: "lex_args \<Rightarrow> blade \<Rightarrow> (target \<times> blade) res" where
  "lex_yacc_init a b =
     bind_res (arg_len (l_srcs a)) (\<lambda>n.
     if n \<noteq> 2 then Inl (PyException (dq ''srcs'' @
        '' for lex_yacc_library should be a pair of (lex_source, yacc_source)''))
     else
       bind_res (cc_target_init LexYaccLibrary ''lex_yacc_library''
         ((cc_defaults (l_name a))\<lparr>a_srcs := l_srcs a, a_deps := l_deps a, a_warning := ''yes'',
            a_kwargs := l_kwargs a\<rparr>) b) (\<lambda>(t, b').
       Inr (t\<lparr>t_data := (t_data t)\<lparr>d_recursive := l_recursive a,
              d_prefix := (case l_prefix a of None \<Rightarrow> [] | Some p \<Rightarrow> p)\<rparr>\<rparr>, b')))"

definition lex_yacc_library :: "lex_args \<Rightarrow> blade \<Rightarrow> blade res" where
  "lex_yacc_library a b = bind_res (lex_yacc_init a b) (\<lambda>(t, b'). register_target t b')"

definition src_at :: "target \<Rightarrow> nat \<Rightarrow> string res" where
  "src_at t i = (if i < length (t_srcs t) then Inr (t_srcs t ! i) else Inl IndexError)"

definition lex_flags :: "tdata \<Rightarrow> string list" where
  "lex_flags d =
     (if d_recursive d then [''-R''] else []) @
     (if d_prefix d \<noteq> [] then [''-P '' @ d_prefix d] else [])"

definition yacc_flags :: "tdata \<Rightarrow> string list" where
  "yacc_flags d = (if d_prefix d \<noteq> [] then [''-p '' @ d_prefix d] else [])"

definition lex_object :: "target \<Rightarrow> string \<Rightarrow> string" where
  "lex_object t src = generate_variable_name (t_path t) (src @ ''.cc'') [] @ ''_object''"

definition lex_object_rule :: "target \<Rightarrow> string \<Rightarrow> string \<Rightarrow> target \<Rightarrow> target" where
  "lex_object_rule t src file =
     write_rule (lex_object t src @ '' = '' @ env_name t @ ''.SharedObject(target='' @ dq file @
       '' + top_env['' @ dq ''OBJSUFFIX'' @ ''], source='' @ dq file @ '')'')"

definition lex_yacc_scons_rules :: "ctx \<Rightarrow> emit" where
  "lex_yacc_scons_rules x t =
     bind_res (cc_clone_env t) (\<lambda>t1.
     let var_name = generate_variable_name (t_path t) (t_name t) [] in
     bind_res (src_at t 0) (\<lambda>lex_src.
     let lex_source_file = target_file_path (x_build_path x) t (t_path t) lex_src;
         lex_cc_file = lex_source_file @ ''.cc'';
         t2 = write_rule (''lex_'' @ var_name @ '' = '' @ env_name t @ ''.CXXFile(LEXFLAGS='' @
                repr_strs (lex_flags (t_data t)) @ '', target='' @ dq lex_cc_file @ '', source='' @
                dq lex_source_file @ '')'') t1
     in bind_res (src_at t 1) (\<lambda>yacc_src.
        let yacc_source_file = path_joins (x_build_path x) [t_path t, yacc_src];
            yacc_cc_file = yacc_source_file @ ''.cc'';
            yacc_hh_file = yacc_source_file @ ''.hh'';
            t3 = write_rule (''yacc_'' @ var_name @ '' = '' @ env_name t @ ''.Yacc(YACCFLAGS='' @
                   repr_strs (yacc_flags (t_data t)) @ '', target=['' @ dq yacc_cc_file @ '', '' @
                   dq yacc_hh_file @ ''], source='' @ dq yacc_source_file @ '')'') t2;
            t4 = write_rule (env_name t @ ''.Depends(lex_'' @ var_name @ '', yacc_'' @ var_name @ '')'') t3;
            t5 = lex_object_rule t lex_src lex_cc_file t4;
            t6 = lex_object_rule t yacc_src yacc_cc_file t5;
            t7 = write_rule (objs_name t @ '' = ['' @
                   join_str '','' [lex_object t lex_src, lex_object t yacc_src] @ '']'') t6
        in bind_res (cc_library_rule x t7) (\<lambda>t8.
           if build_dynamic x t then dynamic_cc_library x t8 else Inr t8))))"

end
