(* ===== verification/ResourceLibrary.thy ===== *)
theory ResourceLibrary
  imports CcRules
begin

text \<open>\<open>resource_library_target.py\<close>: files compiled into a library as C arrays.\<close>

definition resource_library_init :: "cc_args \<Rightarrow> blade \<Rightarrow> (target \<times> blade) res" where
  "resource_library_init a b =
     cc_target_init ResourceLibrary ''resource_library''
       ((cc_defaults (a_name a))\<lparr>a_srcs := a_srcs a, a_deps := a_deps a, a_warning := [],
          a_optimize := a_optimize a, a_extra_cppflags := a_extra_cppflags a,
          a_kwargs := a_kwargs a\<rparr>) b"

definition resource_library :: "cc_args \<Rightarrow> blade \<Rightarrow> blade res" where
  "resource_library a b = bind_res (resource_library_init a b) (\<lambda>(t, b'). register_target t b')"

section \<open>Rules\<close>

definition resource_out_dir :: "ctx \<Rightarrow> target \<Rightarrow> string" where
  "resource_out_dir x t = path_join (x_build_path x) (t_path t)"

definition resource_header_rule :: "ctx \<Rightarrow> target \<Rightarrow> target" where
  "resource_header_rule x t =
     (let res_name = regular_variable_name (t_name t);
          res_header_path = path_join (resource_out_dir x t) (res_name @ ''.h'');
          src_list = map (path_join (t_path t)) (t_srcs t)
      in write_rule (res_name @ ''_header_cmd_bld = '' @ env_name t @ ''.ResourceHeader('' @
           dq res_header_path @ '', '' @ repr_strs src_list @ '')'') t)"

definition resource_c_file :: "ctx \<Rightarrow> target \<Rightarrow> string \<Rightarrow> string" where
  "resource_c_file x t src =
     path_join (resource_out_dir x t)
       (regular_variable_name (basename (path_join (t_path t) src)) @ ''.c'')"

definition resource_file_rule :: "ctx \<Rightarrow> string \<Rightarrow> target \<Rightarrow> target" where
  "resource_file_rule x src t =
     (let new_src_path = resource_c_file x t src;
          t1 = write_rule (regular_variable_name new_src_path @ ''_bld = '' @ env_name t @
                 ''.ResourceFile('' @ dq new_src_path @ '', '' @ dq (path_join (t_path t) src) @ '')'') t
      in t1\<lparr>t_data := (t_data t1)\<lparr>d_res_srcs := d_res_srcs (t_data t1) @ [new_src_path]\<rparr>\<rparr>)"

text \<open>
  The loop of \<open>_resource_library_rules_objects\<close>: \<open>seen\<close> are the keys of \<open>res_objects\<close>. The
  object of a source whose regular name was seen before is not built again.
\<close>

definition res_base :: "string \<Rightarrow> string" where
  "res_base src = regular_variable_name (basename src)"

definition res_key :: "target \<Rightarrow> string \<Rightarrow> string" where
  "res_key t src = res_base src @ ''_'' @ t_name t @ ''_res''"

definition res_object :: "target \<Rightarrow> string \<Rightarrow> string" where
  "res_object t src = res_base src @ ''_'' @ regular_variable_name (t_name t) @ ''_object''"

fun resource_objects :: "ctx \<Rightarrow> string list \<Rightarrow> string list \<Rightarrow> target \<Rightarrow> target" where
  "resource_objects x [] seen t = t"
| "resource_objects x (src # ss) seen t =
     (if res_key t src \<in> set seen then resource_objects x ss seen t
      else resource_objects x ss (res_key t src # seen)
             (write_rule (res_object t src @ '' = '' @ env_name t @ ''.SharedObject(target='' @
                dq (path_joins (x_build_path x) [t_path t, t_name t @ ''.objs'', res_base src]) @
                '' + top_env['' @ dq ''OBJSUFFIX'' @ ''], source='' @ dq src @ '')'') t))"

definition resource_objects_rules :: "ctx \<Rightarrow> emit" where
  "resource_objects_rules x t =
     bind_res (setup_cc_flags x t) (\<lambda>t1.
     let res_srcs = d_res_srcs (t_data t) in
     Inr (write_rule (objs_name t @ '' = ['' @ join_str '','' (map (res_object t) res_srcs) @ '']'')
            (resource_objects x res_srcs [] t1)))"

definition resource_library_scons_rules :: "ctx \<Rightarrow> emit" where
  "resource_library_scons_rules x t =
     bind_res (cc_clone_env t) (\<lambda>t1.
     let t2 = resource_header_rule x t1;
         t3 = fold (resource_file_rule x) (t_srcs t) (t2\<lparr>t_data := (t_data t2)\<lparr>d_res_srcs := []\<rparr>\<rparr>)
     in bind_res (resource_objects_rules x t3) (\<lambda>t4.
        bind_res (cc_library_rule x t4) (\<lambda>t5.
        if build_dynamic x t then dynamic_cc_library x t5 else Inr t5)))"

end
