(* ===== verification/PyTargets.thy ===== *)
theory PyTargets
  imports CcTargets
begin

text \<open>
  \<open>py_targets.py\<close>: python eggs. The loop over the expanded dependencies reads a global name
  \<open>targets\<close> that no module defines (the dictionary was stored in \<open>self.targets\<close>), so its
  first round raises.
\<close>

record py_args =
  p_name :: string
  p_srcs :: arg
  p_deps :: arg
  p_prebuilt :: bool
  p_kwargs :: "(string, pyval) dict"

definition py_binary_init :: "py_args \<Rightarrow> blade \<Rightarrow> (target \<times> blade) res" where
  "py_binary_init a b =
     bind_res (target_init PythonBinaryTarget (p_name a) ''py_binary'' (strs (p_srcs a))
                 (strs (p_deps a)) (p_kwargs a) b) (\<lambda>(t, b').
     Inr (if p_prebuilt a then t\<lparr>t_type := ''prebuilt_py_binary''\<rparr> else t, b'))"

definition py_binary :: "py_args \<Rightarrow> blade \<Rightarrow> blade res" where
  "py_binary a b = bind_res (py_binary_init a b) (\<lambda>(t, b'). register_target t b')"

definition py_binary_scons_rules :: "ctx \<Rightarrow> emit" where
  "py_binary_scons_rules x t =
     (let t1 = clone_env t in
      if t_type t = ''prebuilt_py_binary'' then Inr t1
      else
        let setup_file = path_join (t_path t) ''setup.py'';
            python_package = path_join (t_path t) (t_name t);
            init_file = path_join python_package ''__init__.py''
        in if \<not> x_exists x init_file
           then error_exit (''The __init__.py not existed in '' @ python_package)
           else if t_expanded_deps t \<noteq> [] then Inl NameError
           else
             let binary_files = (if x_exists x setup_file then [setup_file] else []) @ [init_file];
                 target_egg_file = target_file_path (x_build_path x) t [] [] @ ''.egg'';
                 python_binary_var =
                   generate_variable_name (t_path t) (t_name t) [] @ ''_python_binary_var''
             in Inr (write_rule (python_binary_var @ '' = '' @ env_name t @ ''.PythonBinary(['' @
                  dq target_egg_file @ ''], '' @ repr_strs binary_files @ '')'') t1))"

end
