(* ===== verification/SwigLibrary.thy ===== *)
theory SwigLibrary
  imports CcRules
begin

text \<open>
  \<open>swig_library_target.py\<close>: wrappers for python, java and php generated from swig interface
  files, the headers an interface file includes, and the rules of the three libraries.
\<close>

record swig_args =
  s_name :: string
  s_srcs :: arg
  s_deps :: arg
  s_warning :: string
  s_java_package :: string
  s_java_lib_packed :: bool
  s_optimize :: arg
  s_extra_swigflags :: arg
  s_kwargs :: "(string, pyval) dict"

text \<open>\<open>php_include\<close> is what the platform object found for PHP.\<close>

definition swig_library_init ::
  "string list \<Rightarrow> swig_args \<Rightarrow> blade \<Rightarrow> (target \<times> blade) res" where
  "swig_library_init php_include a b =
     bind_res (cc_target_init SwigLibrary ''swig_library''
       ((cc_defaults (s_name a))\<lparr>a_srcs := s_srcs a, a_deps := s_deps a, a_warning := s_warning a,
          a_optimize := s_optimize a, a_extra_cppflags := s_extra_swigflags a,
          a_kwargs := s_kwargs a\<rparr>) b) (\<lambda>(t, b').
     Inr (t\<lparr>t_data := (t_data t)\<lparr>d_cpperraswarn := s_warning a, d_java_package := s_java_package a,
            d_java_lib_packed := s_java_lib_packed a, d_java_dep_var := [],
            d_java_explict_dependency := [], d_python_vars := [], d_python_sources := [],
            d_php_inc_list := php_include\<rparr>\<rparr>, b'))"

definition swig_library :: "string list \<Rightarrow> swig_args \<Rightarrow> blade \<Rightarrow> blade res" where
  "swig_library php_include a b =
     bind_res (swig_library_init php_include a b) (\<lambda>(t, b'). register_target t b')"

section \<open>Generated files\<close>

definition swig_gen_file :: "string \<Rightarrow> ctx \<Rightarrow> target \<Rightarrow> string \<Rightarrow> string" where
  "swig_gen_file sfx x t src = path_joins (x_build_path x) [t_path t, drop_last 2 src @ sfx]"

definition pyswig_gen_python_file :: "ctx \<Rightarrow> target \<Rightarrow> string \<Rightarrow> string" where
  "pyswig_gen_python_file = swig_gen_file ''.py''"

definition pyswig_gen_file :: "ctx \<Rightarrow> target \<Rightarrow> string \<Rightarrow> string" where
  "pyswig_gen_file = swig_gen_file ''_pywrap.cxx''"

definition javaswig_gen_file :: "ctx \<Rightarrow> target \<Rightarrow> string \<Rightarrow> string" where
  "javaswig_gen_file = swig_gen_file ''_javawrap.cxx''"

definition phpswig_gen_file :: "ctx \<Rightarrow> target \<Rightarrow> string \<Rightarrow> string" where
  "phpswig_gen_file = swig_gen_file ''_phpwrap.cxx''"

definition include_quotes :: string where
  "include_quotes = [quote1, quote2, CHR 0x0D, CHR 0x0A]"

text \<open>One line of an interface file, with the headers found so far\<close>

definition swig_include_line :: "string \<Rightarrow> string list \<Rightarrow> string list res" where
  "swig_include_line line dep =
     (if startswith line ''#include'' \<or> startswith line ''%include'' then
        (case split_char CHR '' '' line of
           _ # w # _ \<Rightarrow>
             (let w = strip_chars include_quotes w
              in Inr (if CHR ''<'' \<in> set w \<or> w \<in> set dep then dep else dep @ [w]))
         | _ \<Rightarrow> Inl IndexError)
      else Inr dep)"

definition swig_extract_dependency_files :: "ctx \<Rightarrow> string \<Rightarrow> string list res" where
  "swig_extract_dependency_files x src =
     (case x_lines x src of
        None \<Rightarrow> Inl OSError
      | Some lines \<Rightarrow>
          bind_res (fold_res swig_include_line lines []) (\<lambda>dep. Inr (filter (x_exists x) dep)))"

section \<open>Rules\<close>

definition builder_rules :: "target \<Rightarrow> string \<Rightarrow> string \<Rightarrow> string \<Rightarrow> string \<Rightarrow> target \<Rightarrow> target" where
  "builder_rules t builder_name builder_alias cmd message u =
     write_rule (env_name t @ ''.Append(BUILDERS={'' @ dq builder_alias @ '' : '' @ builder_name @ ''})'')
       (write_rule (builder_name @ '' = Builder(action=MakeAction('' @ dq cmd @ '', '' @ message @ ''))'') u)"

definition swig_object_rule :: "target \<Rightarrow> string \<Rightarrow> string \<Rightarrow> target \<Rightarrow> target" where
  "swig_object_rule t obj file =
     write_rule (obj @ '' = '' @ env_name t @ ''.SharedObject(target='' @ dq file @
       '' + top_env['' @ dq ''OBJSUFFIX'' @ ''], source='' @ dq file @ '')'')"

definition warn_flag :: "target \<Rightarrow> string" where
  "warn_flag t = (if d_cpperraswarn (t_data t) = ''yes'' then '' -cpperraswarn'' else [])"

definition has_parts :: "target \<Rightarrow> bool" where
  "has_parts t \<longleftrightarrow> t_srcs t \<noteq> [] \<or> t_expanded_deps t \<noteq> []"

definition link_all_rule :: "target \<Rightarrow> string \<Rightarrow> string list \<Rightarrow> target \<Rightarrow> target" where
  "link_all_rule t var link_all u =
     (if link_all \<noteq> [] then write_rule (depends_rule t var (''['' @ join_str '', '' link_all @ '']'')) u
      else u)"

definition swig_py_src :: "ctx \<Rightarrow> string \<Rightarrow> string \<Rightarrow> target \<Rightarrow> target res" where
  "swig_py_src x builder_alias src t =
     (let pyswig_src = pyswig_gen_file x t src;
          src_path = path_join (t_path t) src;
          obj = generate_variable_name (t_path t) src ''python'' @ ''_object'';
          t1 = write_rule (env_name t @ ''.'' @ builder_alias @ ''(['' @ dq pyswig_src @ ''], '' @
                 dq src_path @ '')'') t;
          t2 = swig_object_rule t obj pyswig_src t1
      in bind_res (swig_extract_dependency_files x src_path) (\<lambda>dep_files.
         let t3 = write_rule (depends_rule t (dq pyswig_src) (repr_strs dep_files)) t2
         in Inr (t3\<lparr>t_data := (t_data t3)\<lparr>
              d_python_sources := d_python_sources (t_data t3) @ [pyswig_gen_python_file x t src],
              d_python_vars := d_python_vars (t_data t3) @ [obj]\<rparr>\<rparr>)))"

definition py_lib_path :: "ctx \<Rightarrow> target \<Rightarrow> string" where
  "py_lib_path x t =
     (let target_path = target_file_path (x_build_path x) t [] [];
          target_lib = basename target_path;
          target_lib = (if startswith target_lib ''_'' then target_lib else ''_'' @ target_lib)
      in path_join (dirname target_path) target_lib)"

definition swig_library_rules_py :: "ctx \<Rightarrow> emit" where
  "swig_library_rules_py x t =
     (let var_name = generate_variable_name (t_path t) (t_name t) ''dynamic_py'';
          builder_name = var_name @ ''_bld'';
          builder_alias = var_name @ ''_bld_alias'';
          cmd = ''swig -python -threads '' @ warn_flag t @ '' -c++ -I'' @ x_build_path x @
                '' -o $TARGET $SOURCE'';
          t1 = builder_rules t builder_name builder_alias cmd ''compile_swig_python_message'' t
      in bind_res (setup_cc_flags x t1) (\<lambda>t2.
         bind_res (fold_res (swig_py_src x builder_alias) (t_srcs t) t2) (\<lambda>t3.
         let objs = objs_name t @ ''_py'';
             t4 = write_rule (objs @ '' = ['' @ join_str '',''
                    (map (\<lambda>src. generate_variable_name (t_path t) src ''python'' @ ''_object'') (t_srcs t)) @ '']'') t3
         in bind_res (get_static_deps_lib_list x t) (\<lambda>(link_all, lib_str, whole_link_flags).
            let t5 = (if whole_link_flags \<noteq> []
                      then write_rule (env_name t @ ''.Append(LINKFLAGS=['' @ whole_link_flags @ ''])'') t4
                      else t4);
                t6 = (if has_parts t
                      then (let u = write_rule (var_name @ '' = '' @ env_name t @ ''.SharedLibrary('' @
                                      dq (py_lib_path x t) @ '', '' @ objs @ '', '' @ lib_str @
                                      '', SHLIBPREFIX = '' @ dq [] @ '')'') t5
                            in u\<lparr>t_data := (t_data u)\<lparr>
                                 d_python_sources := d_python_sources (t_data u) @ [py_lib_path x t @ ''.so''],
                                 d_python_vars := d_python_vars (t_data u) @ [var_name]\<rparr>\<rparr>)
                      else t5)
            in generate_target_explict_dependency (x_build x) [var_name]
                 (link_all_rule t var_name link_all t6)))))"

text \<open>\<open>_swig_library_rules_java\<close>: the flags, the output directory and whether it has to be made\<close>

definition swig_java_out_dir :: "ctx \<Rightarrow> target \<Rightarrow> string" where
  "swig_java_out_dir x t =
     (if d_java_package (t_data t) \<noteq> []
      then path_joins (x_build_path x) [t_path t, replace_str ''.'' [slash] (d_java_package (t_data t))]
      else path_join (x_build_path x) (t_path t))"

definition swig_java_flags :: "ctx \<Rightarrow> target \<Rightarrow> string" where
  "swig_java_flags x t =
     warn_flag t @
     (if d_java_package (t_data t) \<noteq> []
      then '' -package '' @ d_java_package (t_data t) @ '' -outdir '' @ swig_java_out_dir x t else [])"

definition swig_java_package_rules :: "ctx \<Rightarrow> string \<Rightarrow> target \<Rightarrow> target \<times> bool" where
  "swig_java_package_rules x var_name t =
     (if d_java_package (t_data t) = [] then (t, False)
      else
        let out_dir = swig_java_out_dir x t;
            cmd_var = var_name @ ''_swig_out_cmd_var'';
            make_dir = \<not> x_exists x out_dir;
            t1 = (if make_dir
                  then (let u = write_rule (cmd_var @ '' = '' @ env_name t @ ''.Command('' @
                                  dq (path_join out_dir ''dummy_file'') @ '', '' @ dq [] @ '', [Mkdir('' @
                                  dq out_dir @ '')])'') t
                        in u\<lparr>t_data := (t_data u)\<lparr>d_java_dep_var := d_java_dep_var (t_data u) @ [cmd_var]\<rparr>\<rparr>)
                  else t);
            t2 = (if d_generate_java (t_data t)
                  then t1\<lparr>t_data := (t_data t1)\<lparr>d_java_sources :=
                         Some (out_dir, path_join (x_build_path x) (t_path t), t_name t)\<rparr>\<rparr>
                  else t1)
        in (t2, make_dir))"

definition swig_java_src :: "ctx \<Rightarrow> string \<Rightarrow> string \<Rightarrow> bool \<Rightarrow> string \<Rightarrow> target \<Rightarrow> target res" where
  "swig_java_src x var_name builder_alias depend_outdir src t =
     (let javaswig_src = javaswig_gen_file x t src;
          src_path = path_join (t_path t) src;
          javaswig_var = var_name @ ''_'' @ regular_variable_name (basename src);
          obj = generate_variable_name (t_path t) src ''dynamic_java'' @ ''_object'';
          t1 = write_rule (javaswig_var @ '' = '' @ env_name t @ ''.'' @ builder_alias @ ''(['' @
                 dq javaswig_src @ ''], '' @ dq src_path @ '')'') t;
          t2 = (if depend_outdir
                then write_rule (depends_rule t javaswig_var
                       (dq (path_join (swig_java_out_dir x t) ''dummy_file''))) t1
                else t1);
          t3 = t2\<lparr>t_data := (t_data t2)\<lparr>
                 d_java_explict_dependency := d_java_explict_dependency (t_data t2) @ [javaswig_src],
                 d_java_dep_var := d_java_dep_var (t_data t2) @ [javaswig_var]\<rparr>\<rparr>;
          t4 = swig_object_rule t obj javaswig_src t3
      in bind_res (swig_extract_dependency_files x src_path) (\<lambda>dep_files.
         Inr (write_rule (depends_rule t (dq javaswig_src) (repr_strs dep_files)) t4)))"

definition swig_library_rules_java_helper :: "ctx \<Rightarrow> bool \<Rightarrow> string \<Rightarrow> string \<Rightarrow> emit" where
  "swig_library_rules_java_helper x depend_outdir var_name builder_alias t =
     (let t1 = (if x_java_include x \<noteq> []
                then write_rule (env_name t @ ''.Append(CPPPATH='' @ repr_strs (x_java_include x) @ '')'') t
                else t)
      in bind_res (fold_res (swig_java_src x var_name builder_alias depend_outdir) (t_srcs t) t1) (\<lambda>t2.
         let objs = objs_name t @ ''_dynamic_java'';
             t3 = write_rule (objs @ '' = ['' @ join_str '',''
                    (map (\<lambda>src. generate_variable_name (t_path t) src ''dynamic_java'' @ ''_object'') (t_srcs t)) @
                    '']'') t2;
             target_path_java = target_file_path (x_build_path x) t [] [] @ ''_java''
         in bind_res (get_static_deps_lib_list x t) (\<lambda>(link_all, lib_str, whole_link_flags).
            let t4 = (if has_parts t
                      then write_rule (var_name @ '' = '' @ env_name t @ ''.SharedLibrary('' @
                             dq target_path_java @ '', '' @ objs @ '', '' @ lib_str @ '')'') t3
                      else t3)
            in bind_res (generate_target_explict_dependency (x_build x) [var_name]
                 (link_all_rule t var_name link_all t4)) (\<lambda>t5.
               Inr (if d_generate_java (t_data t) \<and> d_java_lib_packed (t_data t)
                    then t5\<lparr>t_data := (t_data t5)\<lparr>d_jar_packing_file :=
                           Some (path_join (dirname target_path_java)
                                   (''lib'' @ basename target_path_java @ ''.so''), t_name t)\<rparr>\<rparr>
                    else t5)))))"

definition swig_library_rules_java :: "ctx \<Rightarrow> emit" where
  "swig_library_rules_java x t =
     (let var_name = generate_variable_name (t_path t) (t_name t) ''dynamic_java'';
          t1 = write_rule (env_name t @ ''.Append(CPPFLAGS = ['' @ dq ''-fno-strict-aliasing'' @ ''])'') t
      in case swig_java_package_rules x var_name t1 of (t2, depend_outdir) \<Rightarrow>
         let builder_name = var_name @ ''_bld'';
             builder_alias = var_name @ ''_bld_alias'';
             cmd = ''swig -java '' @ swig_java_flags x t @ '' -c++ -I'' @ x_build_path x @
                   '' -o $TARGET $SOURCE''
         in swig_library_rules_java_helper x depend_outdir var_name builder_alias
              (builder_rules t builder_name builder_alias cmd ''compile_swig_java_message'' t2))"

definition swig_php_src :: "ctx \<Rightarrow> string \<Rightarrow> string \<Rightarrow> target \<Rightarrow> target res" where
  "swig_php_src x builder_alias src t =
     (let phpswig_src = phpswig_gen_file x t src;
          src_path = path_join (t_path t) src;
          obj = generate_variable_name (t_path t) src ''php'' @ ''_object'';
          t1 = write_rule (env_name t @ ''.'' @ builder_alias @ ''(['' @ dq phpswig_src @ ''], '' @
                 dq src_path @ '')'') t;
          t2 = swig_object_rule t obj phpswig_src t1
      in bind_res (swig_extract_dependency_files x src_path) (\<lambda>dep_files.
         Inr (write_rule (depends_rule t (dq phpswig_src) (repr_strs dep_files)) t2)))"

definition swig_library_rules_php :: "ctx \<Rightarrow> emit" where
  "swig_library_rules_php x t =
     (let var_name = generate_variable_name (t_path t) (t_name t) [];
          builder_name = regular_variable_name (t_name t) @ ''_php_bld'';
          builder_alias = regular_variable_name (t_name t) @ ''_php_bld_alias'';
          cmd = ''swig -php '' @ warn_flag t @ '' -c++ -I'' @ x_build_path x @ '' -o $TARGET $SOURCE'';
          t1 = builder_rules t builder_name builder_alias cmd ''compile_swig_php_message'' t;
          t2 = (if d_php_inc_list (t_data t) \<noteq> []
                then write_rule (env_name t @ ''.Append(CPPPATH='' @
                       repr_strs (d_php_inc_list (t_data t)) @ '')'') t1
                else t1)
      in bind_res (fold_res (swig_php_src x builder_alias) (t_srcs t) t2) (\<lambda>t3.
         let objs = objs_name t @ ''_php'';
             t4 = write_rule (objs @ '' = ['' @ join_str '',''
                    (map (\<lambda>src. generate_variable_name (t_path t) src ''php'' @ ''_object'') (t_srcs t)) @ '']'') t3;
             target_path = target_file_path (x_build_path x) t (t_path t) (t_name t);
             target_path_php = path_join (dirname target_path) (basename target_path)
         in bind_res (get_static_deps_lib_list x t) (\<lambda>(link_all, lib_str, whole_link_flags).
            let t5 = (if has_parts t
                      then write_rule (var_name @ '' = '' @ env_name t @ ''.SharedLibrary('' @
                             dq target_path_php @ '', '' @ objs @ '', '' @ lib_str @ '', SHLIBPREFIX='' @
                             dq [] @ '')'') t4
                      else t4)
            in generate_target_explict_dependency (x_build x) [var_name]
                 (link_all_rule t var_name link_all t5))))"

definition swig_library_scons_rules :: "ctx \<Rightarrow> emit" where
  "swig_library_scons_rules x t =
     bind_res (cc_clone_env t) (\<lambda>t1.
     bind_res (swig_library_rules_py x t1) (\<lambda>t2.
     bind_res (if o_generate_java (x_options x) \<or> d_generate_java (t_data t)
               then swig_library_rules_java x t2 else Inr t2) (\<lambda>t3.
     if o_generate_php (x_options x) then
       (if d_php_inc_list (t_data t) = []
        then error_exit (''failed to build '' @ label (t_path t) (t_name t) @
               '', please install php modules'')
        else swig_library_rules_php x t3)
     else Inr t3)))"

end
