(* ===== verification/ThriftLibrary.thy ===== *)
theory ThriftLibrary
  imports CcRules
begin

text \<open>
  \<open>thrift_helper.py\<close> and \<open>thrift_library.py\<close>: what a thrift file declares, the files the
  thrift compiler generates from it, and the rules of a thrift library. \<open>lines\<close> gives the
  lines of the files that exist.
\<close>

section \<open>Parsing a thrift file\<close>

definition word_char :: "char \<Rightarrow> bool" where
  "word_char c \<longleftrightarrow> (let n = (of_char c :: nat) in
     48 \<le> n \<and> n \<le> 57 \<or> 65 \<le> n \<and> n \<le> 90 \<or> n = 95 \<or> 97 \<le> n \<and> n \<le> 122)"

definition cut_at :: "string \<Rightarrow> string \<Rightarrow> string" where
  "cut_at sep line = (case find_sub sep line of None \<Rightarrow> line | Some pos \<Rightarrow> take pos line)"

text \<open>The two regular expressions, matched at the start of the line\<close>

definition match_namespace :: "string \<Rightarrow> (string \<times> string) option" where
  "match_namespace line =
     (if \<not> startswith line ''namespace '' then None
      else let r = drop 10 line;
               lang = takeWhile word_char r;
               r' = dropWhile word_char r
           in if lang = [] \<or> \<not> startswith r' '' '' then None
              else let package = takeWhile (\<lambda>c. word_char c \<or> c = CHR ''.'') (drop 1 r')
                   in if package = [] then None else Some (lang, package))"

definition thrift_keywords :: "string list" where
  "thrift_keywords = [''const'', ''struct'', ''service'', ''enum'', ''exception'']"

fun match_keyword :: "string list \<Rightarrow> string \<Rightarrow> (string \<times> string) option" where
  "match_keyword [] line = None"
| "match_keyword (kw # kws) line =
     (let name = takeWhile word_char (drop (length kw + 1) line)
      in if startswith line (kw @ '' '') \<and> name \<noteq> [] then Some (kw, name)
         else match_keyword kws line)"

definition new_helper :: "string \<Rightarrow> thrift_helper" where
  "new_helper path = \<lparr>h_path = path, h_thrift_name = drop_last 7 (basename path),
     h_package_name = [], h_has_constants = False, h_enums = [], h_structs = [],
     h_exceptions = [], h_services = []\<rparr>"

definition add_declaration :: "string \<Rightarrow> string \<Rightarrow> thrift_helper \<Rightarrow> thrift_helper" where
  "add_declaration kw name h =
     (if kw = ''const'' then h\<lparr>h_has_constants := True\<rparr>
      else if kw = ''struct'' then h\<lparr>h_structs := h_structs h @ [name]\<rparr>
      else if kw = ''service'' then h\<lparr>h_services := h_services h @ [name]\<rparr>
      else if kw = ''enum'' then h\<lparr>h_enums := h_enums h @ [name]\<rparr>
      else if kw = ''exception'' then h\<lparr>h_exceptions := h_exceptions h @ [name]\<rparr>
      else h)"

definition parse_line :: "string \<Rightarrow> thrift_helper \<Rightarrow> thrift_helper" where
  "parse_line l h =
     (let line = strip_ws l in
      if startswith line ''//'' \<or> startswith line ''#'' then h
      else let line = cut_at ''#'' (cut_at ''//'' line) in
        case match_namespace line of
          Some (lang, package) \<Rightarrow> h\<lparr>h_package_name := dict_set lang package (h_package_name h)\<rparr>
        | None \<Rightarrow>
            (case match_keyword thrift_keywords line of
               None \<Rightarrow> h
             | Some (kw, name) \<Rightarrow> add_declaration kw name h))"

definition helper_empty :: "thrift_helper \<Rightarrow> bool" where
  "helper_empty h \<longleftrightarrow> \<not> h_has_constants h \<and> h_structs h = [] \<and> h_enums h = [] \<and>
     h_exceptions h = [] \<and> h_services h = []"

text \<open>\<open>ThriftHelper(path)\<close>\<close>

definition thrift_helper_init :: "(string \<Rightarrow> string list option) \<Rightarrow> string \<Rightarrow> thrift_helper res" where
  "thrift_helper_init lines path =
     (case lines path of
        None \<Rightarrow> error_exit (path @ '' is not a valid file.'')
      | Some ls \<Rightarrow>
          let h = fold parse_line ls (new_helper path)
          in if helper_empty h then error_exit (path @ '' is an empty thrift file.'') else Inr h)"

section \<open>Generated files\<close>

definition get_generated_cpp_files :: "thrift_helper \<Rightarrow> string list" where
  "get_generated_cpp_files h =
     map ((@) (h_thrift_name h)) [''_constants.cpp'', ''_constants.h'', ''_types.cpp'', ''_types.h''] @
     concat (map (\<lambda>service. [service @ ''.cpp'', service @ ''.h'']) (h_services h))"

definition package_path :: "string \<Rightarrow> string" where
  "package_path package =
     (case split_char CHR ''.'' package of p # ps \<Rightarrow> path_joins p ps | [] \<Rightarrow> [])"

definition get_generated_java_files :: "thrift_helper \<Rightarrow> string list" where
  "get_generated_java_files h =
     (let base_path = package_path (dict_get (h_package_name h) ''java'' []);
          files = (if h_has_constants h then [''Constants.java''] else []) @
            map (\<lambda>n. n @ ''.java'') (h_enums h @ h_structs h @ h_exceptions h @ h_services h)
      in map (path_join base_path) files)"

definition get_generated_py_files :: "thrift_helper \<Rightarrow> string list" where
  "get_generated_py_files h =
     (let base_path = package_path (dict_get (h_package_name h) ''py'' (h_thrift_name h))
      in map (path_join base_path)
           ([''constants.py'', ''ttypes.py''] @ map (\<lambda>s. s @ ''.py'') (h_services h)))"

section \<open>The constructor\<close>

text \<open>Each source is checked; the number of errors found, as the loop counts them.\<close>

definition thrift_name_errors :: "string \<Rightarrow> nat" where
  "thrift_name_errors src =
     (case rsplit_char1 CHR ''.'' (basename src) of
        [_, sfx] \<Rightarrow> if sfx = ''thrift'' then 0 else 1
      | _ \<Rightarrow> 1 + (if basename src = ''thrift'' then 0 else 1))"

definition check_thrift_srcs_name :: "string list \<Rightarrow> unit res" where
  "check_thrift_srcs_name ss =
     (if 0 < sum_list (map thrift_name_errors ss)
      then error_exit ''invalid thrift file names found.'' else Inr ())"

definition add_thrift_bin :: "pyval \<Rightarrow> target \<Rightarrow> target res" where
  "add_thrift_bin thrift_bin t =
     (case thrift_bin of
        PStr s \<Rightarrow>
          if startswith s ''//'' then
            bind_res (convert_string_to_target s) (\<lambda>dkey.
            Inr (t\<lparr>t_expanded_deps := add_new dkey (t_expanded_deps t),
                   t_deps := add_new dkey (t_deps t)\<rparr>))
          else Inr t
      | _ \<Rightarrow> Inl AttributeError)"

definition thrift_library_init ::
  "(string \<Rightarrow> string list option) \<Rightarrow> cc_args \<Rightarrow> blade \<Rightarrow> (target \<times> blade) res" where
  "thrift_library_init lines a b =
     (let ss = strs (a_srcs a) in
      bind_res (check_thrift_srcs_name ss) (\<lambda>_.
      bind_res (cc_target_init ThriftLibrary ''thrift_library''
        ((cc_defaults (a_name a))\<lparr>a_srcs := AList ss, a_deps := a_deps a, a_warning := [],
           a_optimize := a_optimize a, a_kwargs := a_kwargs a\<rparr>) b) (\<lambda>(t, b').
      bind_res (config_strs (b_config b') ''thrift_config'' ''thrift_libs'') (\<lambda>thrift_lib.
      bind_res (config_item (b_config b') ''thrift_config'' ''thrift'') (\<lambda>thrift_bin.
      bind_res (add_thrift_bin thrift_bin t) (\<lambda>t1.
      bind_res (add_hardcode_library thrift_lib (t1, b')) (\<lambda>(t2, b2).
      bind_res (fold_res (\<lambda>src hs. bind_res (thrift_helper_init lines (path_join (t_path t2) src))
                  (\<lambda>h. Inr (dict_set src h hs))) ss []) (\<lambda>helpers.
      Inr (t2\<lparr>t_data := (t_data t2)\<lparr>d_python_vars := [], d_python_sources := [],
             d_link_all_symbols := True, d_deprecated := a_deprecated a,
             d_java_explict_dependency := [], d_thrift_helpers := helpers\<rparr>\<rparr>, b2)))))))))"

definition thrift_library ::
  "(string \<Rightarrow> string list option) \<Rightarrow> cc_args \<Rightarrow> blade \<Rightarrow> blade res" where
  "thrift_library lines a b =
     bind_res (thrift_library_init lines a b) (\<lambda>(t, b'). register_target t b')"

section \<open>Rules\<close>

definition thrift_gen_files ::
  "(thrift_helper \<Rightarrow> string list) \<Rightarrow> ctx \<Rightarrow> target \<Rightarrow> string \<Rightarrow> string list res" where
  "thrift_gen_files gen x t src =
     bind_res (dict_index (d_thrift_helpers (t_data t)) src) (\<lambda>h.
     Inr (map (target_file_path (x_build_path x) t (t_path t)) (gen h)))"

definition thrift_java_rule :: "ctx \<Rightarrow> string \<Rightarrow> target \<Rightarrow> target res" where
  "thrift_java_rule x src t =
     bind_res (thrift_gen_files get_generated_java_files x t src) (\<lambda>files.
     let t1 = write_rule (env_name t @ ''.ThriftJava('' @ repr_strs files @ '', '' @
                dq (path_join (t_path t) src) @ '')'') t
     in case files of
          [] \<Rightarrow> Inl IndexError
        | f # _ \<Rightarrow>
            Inr (t1\<lparr>t_data := (t_data t1)\<lparr>
                   d_java_sources := Some (dirname f, path_join (x_build_path x) (t_path t), t_name t),
                   d_java_explict_dependency := d_java_explict_dependency (t_data t1) @ files\<rparr>\<rparr>))"

definition thrift_python_rule :: "ctx \<Rightarrow> string \<Rightarrow> target \<Rightarrow> target res" where
  "thrift_python_rule x src t =
     bind_res (thrift_gen_files get_generated_py_files x t src) (\<lambda>files.
     let py_cmd_var = generate_variable_name (t_path t) (t_name t) [] @ ''_python'';
         t1 = write_rule (py_cmd_var @ '' = '' @ env_name t @ ''.ThriftPython('' @ repr_strs files @
                '', '' @ dq (path_join (t_path t) src) @ '')'') t
     in Inr (t1\<lparr>t_data := (t_data t1)\<lparr>
          d_python_vars := d_python_vars (t_data t1) @ [py_cmd_var],
          d_python_sources := d_python_sources (t_data t1) @ files\<rparr>\<rparr>))"

definition thrift_object :: "target \<Rightarrow> string \<Rightarrow> string" where
  "thrift_object t file = generate_variable_name (t_path t) file [] @ ''_object''"

definition thrift_object_rule :: "target \<Rightarrow> string \<Rightarrow> target \<Rightarrow> target" where
  "thrift_object_rule t file =
     write_rule (thrift_object t file @ '' = '' @ env_name t @ ''.SharedObject(target='' @ dq file @
       '' + top_env['' @ dq ''OBJSUFFIX'' @ ''], source='' @ dq file @ '')'')"

text \<open>One round of the loop over the sources: the target and the \<open>.cpp\<close> files so far\<close>

definition thrift_cpp_rule :: "ctx \<Rightarrow> string \<Rightarrow> target \<times> string list \<Rightarrow> (target \<times> string list) res" where
  "thrift_cpp_rule x src st =
     (case st of (t, sources) \<Rightarrow>
      bind_res (thrift_gen_files get_generated_cpp_files x t src) (\<lambda>files.
      let cpps = filter (\<lambda>f. endswith f ''.cpp'') files;
          t1 = write_rule (env_name t @ ''.Thrift('' @ repr_strs files @ '', '' @
                 dq (path_join (t_path t) src) @ '')'') t
      in Inr (fold (thrift_object_rule t) cpps t1, sources @ cpps)))"

definition thrift_java :: "ctx \<Rightarrow> target \<Rightarrow> bool" where
  "thrift_java x t \<longleftrightarrow>
     o_generate_java (x_options x) \<or> d_generate_java (t_data t) \<or> t_key t \<in> set (x_direct x)"

definition thrift_python :: "ctx \<Rightarrow> target \<Rightarrow> bool" where
  "thrift_python x t \<longleftrightarrow>
     o_generate_python (x_options x) \<or> d_generate_python (t_data t) \<or> t_key t \<in> set (x_direct x)"

definition thrift_library_scons_rules :: "ctx \<Rightarrow> emit" where
  "thrift_library_scons_rules x t =
     bind_res (cc_clone_env t) (\<lambda>t1.
     bind_res (if thrift_java x t then fold_res (thrift_java_rule x) (t_srcs t) t1 else Inr t1) (\<lambda>t2.
     bind_res (if thrift_python x t then fold_res (thrift_python_rule x) (t_srcs t) t2 else Inr t2) (\<lambda>t3.
     bind_res (setup_cc_flags x t3) (\<lambda>t4.
     bind_res (fold_res (thrift_cpp_rule x) (t_srcs t) (t4, [])) (\<lambda>(t5, sources).
     let t6 = write_rule (depends_rule t (objs_name t) (repr_strs sources))
                (write_rule (objs_name t @ '' = ['' @ join_str '','' (map (thrift_object t) sources) @ '']'') t5)
     in bind_res (cc_library_rule x t6) (\<lambda>t7.
        if build_dynamic x t then dynamic_cc_library x t7 else Inr t7))))))"

end
