(* ===== verification/JavaJar.thy ===== *)
theory JavaJar
  imports CcTargets
begin

text \<open>
  \<open>java_jar_target.py\<close>: java archives. The rules of one jar thread a state of their own
  beside the target: the paths for which a command was written, the variables of the copy
  commands, the directories the sources of the dependencies are copied to, and the class
  path. These are attributes of the target object that only its \<open>scons_rules\<close> uses, so they
  start empty. \<open>x_set_order\<close> is the order in which \<open>list(set(...))\<close> lists a set.
\<close>

record java_args =
  j_name :: string
  j_srcs :: arg
  j_deps :: arg
  j_prebuilt :: bool
  j_pre_build :: bool
  j_kwargs :: "(string, pyval) dict"

section \<open>The constructor\<close>

definition jar_file :: "target \<Rightarrow> string" where
  "jar_file t = t_name t @ ''.jar''"

definition prebuilt_java_jar_build_path :: "ctx \<Rightarrow> target \<Rightarrow> string" where
  "prebuilt_java_jar_build_path x t = path_joins (x_build_path x) [t_path t, jar_file t]"

definition prebuilt_java_jar_src_path :: "target \<Rightarrow> string" where
  "prebuilt_java_jar_src_path t = path_join (t_path t) (jar_file t)"

definition java_jar_init :: "java_args \<Rightarrow> blade \<Rightarrow> (target \<times> blade) res" where
  "java_jar_init a b =
     bind_res (target_init JavaJarTarget (j_name a) ''java_jar'' (strs (j_srcs a)) (strs (j_deps a))
                 (j_kwargs a) b) (\<lambda>(t, b').
     let t1 = (if j_prebuilt a \<or> j_pre_build a
               then t\<lparr>t_type := ''prebuilt_java_jar'',
                      t_data := (t_data t)\<lparr>d_jar_class_path := prebuilt_java_jar_src_path t\<rparr>\<rparr>
               else t)
     in Inr (t1\<lparr>t_data := (t_data t1)\<lparr>d_java_jars := []\<rparr>\<rparr>, b'))"

definition java_jar :: "java_args \<Rightarrow> blade \<Rightarrow> blade res" where
  "java_jar a b =
     bind_res (java_jar_init a b) (\<lambda>(t, b').
     register_target t
       (if j_pre_build a
        then warn (label (t_path t) (t_name t) @ '': '' @ dq ''pre_build'' @
               '' has been deprecated, please use '' @ dq ''prebuilt'') b'
        else b'))"

section \<open>Rules\<close>

record jar_state =
  js_target :: target
  js_cmd_list :: "string list"
  js_cmd_vars :: "string list"
  js_after :: "string list"
  js_classpath :: "string list"

definition js_write :: "string \<Rightarrow> jar_state \<Rightarrow> jar_state" where
  "js_write r s = s\<lparr>js_target := write_rule r (js_target s)\<rparr>"

definition java_class_root :: "ctx \<Rightarrow> target \<Rightarrow> string" where
  "java_class_root x t = path_joins (x_build_path x) [t_path t, t_name t @ ''_classes'']"

definition dep_is_jar_to_compile :: "ctx \<Rightarrow> tkey \<Rightarrow> bool res" where
  "dep_is_jar_to_compile x dep =
     bind_res (dict_index (x_build x) dep) (\<lambda>d.
     Inr (has_sub ''java_jar'' (t_type d) \<and> \<not> has_sub ''prebuilt'' (t_type d)))"

definition mkdir_rule :: "target \<Rightarrow> string \<Rightarrow> string" where
  "mkdir_rule t dir =
     env_name t @ ''.Command('' @ dq dir @ '', '' @ dq [] @ '', [Mkdir('' @ dq dir @ '')])''"

definition copy_rule :: "target \<Rightarrow> string \<Rightarrow> string \<Rightarrow> string \<Rightarrow> string \<Rightarrow> string" where
  "copy_rule t var file src cmd =
     var @ '' = '' @ env_name t @ ''.Command('' @ dq file @ '', '' @ dq src @ '', ['' @ dq cmd @ ''])''"

definition copy_java :: "string \<Rightarrow> string \<Rightarrow> string" where
  "copy_java src dst = ''cp '' @ src @ ''/*.java '' @ dst"

text \<open>
  One round of \<open>_java_jar_rules_prepare_dep\<close>: the state, \<open>cmd_var_idx\<close>, \<open>dep_cmd_var\<close> and
  the new source list.
\<close>

definition prepare_dep_step ::
  "ctx \<Rightarrow> target \<Rightarrow> string \<Rightarrow> string \<times> string \<times> string \<Rightarrow>
   jar_state \<times> nat \<times> string \<times> string list \<Rightarrow> (jar_state \<times> nat \<times> string \<times> string list) res" where
  "prepare_dep_step x t new_src dep_src st =
     (case st of (s, idx, dep_cmd_var, new_list) \<Rightarrow>
      bind_res (relative_path (x_cwd x) (fst dep_src) (fst (snd dep_src))) (\<lambda>dep_dir.
      let cmd_var = t_name t @ ''_cmd_dep_var_'';
          new_path = path_join new_src dep_dir;
          new_list' = (if dep_dir \<noteq> ''.'' then new_list @ [new_path] else new_list);
          var1 = cmd_var @ dec_nat idx;
          dep_cmd_var' = (if idx = 0 then var1 else dep_cmd_var);
          fresh = new_path \<notin> set (js_cmd_list s);
          s1 = (if fresh
                then (js_write (var1 @ '' = '' @ mkdir_rule t new_path) s)
                       \<lparr>js_cmd_vars := js_cmd_vars s @ [var1], js_cmd_list := js_cmd_list s @ [new_path]\<rparr>
                else s);
          idx1 = (if fresh then idx + 1 else idx);
          var2 = cmd_var @ dec_nat idx1;
          src_dir = (if dep_dir \<noteq> ''.'' then fst dep_src else []);
          s2 = js_write (copy_rule t var2 (new_path @ ''/dummy_file_'' @ dec_nat (idx1 + 1)) src_dir
                 (copy_java (fst dep_src) new_path)) s1
      in Inr (s2\<lparr>js_cmd_vars := js_cmd_vars s2 @ [var2]\<rparr>, idx1 + 1, dep_cmd_var', new_list')))"

definition explict_files_rule :: "ctx \<Rightarrow> target \<Rightarrow> string \<Rightarrow> tkey \<Rightarrow> jar_state \<Rightarrow> jar_state res" where
  "explict_files_rule x t var dep s =
     bind_res (x_data (x_build x) dep) (\<lambda>d.
     Inr (if d_java_explict_dependency d \<noteq> []
          then js_write (env_name t @ ''.Depends('' @ var @ '', '' @
                 repr_strs (d_java_explict_dependency d) @ '')'') s
          else s))"

definition java_jar_prepare_dep ::
  "ctx \<Rightarrow> target \<Rightarrow> (string \<times> string \<times> string) list \<Rightarrow> string \<Rightarrow> jar_state \<Rightarrow> jar_state res" where
  "java_jar_prepare_dep x t dep_sources new_src s =
     bind_res (fold_res (prepare_dep_step x t new_src) dep_sources (s, 0, [], []))
       (\<lambda>(s1, _, dep_cmd_var, new_list).
     bind_res (if dep_cmd_var \<noteq> []
               then fold_res (explict_files_rule x t dep_cmd_var) (t_expanded_deps t) s1 else Inr s1) (\<lambda>s2.
     bind_res (generate_target_explict_dependency (x_build x) (js_cmd_vars s2) (js_target s2)) (\<lambda>u.
     Inr (s2\<lparr>js_target := u, js_after := new_list\<rparr>))))"

definition java_jar_dep_path :: "ctx \<Rightarrow> tkey \<Rightarrow> string list res" where
  "java_jar_dep_path x jar =
     bind_res (dep_is_jar_to_compile x jar) (\<lambda>compiled.
     Inr (if compiled then [path_joins (x_build_path x) [fst jar, snd jar @ ''.jar'']] else []))"

definition java_jar_deps_list :: "ctx \<Rightarrow> target \<Rightarrow> string list res" where
  "java_jar_deps_list x t =
     bind_res (map_res (java_jar_dep_path x) (t_expanded_deps t)) (\<lambda>l. Inr (concat l))"

definition after_slash :: "string \<Rightarrow> string" where
  "after_slash p = (if slash \<in> set p then drop 1 (dropWhile (\<lambda>c. c \<noteq> slash) p) else p)"

text \<open>One source directory: the state and the directories the sources were copied to\<close>

definition compile_src_step ::
  "ctx \<Rightarrow> target \<Rightarrow> string \<Rightarrow> string \<Rightarrow> jar_state \<times> string list \<Rightarrow> (jar_state \<times> string list) res" where
  "compile_src_step x t new_src src_dir st =
     (case st of (s, new_dirs) \<Rightarrow>
      bind_res (relative_path (x_cwd x) src_dir (t_path t)) (\<lambda>rel_path.
      let new_src_path = path_join new_src (after_slash rel_path);
          cmd_var = t_name t @ ''_cmd_src_var_'';
          fresh = new_src_path \<notin> set (js_cmd_list s);
          s1 = (if fresh
                then (js_write (cmd_var @ dec_nat 0 @ '' = '' @ mkdir_rule t new_src_path) s)
                       \<lparr>js_cmd_list := js_cmd_list s @ [new_src_path]\<rparr>
                else s);
          idx = (if fresh then 1 else 0);
          var = cmd_var @ dec_nat idx;
          s2 = js_write (copy_rule t var (new_src_path @ ''/dummy_src_file_'' @ dec_nat (idx + 1)) src_dir
                 (copy_java src_dir new_src_path)) s1
      in Inr (s2\<lparr>js_cmd_vars := js_cmd_vars s2 @ [var]\<rparr>, new_dirs @ [new_src_path])))"

definition show_val :: "pyval \<Rightarrow> string" where
  "show_val v = (case v of PStr s \<Rightarrow> s | _ \<Rightarrow> repr_val v)"

definition version_flag :: "string \<Rightarrow> pyval \<Rightarrow> string" where
  "version_flag flag v = (if truthy v then '' -'' @ flag @ '' '' @ show_val v else [])"

definition javac_command ::
  "ctx \<Rightarrow> target \<Rightarrow> string \<Rightarrow> string list \<Rightarrow> string list \<Rightarrow> string res" where
  "javac_command x t new_src classpath source_dirs =
     bind_res (config_item (x_config x) ''java_config'' ''source_version'') (\<lambda>source_version.
     bind_res (config_item (x_config x) ''java_config'' ''target_version'') (\<lambda>target_version.
     Inr (''javac'' @ version_flag ''source'' source_version @ version_flag ''target'' target_version @
          (if join_str '':'' classpath = [] then [] else '' -classpath '' @ join_str '':'' classpath) @
          '' -d '' @ java_class_root x t @ '' -sourcepath '' @ new_src @ '' '' @
          join_str '' '' (map (\<lambda>d. path_join d ''*.java'') source_dirs))))"

definition dep_jars_rule :: "ctx \<Rightarrow> target \<Rightarrow> string \<Rightarrow> tkey \<Rightarrow> jar_state \<Rightarrow> jar_state res" where
  "dep_jars_rule x t var dep s =
     bind_res (x_data (x_build x) dep) (\<lambda>d.
     Inr (if d_java_jars d \<noteq> []
          then js_write (env_name t @ ''.Depends('' @ var @ '', '' @ repr_strs (d_java_jars d) @ '')'') s
          else s))"

definition js_depends :: "target \<Rightarrow> string \<Rightarrow> string \<Rightarrow> jar_state \<Rightarrow> jar_state" where
  "js_depends t var dep s = js_write (env_name t @ ''.Depends('' @ var @ '', '' @ dep @ '')'') s"

definition java_classes_var :: "target \<Rightarrow> string" where
  "java_classes_var t = generate_variable_name (t_path t) (t_name t) [] @ ''_classes''"

definition java_jar_compile_src ::
  "ctx \<Rightarrow> target \<Rightarrow> string list \<Rightarrow> string \<Rightarrow> jar_state \<Rightarrow> jar_state res" where
  "java_jar_compile_src x t source_list new_src s =
     bind_res (java_jar_deps_list x t) (\<lambda>jar_list.
     bind_res (fold_res (compile_src_step x t new_src) source_list (s, [])) (\<lambda>(s1, new_dirs).
     bind_res (javac_command x t new_src (js_classpath s @ jar_list)
                 (add_all_new (js_after s1 @ new_dirs) [])) (\<lambda>cmd.
     let var = java_classes_var t;
         dummy = path_join (java_class_root x t) (t_name t @ ''_dummy_file_0'');
         s2 = js_write (copy_rule t var dummy [] cmd) s1
     in bind_res (fold_res (dep_jars_rule x t var) (t_expanded_deps t) s2) (\<lambda>s3.
        bind_res (generate_target_explict_dependency (x_build x) [var] (js_target s3)) (\<lambda>u.
        let s4 = fold (js_depends t var) (js_cmd_vars s3) (s3\<lparr>js_target := u\<rparr>)
        in Inr (s4\<lparr>js_classpath := js_classpath s4 @ [java_class_root x t]\<rparr>))))))"

text \<open>
  \<open>_java_jar_rules_make_jar\<close>. The files to pack: the state, the commands written so far
  and the index of the next.
\<close>

definition packing_file_rule ::
  "ctx \<Rightarrow> target \<Rightarrow> string \<Rightarrow> tkey \<Rightarrow> jar_state \<times> string list \<times> nat \<Rightarrow>
   (jar_state \<times> string list \<times> nat) res" where
  "packing_file_rule x t class_path key st =
     (case st of (s, cmds, idx) \<Rightarrow>
      bind_res (x_data (x_build x) key) (\<lambda>d.
      Inr (case d_jar_packing_files d of
             None \<Rightarrow> (s, cmds, idx)
           | Some f \<Rightarrow>
               let var = t_name t @ ''_cmd_jar_var_'' @ dec_nat idx;
                   f_dst = path_join class_path (basename (fst f))
               in if f_dst \<in> set (js_cmd_list s) then (s, cmds, idx)
                  else ((js_write (var @ '' = '' @ env_name t @ ''.Command('' @ dq f_dst @ '', '' @
                           dq (fst f) @ '', '' @ replicate 28 CHR '' '' @ ''[Copy('' @ dq ''$TARGET'' @
                           '','' @ dq ''$SOURCE'' @ '')])'') s)
                          \<lparr>js_cmd_list := js_cmd_list s @ [f_dst]\<rparr>, cmds @ [var], idx + 1))))"

definition make_jar_step ::
  "ctx \<Rightarrow> target \<Rightarrow> string list \<Rightarrow> string \<Rightarrow> jar_state \<times> string list \<times> nat \<Rightarrow>
   (jar_state \<times> string list \<times> nat) res" where
  "make_jar_step x t classes_vars class_path st =
     (case st of (s, cmds, idx) \<Rightarrow>
      let cmd_jar = t_name t @ ''_cmd_jar'';
          build_file = path_join (x_root_dir x) ''BLADE_ROOT'';
          dst = path_join class_path ''BLADE_ROOT'';
          fresh = dst \<notin> set (js_cmd_list s);
          s1 = (if fresh
                then (js_write (cmd_jar @ '' = '' @ env_name t @ ''.Command('' @ dq dst @ '', '' @
                        dq build_file @ '', [Copy('' @ dq dst @ '', '' @ dq build_file @ '')])'') s)
                       \<lparr>js_cmd_list := js_cmd_list s @ [dst]\<rparr>
                else s);
          cmds1 = (if fresh then cmds @ [cmd_jar] else cmds)
      in bind_res (fold_res (packing_file_rule x t class_path) (t_expanded_deps t) (s1, cmds1, idx))
           (\<lambda>(s2, cmds2, idx2).
         bind_res (relative_path (x_cwd x) class_path (path_join (x_build_path x) (t_path t))) (\<lambda>rel_path.
         let jar_var = generate_variable_name (t_path t) (t_name t) [] @ ''_'' @
                         replace_str [slash] ''_'' rel_path @ ''_jar'';
             jar_target = target_file_path (x_build_path x) t [] [] @ ''.jar'';
             remove_var = ''cmd_remove_'' @ jar_var;
             removed = (jar_target \<notin> set (js_cmd_list s2) \<and> x_exists x jar_target);
             s3 = (if removed
                   then js_write (remove_var @ '' = '' @ env_name t @ ''.Command('' @
                          dq (jar_target @ ''.jar'') @ '', '' @ dq [] @ '', [Delete('' @ dq jar_target @ '')])'') s2
                   else s2);
             s4 = js_write (jar_var @ '' = '' @ env_name t @ ''.BladeJar(['' @ dq jar_target @ ''], '' @
                    dq dst @ '')'') s3;
             s5 = s4\<lparr>js_target := (js_target s4)\<lparr>t_data := (t_data (js_target s4))
                      \<lparr>d_java_jars := d_java_jars (t_data (js_target s4)) @ [jar_target]\<rparr>\<rparr>\<rparr>;
             s6 = fold (js_depends t jar_var) (filter (\<lambda>v. v \<noteq> []) classes_vars @ cmds2) s5;
             s7 = (if removed then js_depends t jar_var remove_var s6 else s6)
         in Inr (s7, cmds2, idx2))))"

text \<open>The classes are packed from the one directory that \<open>_java_jar_rules_compile_src\<close> adds.\<close>

definition java_jar_make_jar :: "ctx \<Rightarrow> target \<Rightarrow> jar_state \<Rightarrow> jar_state res" where
  "java_jar_make_jar x t s =
     bind_res (fold_res (make_jar_step x t [java_classes_var t]) [java_class_root x t] (s, [], 0))
       (\<lambda>(s', _, _). Inr s')"

definition js_mkdir :: "target \<Rightarrow> string \<Rightarrow> jar_state \<Rightarrow> jar_state" where
  "js_mkdir t dir s =
     (if dir \<in> set (js_cmd_list s) then s
      else (js_write (mkdir_rule t dir) s)\<lparr>js_cmd_list := js_cmd_list s @ [dir]\<rparr>)"

definition java_jar_scons_rules :: "ctx \<Rightarrow> emit" where
  "java_jar_scons_rules x t =
     (let t1 = clone_env t in
      if t_type t = ''prebuilt_java_jar'' then
        Inr (write_rule (''Command('' @ dq (prebuilt_java_jar_build_path x t) @ '', '' @
          dq (prebuilt_java_jar_src_path t) @ '', Copy('' @ dq ''$TARGET'' @ '', '' @ dq ''$SOURCE'' @ ''))'') t1)
      else
        bind_res (map_res (x_data (x_build x)) (t_expanded_deps t)) (\<lambda>datas.
        let vars = concat (map d_java_dep_var datas);
            sources = concat (map (\<lambda>d. case d_java_sources d of None \<Rightarrow> [] | Some s \<Rightarrow> [s]) datas);
            classpath = filter (\<lambda>p. p \<noteq> []) (map d_jar_class_path datas);
            dep_sources = x_set_order x sources;
            new_src_dir = path_joins (x_build_path x) [t_path t, t_name t @ ''_src''];
            s0 = \<lparr>js_target = t1, js_cmd_list = [], js_cmd_vars = vars, js_after = [],
                  js_classpath = classpath\<rparr>;
            s1 = js_mkdir t new_src_dir (js_mkdir t (java_class_root x t) s0);
            source_list = add_all_new (map (path_join (t_path t)) (t_srcs t)) []
        in bind_res (if dep_sources \<noteq> [] then java_jar_prepare_dep x t dep_sources new_src_dir s1
                     else Inr s1) (\<lambda>s2.
           bind_res (java_jar_compile_src x t source_list new_src_dir s2) (\<lambda>s3.
           bind_res (java_jar_make_jar x t s3) (\<lambda>s4.
           Inr (js_target s4))))))"

end
