(* ===== verification/Emitter.thy ===== *)
theory Emitter
  imports ProtoLibrary GenRule LexYacc ResourceLibrary PyTargets SwigLibrary ThriftLibrary JavaJar
begin

text \<open>
  What all \<open>scons_rules\<close> have in common: they leave the identity of their target alone (name,
  path, type, sources and dependencies) and only append to its rule buffer. The locale
  \<open>emitter\<close> states this contract; its client is the loop that collects the rules of all
  targets. The lemmas below discharge the contract for every target class.
\<close>

section \<open>The contract\<close>

definition ident :: "target \<Rightarrow> target" where
  "ident t = t\<lparr>t_rules := [], t_var_name := None, t_file_and_link := None, t_data := empty_data\<rparr>"

definition emits :: "target \<Rightarrow> target \<Rightarrow> bool" where
  "emits t u \<longleftrightarrow> ident u = ident t \<and> (\<exists>r. t_rules u = t_rules t @ r)"

named_theorems emits_intro \<open>steps that keep the contract\<close>

lemma emits_refl [emits_intro, simp]: "emits t t"
  by (simp add: emits_def)

lemma emits_trans: "emits t u \<Longrightarrow> emits u v \<Longrightarrow> emits t v"
  by (auto simp: emits_def)

lemma emits_write [emits_intro]: "emits t u \<Longrightarrow> emits t (write_rule r u)"
  by (auto simp: emits_def write_rule_def ident_def)

lemma emits_fields [emits_intro]:
  "emits t u \<Longrightarrow> emits t (u\<lparr>t_data := d\<rparr>)"
  "emits t u \<Longrightarrow> emits t (u\<lparr>t_var_name := v\<rparr>)"
  "emits t u \<Longrightarrow> emits t (u\<lparr>t_file_and_link := l\<rparr>)"
  by (auto simp: emits_def ident_def)

lemma emits_if [emits_intro]: "emits t u \<Longrightarrow> emits t v \<Longrightarrow> emits t (if b then u else v)"
  by simp

lemma emits_fold [emits_intro]:
  "(\<And>x u. emits t u \<Longrightarrow> emits t (f x u)) \<Longrightarrow> emits t u \<Longrightarrow> emits t (fold f xs u)"
  by (induction xs arbitrary: u) auto

lemma emits_fold_res:
  assumes "fold_res f xs u = Inr v" and "emits t u"
    and "\<And>x u v. f x u = Inr v \<Longrightarrow> emits t u \<Longrightarrow> emits t v"
  shows "emits t v"
  using fold_res_invariant [of xs "emits t" f u v] assms by blast

lemma emitsD:
  "emits t u \<Longrightarrow> t_class u = t_class t \<and> t_key u = t_key t \<and> t_name u = t_name t \<and>
     t_path u = t_path t \<and> t_type u = t_type t \<and> t_srcs u = t_srcs t \<and> t_deps u = t_deps t \<and>
     t_expanded_deps u = t_expanded_deps t"
  by (cases t, cases u) (simp add: emits_def ident_def)

section \<open>The shared steps\<close>

lemma clone_env_emits [emits_intro]: "emits t u \<Longrightarrow> emits t (clone_env u)"
  by (simp add: clone_env_def emits_write)

lemma cc_clone_env_emits: "cc_clone_env u = Inr v \<Longrightarrow> emits t u \<Longrightarrow> emits t v"
  by (auto simp: cc_clone_env_def intro: emits_intro split: if_splits)

lemma explict_dep_emits: "explict_dep bt fs d u = Inr v \<Longrightarrow> emits t u \<Longrightarrow> emits t v"
  by (auto simp: explict_dep_def bind_res_eq_Inr intro: emits_intro split: if_splits option.splits)

lemma explict_dependency_emits:
  "generate_target_explict_dependency bt fs u = Inr v \<Longrightarrow> emits t u \<Longrightarrow> emits t v"
  by (auto simp: generate_target_explict_dependency_def intro: emits_fold_res explict_dep_emits
      split: if_splits)

lemma setup_cc_flags_emits: "setup_cc_flags x u = Inr v \<Longrightarrow> emits t u \<Longrightarrow> emits t v"
  by (auto simp: setup_cc_flags_def bind_res_eq_Inr Let_def intro!: emits_intro)

lemma setup_as_flags_emits: "setup_as_flags x u = Inr v \<Longrightarrow> emits t u \<Longrightarrow> emits t v"
  by (auto simp: setup_as_flags_def bind_res_eq_Inr intro!: emits_intro)

lemma setup_extra_link_flags_emits: "setup_extra_link_flags u = Inr v \<Longrightarrow> emits t u \<Longrightarrow> emits t v"
  by (auto simp: setup_extra_link_flags_def intro!: emits_intro)

lemma append_linkflags_emits [emits_intro]: "emits t u \<Longrightarrow> emits t (append_linkflags w l u)"
  by (simp add: append_linkflags_def emits_write)

lemma requires_version_emits [emits_intro]: "emits t u \<Longrightarrow> emits t (requires_version w u)"
  by (simp add: requires_version_def emits_write append_linkflags_emits)

lemmas step_emits = cc_clone_env_emits explict_dependency_emits setup_cc_flags_emits
  setup_as_flags_emits setup_extra_link_flags_emits

section \<open>The C++ targets\<close>

lemma prebuilt_cc_library_emits: "prebuilt_cc_library x b u = Inr v \<Longrightarrow> emits t u \<Longrightarrow> emits t v"
  by (auto simp: prebuilt_cc_library_def Let_def intro!: emits_intro)

lemma object_rule_emits [emits_intro]: "emits t u \<Longrightarrow> emits t (object_rule x src u)"
  by (simp add: object_rule_def Let_def emits_write)

lemma cc_objects_rules_emits: "cc_objects_rules x u = Inr v \<Longrightarrow> emits t u \<Longrightarrow> emits t v"
  by (auto simp: cc_objects_rules_def bind_res_eq_Inr Let_def intro!: emits_intro
      dest!: step_emits split: if_splits)

lemma cc_library_rule_emits: "cc_library_rule x u = Inr v \<Longrightarrow> emits t u \<Longrightarrow> emits t v"
  by (auto simp: cc_library_rule_def Let_def intro: emits_intro explict_dependency_emits)

lemma dynamic_cc_library_emits: "dynamic_cc_library x u = Inr v \<Longrightarrow> emits t u \<Longrightarrow> emits t v"
  by (auto simp: dynamic_cc_library_def bind_res_eq_Inr Let_def
      intro!: emits_intro elim!: explict_dependency_emits setup_extra_link_flags_emits
      split: if_splits)

lemmas cc_emits = step_emits prebuilt_cc_library_emits cc_objects_rules_emits
  cc_library_rule_emits dynamic_cc_library_emits

lemma cc_library_emits: "cc_library_scons_rules x t = Inr v \<Longrightarrow> emits t v"
  by (auto simp: cc_library_scons_rules_def bind_res_eq_Inr Let_def split: if_splits
      elim!: cc_emits)

lemma cc_binary_rule_emits: "cc_binary_rule x u = Inr v \<Longrightarrow> emits t u \<Longrightarrow> emits t v"
  by (auto simp: cc_binary_rule_def bind_res_eq_Inr Let_def
      intro!: emits_intro elim!: cc_emits)

lemma dynamic_cc_binary_emits: "dynamic_cc_binary x u = Inr v \<Longrightarrow> emits t u \<Longrightarrow> emits t v"
  by (auto simp: dynamic_cc_binary_def bind_res_eq_Inr Let_def
      intro!: emits_intro elim!: cc_emits)

lemma cc_binary_emits: "cc_binary_scons_rules x t = Inr v \<Longrightarrow> emits t v"
  by (auto simp: cc_binary_scons_rules_def bind_res_eq_Inr split: if_splits
      elim!: cc_emits cc_binary_rule_emits dynamic_cc_binary_emits)

lemma cc_plugin_emits: "cc_plugin_scons_rules x t = Inr v \<Longrightarrow> emits t v"
  by (auto simp: cc_plugin_scons_rules_def bind_res_eq_Inr Let_def
      intro!: emits_intro elim!: cc_emits)

section \<open>Generated sources\<close>

lemma proto_java_rule_emits: "proto_java_rule x src u = Inr v \<Longrightarrow> emits t u \<Longrightarrow> emits t v"
  by (auto simp: proto_java_rule_def bind_res_eq_Inr Let_def intro!: emits_intro)

lemma proto_php_rule_emits: "proto_php_rule x src u = Inr v \<Longrightarrow> emits t u \<Longrightarrow> emits t v"
  by (auto simp: proto_php_rule_def intro!: emits_intro)

lemma proto_python_rule_emits: "proto_python_rule x src u = Inr v \<Longrightarrow> emits t u \<Longrightarrow> emits t v"
  by (auto simp: proto_python_rule_def Let_def intro!: emits_intro)

lemma proto_java_rules_emits:
  "fold_res (proto_java_rule x) ss u = Inr v \<Longrightarrow> emits t u \<Longrightarrow> emits t v"
  by (erule emits_fold_res) (simp_all add: proto_java_rule_emits)

lemma proto_php_rules_emits:
  "fold_res (proto_php_rule x) ss u = Inr v \<Longrightarrow> emits t u \<Longrightarrow> emits t v"
  by (erule emits_fold_res) (simp_all add: proto_php_rule_emits)

lemma proto_python_rules_emits:
  "fold_res (proto_python_rule x) ss u = Inr v \<Longrightarrow> emits t u \<Longrightarrow> emits t v"
  by (erule emits_fold_res) (simp_all add: proto_python_rule_emits)

lemma proto_cc_rule_emits [emits_intro]: "emits t u \<Longrightarrow> emits t (proto_cc_rule x src u)"
  by (auto simp: proto_cc_rule_def intro!: emits_intro split: prod.splits)

lemma proto_library_emits: "proto_library_scons_rules x t = Inr v \<Longrightarrow> emits t v"
  by (auto simp: proto_library_scons_rules_def bind_res_eq_Inr Let_def split: if_splits
      intro!: emits_intro
      elim!: cc_emits proto_java_rules_emits proto_php_rules_emits proto_python_rules_emits)

lemma lex_object_rule_emits [emits_intro]: "emits t u \<Longrightarrow> emits t (lex_object_rule w src f u)"
  by (simp add: lex_object_rule_def emits_write)

lemma lex_yacc_emits: "lex_yacc_scons_rules x t = Inr v \<Longrightarrow> emits t v"
  by (auto simp: lex_yacc_scons_rules_def bind_res_eq_Inr Let_def split: if_splits
      intro!: emits_intro elim!: cc_emits)

lemma resource_header_rule_emits [emits_intro]: "emits t u \<Longrightarrow> emits t (resource_header_rule x u)"
  by (simp add: resource_header_rule_def Let_def emits_write)

lemma resource_file_rule_emits [emits_intro]: "emits t u \<Longrightarrow> emits t (resource_file_rule x src u)"
  by (auto simp: resource_file_rule_def Let_def intro!: emits_intro)

lemma resource_objects_emits [emits_intro]: "emits t u \<Longrightarrow> emits t (resource_objects x ss seen u)"
  by (induction x ss seen u rule: resource_objects.induct) (auto intro!: emits_intro)

lemma resource_objects_rules_emits: "resource_objects_rules x u = Inr v \<Longrightarrow> emits t u \<Longrightarrow> emits t v"
  by (auto simp: resource_objects_rules_def bind_res_eq_Inr Let_def intro!: emits_intro
      elim!: cc_emits)

lemma resource_library_emits: "resource_library_scons_rules x t = Inr v \<Longrightarrow> emits t v"
  by (auto simp: resource_library_scons_rules_def bind_res_eq_Inr Let_def split: if_splits
      intro!: emits_intro elim!: cc_emits resource_objects_rules_emits)

lemma gen_rule_emits: "gen_rule_scons_rules x t = Inr v \<Longrightarrow> emits t v"
  by (auto simp: gen_rule_scons_rules_def bind_res_eq_Inr Let_def
      intro!: emits_intro elim!: explict_dependency_emits)

lemma py_binary_emits: "py_binary_scons_rules x t = Inr v \<Longrightarrow> emits t v"
  by (auto simp: py_binary_scons_rules_def Let_def intro!: emits_intro split: if_splits)

section \<open>Swig and thrift\<close>

lemma builder_rules_emits [emits_intro]: "emits t u \<Longrightarrow> emits t (builder_rules w n a c m u)"
  by (simp add: builder_rules_def emits_write)

lemma swig_object_rule_emits [emits_intro]: "emits t u \<Longrightarrow> emits t (swig_object_rule w obj f u)"
  by (simp add: swig_object_rule_def emits_write)

lemma link_all_rule_emits [emits_intro]: "emits t u \<Longrightarrow> emits t (link_all_rule w var l u)"
  by (simp add: link_all_rule_def emits_write)

lemma swig_py_src_emits: "swig_py_src x a src u = Inr v \<Longrightarrow> emits t u \<Longrightarrow> emits t v"
  by (auto simp: swig_py_src_def bind_res_eq_Inr Let_def intro!: emits_intro)

lemma swig_java_src_emits: "swig_java_src x n a d src u = Inr v \<Longrightarrow> emits t u \<Longrightarrow> emits t v"
  by (auto simp: swig_java_src_def bind_res_eq_Inr Let_def intro!: emits_intro)

lemma swig_php_src_emits: "swig_php_src x a src u = Inr v \<Longrightarrow> emits t u \<Longrightarrow> emits t v"
  by (auto simp: swig_php_src_def bind_res_eq_Inr Let_def intro!: emits_intro)

lemma swig_py_srcs_emits:
  "fold_res (swig_py_src x a) ss u = Inr v \<Longrightarrow> emits t u \<Longrightarrow> emits t v"
  by (erule emits_fold_res) (simp_all add: swig_py_src_emits)

lemma swig_java_srcs_emits:
  "fold_res (swig_java_src x n a d) ss u = Inr v \<Longrightarrow> emits t u \<Longrightarrow> emits t v"
  by (erule emits_fold_res) (simp_all add: swig_java_src_emits)

lemma swig_php_srcs_emits:
  "fold_res (swig_php_src x a) ss u = Inr v \<Longrightarrow> emits t u \<Longrightarrow> emits t v"
  by (erule emits_fold_res) (simp_all add: swig_php_src_emits)

lemma swig_rules_py_emits: "swig_library_rules_py x u = Inr v \<Longrightarrow> emits t u \<Longrightarrow> emits t v"
  by (auto simp: swig_library_rules_py_def bind_res_eq_Inr Let_def
      intro!: emits_intro elim!: cc_emits swig_py_srcs_emits)

lemma swig_java_package_rules_emits:
  "swig_java_package_rules x n u = (v, b) \<Longrightarrow> emits t u \<Longrightarrow> emits t v"
  by (auto simp: swig_java_package_rules_def Let_def intro!: emits_intro split: if_splits)

lemma swig_rules_java_helper_emits:
  "swig_library_rules_java_helper x d n a u = Inr v \<Longrightarrow> emits t u \<Longrightarrow> emits t v"
  by (auto simp: swig_library_rules_java_helper_def bind_res_eq_Inr Let_def
      intro!: emits_intro elim!: cc_emits swig_java_srcs_emits)

lemma swig_rules_java_emits: "swig_library_rules_java x u = Inr v \<Longrightarrow> emits t u \<Longrightarrow> emits t v"
  by (auto simp: swig_library_rules_java_def Let_def split: prod.splits
      intro!: emits_intro elim!: swig_rules_java_helper_emits swig_java_package_rules_emits)

lemma swig_rules_php_emits: "swig_library_rules_php x u = Inr v \<Longrightarrow> emits t u \<Longrightarrow> emits t v"
  by (auto simp: swig_library_rules_php_def bind_res_eq_Inr Let_def
      intro!: emits_intro elim!: cc_emits swig_php_srcs_emits)

lemma swig_library_emits: "swig_library_scons_rules x t = Inr v \<Longrightarrow> emits t v"
  by (auto simp: swig_library_scons_rules_def bind_res_eq_Inr split: if_splits
      elim!: cc_emits swig_rules_py_emits swig_rules_java_emits swig_rules_php_emits)

lemma thrift_java_rule_emits:
  assumes "thrift_java_rule x src u = Inr v" and "emits t u"
  shows "emits t v"
proof -
  obtain f fs where "thrift_gen_files get_generated_java_files x u src = Inr (f # fs)"
    using assms(1) unfolding thrift_java_rule_def bind_res_eq_Inr Let_def
    by (metis (no_types, lifting) Inl_Inr_False list.exhaust list.simps(4))
  with assms show ?thesis by (auto simp: thrift_java_rule_def Let_def intro!: emits_intro)
qed

lemma thrift_python_rule_emits: "thrift_python_rule x src u = Inr v \<Longrightarrow> emits t u \<Longrightarrow> emits t v"
  by (auto simp: thrift_python_rule_def bind_res_eq_Inr Let_def intro!: emits_intro)

lemma thrift_java_rules_emits:
  "fold_res (thrift_java_rule x) ss u = Inr v \<Longrightarrow> emits t u \<Longrightarrow> emits t v"
  by (erule emits_fold_res) (simp_all add: thrift_java_rule_emits)

lemma thrift_python_rules_emits:
  "fold_res (thrift_python_rule x) ss u = Inr v \<Longrightarrow> emits t u \<Longrightarrow> emits t v"
  by (erule emits_fold_res) (simp_all add: thrift_python_rule_emits)

lemma thrift_object_rule_emits [emits_intro]: "emits t u \<Longrightarrow> emits t (thrift_object_rule w f u)"
  by (simp add: thrift_object_rule_def emits_write)

lemma thrift_cpp_rule_emits:
  "thrift_cpp_rule x src st = Inr st' \<Longrightarrow> emits t (fst st) \<Longrightarrow> emits t (fst st')"
  by (cases st) (auto simp: thrift_cpp_rule_def bind_res_eq_Inr Let_def intro!: emits_intro)

lemma thrift_cpp_rules_emits:
  "fold_res (thrift_cpp_rule x) ss (u, l) = Inr (v, l') \<Longrightarrow> emits t u \<Longrightarrow> emits t v"
  using fold_res_invariant [of ss "\<lambda>st. emits t (fst st)" "thrift_cpp_rule x" "(u, l)" "(v, l')"]
    thrift_cpp_rule_emits by fastforce

lemma thrift_library_emits: "thrift_library_scons_rules x t = Inr v \<Longrightarrow> emits t v"
  by (auto simp: thrift_library_scons_rules_def bind_res_eq_Inr Let_def split: if_splits
      intro!: emits_intro
      elim!: cc_emits thrift_cpp_rules_emits thrift_java_rules_emits thrift_python_rules_emits)

section \<open>Java archives\<close>

lemma js_write_emits [emits_intro]: "emits t (js_target s) \<Longrightarrow> emits t (js_target (js_write r s))"
  by (simp add: js_write_def emits_write)

lemma js_depends_emits [emits_intro]: "emits t (js_target s) \<Longrightarrow> emits t (js_target (js_depends w v d s))"
  by (simp add: js_depends_def js_write_emits)

lemma js_mkdir_emits [emits_intro]: "emits t (js_target s) \<Longrightarrow> emits t (js_target (js_mkdir w d s))"
  by (simp add: js_mkdir_def js_write_emits)

lemma js_depends_fold_emits [emits_intro]:
  "emits t (js_target s) \<Longrightarrow> emits t (js_target (fold (js_depends w v) ds s))"
  by (induction ds arbitrary: s) (simp_all add: js_depends_emits)

lemma prepare_dep_step_emits:
  "prepare_dep_step x w n d st = Inr st' \<Longrightarrow> emits t (js_target (fst st)) \<Longrightarrow>
     emits t (js_target (fst st'))"
  by (cases st) (auto simp: prepare_dep_step_def bind_res_eq_Inr Let_def intro!: emits_intro)

lemma prepare_dep_steps_emits:
  assumes "fold_res (prepare_dep_step x w n) ds st = Inr st'" and "emits t (js_target (fst st))"
  shows "emits t (js_target (fst st'))"
  using fold_res_invariant [of ds "\<lambda>st. emits t (js_target (fst st))" "prepare_dep_step x w n" st st']
    assms prepare_dep_step_emits by blast

lemma explict_files_rules_emits:
  assumes "fold_res (explict_files_rule x w v) ds s = Inr s'" and "emits t (js_target s)"
  shows "emits t (js_target s')"
proof (rule fold_res_invariant [of ds "\<lambda>s. emits t (js_target s)", OF _ assms(2,1)])
  fix d s s'
  assume "emits t (js_target s)" "explict_files_rule x w v d s = Inr s'"
  then show "emits t (js_target s')"
    by (auto simp: explict_files_rule_def bind_res_eq_Inr intro!: emits_intro)
qed

lemma java_jar_prepare_dep_emits:
  assumes "java_jar_prepare_dep x w ds n s = Inr s'" and "emits t (js_target s)"
  shows "emits t (js_target s')"
proof -
  obtain s1 i v l s2 u where 1: "fold_res (prepare_dep_step x w n) ds (s, 0, [], []) = Inr (s1, i, v, l)"
    and 2: "(if v \<noteq> [] then fold_res (explict_files_rule x w v) (t_expanded_deps w) s1 else Inr s1) = Inr s2"
    and 3: "generate_target_explict_dependency (x_build x) (js_cmd_vars s2) (js_target s2) = Inr u"
    and s': "s' = s2\<lparr>js_target := u, js_after := l\<rparr>"
    using assms(1) unfolding java_jar_prepare_dep_def by (auto simp: bind_res_eq_Inr split: prod.splits)
  have "emits t (js_target s1)" using prepare_dep_steps_emits [OF 1] assms(2) by simp
  then have "emits t (js_target s2)" using 2 explict_files_rules_emits by (auto split: if_splits)
  with explict_dependency_emits [OF 3] show ?thesis by (simp add: s')
qed

lemma compile_src_steps_emits:
  assumes "fold_res (compile_src_step x w n) ds st = Inr st'" and "emits t (js_target (fst st))"
  shows "emits t (js_target (fst st'))"
proof (rule fold_res_invariant [of ds "\<lambda>st. emits t (js_target (fst st))", OF _ assms(2,1)])
  fix d and st st' :: "jar_state \<times> string list"
  assume "emits t (js_target (fst st))" "compile_src_step x w n d st = Inr st'"
  then show "emits t (js_target (fst st'))"
    by (cases st) (auto simp: compile_src_step_def bind_res_eq_Inr Let_def intro!: emits_intro)
qed

lemma dep_jars_rules_emits:
  assumes "fold_res (dep_jars_rule x w v) ds s = Inr s'" and "emits t (js_target s)"
  shows "emits t (js_target s')"
proof (rule fold_res_invariant [of ds "\<lambda>s. emits t (js_target s)", OF _ assms(2,1)])
  fix d s s'
  assume "emits t (js_target s)" "dep_jars_rule x w v d s = Inr s'"
  then show "emits t (js_target s')"
    by (auto simp: dep_jars_rule_def bind_res_eq_Inr intro!: emits_intro)
qed

lemma java_jar_compile_src_emits:
  assumes "java_jar_compile_src x w l n s = Inr s'" and "emits t (js_target s)"
  shows "emits t (js_target s')"
proof -
  obtain jars s1 dirs cmd s3 u where
    1: "fold_res (compile_src_step x w n) l (s, []) = Inr (s1, dirs)"
    and 2: "fold_res (dep_jars_rule x w (java_classes_var w)) (t_expanded_deps w)
      (js_write (copy_rule w (java_classes_var w)
         (path_join (java_class_root x w) (t_name w @ ''_dummy_file_0'')) [] cmd) s1) = Inr s3"
    and 3: "generate_target_explict_dependency (x_build x) [java_classes_var w] (js_target s3) = Inr u"
    and s': "js_target s' = js_target (fold (js_depends w (java_classes_var w)) (js_cmd_vars s3)
      (s3\<lparr>js_target := u\<rparr>))"
    using assms(1) unfolding java_jar_compile_src_def Let_def
    by (auto simp: bind_res_eq_Inr split: prod.splits)
  have "emits t (js_target s1)" using compile_src_steps_emits [OF 1] assms(2) by simp
  then have "emits t (js_target s3)" by (intro dep_jars_rules_emits [OF 2] js_write_emits)
  then have "emits t u" by (rule explict_dependency_emits [OF 3])
  then show ?thesis unfolding s' by (intro js_depends_fold_emits) simp
qed

lemma packing_file_rules_emits:
  assumes "fold_res (packing_file_rule x w c) ds st = Inr st'" and "emits t (js_target (fst st))"
  shows "emits t (js_target (fst st'))"
proof (rule fold_res_invariant [of ds "\<lambda>st. emits t (js_target (fst st))", OF _ assms(2,1)])
  fix d and st st' :: "jar_state \<times> string list \<times> nat"
  assume "emits t (js_target (fst st))" "packing_file_rule x w c d st = Inr st'"
  then show "emits t (js_target (fst st'))"
    by (cases st) (auto simp: packing_file_rule_def bind_res_eq_Inr Let_def intro!: emits_intro
        split: option.splits)
qed

lemma packing_file_rules_emits':
  "fold_res (packing_file_rule x w c) ds (s, cmds, i) = Inr (s', cmds', i') \<Longrightarrow>
     emits t (js_target s) \<Longrightarrow> emits t (js_target s')"
  using packing_file_rules_emits [of x w c ds "(s, cmds, i)" "(s', cmds', i')" t] by simp

lemma make_jar_step_emits:
  "make_jar_step x w cv c (s, cmds, i) = Inr (s', cmds', i') \<Longrightarrow> emits t (js_target s) \<Longrightarrow>
     emits t (js_target s')"
  unfolding make_jar_step_def Let_def prod.case
  by (auto simp: bind_res_eq_Inr simp del: append_Cons append_Nil append_assoc
      intro!: emits_intro elim!: packing_file_rules_emits' split: if_splits)

lemma java_jar_make_jar_emits:
  "java_jar_make_jar x w s = Inr s' \<Longrightarrow> emits t (js_target s) \<Longrightarrow> emits t (js_target s')"
  by (auto simp: java_jar_make_jar_def bind_res_eq_Inr intro: make_jar_step_emits)

lemma java_jar_emits: "java_jar_scons_rules x t = Inr v \<Longrightarrow> emits t v"
  unfolding java_jar_scons_rules_def Let_def
  by (auto simp: bind_res_eq_Inr split: if_splits
      intro!: emits_intro
      elim!: java_jar_make_jar_emits java_jar_compile_src_emits java_jar_prepare_dep_emits)

section \<open>Dispatch\<close>

text \<open>
  \<open>scons_object.scons_rules()\<close>: the method of the target's class. A system library has none;
  the loop that collects the rules skips it.
\<close>

definition scons_rules :: "ctx \<Rightarrow> target \<Rightarrow> target res" where
  "scons_rules x t =
     (case t_class t of
        SystemLibrary \<Rightarrow> Inl AttributeError
      | CcLibrary \<Rightarrow> cc_library_scons_rules x t
      | CcBinary \<Rightarrow> cc_binary_scons_rules x t
      | CcTest \<Rightarrow> cc_binary_scons_rules x t
      | CcPlugin \<Rightarrow> cc_plugin_scons_rules x t
      | ProtoLibrary \<Rightarrow> proto_library_scons_rules x t
      | LexYaccLibrary \<Rightarrow> lex_yacc_scons_rules x t
      | ResourceLibrary \<Rightarrow> resource_library_scons_rules x t
      | SwigLibrary \<Rightarrow> swig_library_scons_rules x t
      | ThriftLibrary \<Rightarrow> thrift_library_scons_rules x t
      | GenRuleTarget \<Rightarrow> gen_rule_scons_rules x t
      | JavaJarTarget \<Rightarrow> java_jar_scons_rules x t
      | PythonBinaryTarget \<Rightarrow> py_binary_scons_rules x t)"

text \<open>The classes derived from \<open>CcTarget\<close> warn about deprecated dependencies first.\<close>

definition is_cc_class :: "target_class \<Rightarrow> bool" where
  "is_cc_class c \<longleftrightarrow> c \<in> {CcLibrary, CcBinary, CcTest, CcPlugin, ProtoLibrary, LexYaccLibrary,
     ResourceLibrary, SwigLibrary, ThriftLibrary}"

definition scons_warnings :: "ctx \<Rightarrow> target \<Rightarrow> msg list res" where
  "scons_warnings x t = (if is_cc_class (t_class t) then check_deprecated_deps x t else Inr [])"

lemma scons_rules_emits: "scons_rules x t = Inr u \<Longrightarrow> emits t u"
  by (cases "t_class t")
    (auto simp: scons_rules_def intro: cc_library_emits cc_binary_emits cc_plugin_emits
      proto_library_emits lex_yacc_emits resource_library_emits swig_library_emits
      thrift_library_emits gen_rule_emits java_jar_emits py_binary_emits)

section \<open>The interface\<close>

locale emitter =
  fixes rules :: "ctx \<Rightarrow> target \<Rightarrow> target res"
  assumes rules_emit: "rules x t = Inr u \<Longrightarrow> emits t u"
begin

lemma rules_key: "rules x t = Inr u \<Longrightarrow> t_key u = t_key t"
  using rules_emit emitsD by blast

lemma rules_deps: "rules x t = Inr u \<Longrightarrow> t_expanded_deps u = t_expanded_deps t \<and> t_type u = t_type t"
  using rules_emit emitsD by blast

lemma rules_append: "rules x t = Inr u \<Longrightarrow> \<exists>r. t_rules u = t_rules t @ r"
  using rules_emit by (auto simp: emits_def)

end

interpretation target_rules: emitter scons_rules
  by unfold_locales (rule scons_rules_emits)

end
