(* ===== verification/BuildFile.thy ===== *)
theory BuildFile
  imports Emitter
begin

text \<open>
  A BUILD file as the manager runs it: the sequence of build functions it calls
  (\<open>build_rules.py\<close> holds the functions), each of which constructs a target under the current
  source path and registers it. Every call keeps the database well formed and only adds to
  it; the locale \<open>db_operation\<close> states this contract for the loader.
\<close>

section \<open>The calls\<close>

datatype build_call =
    CallCcLibrary cc_args
  | CallCcBinary cc_args
  | CallCcTest cc_args
  | CallCcPlugin cc_args
  | CallCcBenchmark cc_args
  | CallCcMapr cc_args
  | CallProtoLibrary cc_args
  | CallResourceLibrary cc_args
  | CallThriftLibrary cc_args
  | CallLexYaccLibrary lex_args
  | CallSwigLibrary swig_args
  | CallGenRule gen_args
  | CallJavaJar java_args
  | CallPyBinary py_args

text \<open>What the build functions read from outside\<close>

record build_env =
  e_lines :: "string \<Rightarrow> string list option"
  e_php_include :: "string list"
  e_heap_text :: string

definition run_build_call :: "build_env \<Rightarrow> build_call \<Rightarrow> blade \<Rightarrow> blade res" where
  "run_build_call env call b =
     (case call of
        CallCcLibrary a \<Rightarrow> cc_library a b
      | CallCcBinary a \<Rightarrow> cc_binary a b
      | CallCcTest a \<Rightarrow> cc_test (e_heap_text env) a b
      | CallCcPlugin a \<Rightarrow> cc_plugin a b
      | CallCcBenchmark a \<Rightarrow> cc_benchmark a b
      | CallCcMapr a \<Rightarrow> cc_mapr a b
      | CallProtoLibrary a \<Rightarrow> proto_library a b
      | CallResourceLibrary a \<Rightarrow> resource_library a b
      | CallThriftLibrary a \<Rightarrow> thrift_library (e_lines env) a b
      | CallLexYaccLibrary a \<Rightarrow> lex_yacc_library a b
      | CallSwigLibrary a \<Rightarrow> swig_library (e_php_include env) a b
      | CallGenRule a \<Rightarrow> gen_rule a b
      | CallJavaJar a \<Rightarrow> java_jar a b
      | CallPyBinary a \<Rightarrow> py_binary a b)"

type_synonym build_script = "build_call list"

definition run_script :: "build_env \<Rightarrow> build_script \<Rightarrow> blade \<Rightarrow> blade res" where
  "run_script env script b = fold_res (run_build_call env) script b"

section \<open>The invariant of the database\<close>

text \<open>
  A registered target is stored under its key, which is its path and name; its dependency
  lists have no duplicates, \<open>expanded_deps\<close> holds the dependencies of the BUILD file and
  those the program adds, and no rule has been written yet.
\<close>

definition target_ok :: "tkey \<Rightarrow> target \<Rightarrow> bool" where
  "target_ok k t \<longleftrightarrow> t_key t = k \<and> t_path t = fst k \<and> t_name t = snd k \<and>
     distinct (t_deps t) \<and> distinct (t_expanded_deps t) \<and>
     set (t_deps t) \<subseteq> set (t_expanded_deps t) \<and> t_rules t = []"

definition db_inv :: "targets \<Rightarrow> bool" where
  "db_inv db \<longleftrightarrow> dict_wf db \<and> (\<forall>k t. map_of db k = Some t \<longrightarrow> target_ok k t)"

text \<open>What an operation may do to the manager\<close>

definition db_step :: "blade \<Rightarrow> blade \<Rightarrow> bool" where
  "db_step b b' \<longleftrightarrow>
     b' = b\<lparr>b_database := b_database b', b_src_target_map := b_src_target_map b',
            b_console := b_console b'\<rparr> \<and>
     db_extends (b_database b) (b_database b') \<and>
     (db_inv (b_database b) \<longrightarrow> db_inv (b_database b')) \<and>
     (\<forall>k \<in> set (keys (b_database b')) - set (keys (b_database b)).
        fst k = b_current_source_path b \<or> fst k = ''#'')"

lemma db_step_refl [simp]: "db_step b b"
  by (simp add: db_step_def)

lemma db_step_frame:
  "db_step b b' \<Longrightarrow> b_current_source_path b' = b_current_source_path b \<and> b_config b' = b_config b \<and>
     b_options b' = b_options b \<and> b_build_path b' = b_build_path b \<and> b_root_dir b' = b_root_dir b"
  by (cases b, cases b') (simp add: db_step_def)

lemma db_step_trans: "db_step a b \<Longrightarrow> db_step b c \<Longrightarrow> db_step a c"
proof -
  assume ab: "db_step a b" and bc: "db_step b c"
  have "c = a\<lparr>b_database := b_database c, b_src_target_map := b_src_target_map c,
      b_console := b_console c\<rparr>"
    using ab bc by (cases a, cases b, cases c) (simp add: db_step_def)
  moreover have "db_extends (b_database a) (b_database c)"
    using ab bc db_extends_trans unfolding db_step_def by blast
  moreover have "db_inv (b_database a) \<longrightarrow> db_inv (b_database c)"
    using ab bc unfolding db_step_def by blast
  moreover have "\<forall>k \<in> set (keys (b_database c)) - set (keys (b_database a)).
      fst k = b_current_source_path a \<or> fst k = ''#''"
    using ab bc db_step_frame [OF ab] unfolding db_step_def by (metis Diff_iff)
  ultimately show ?thesis unfolding db_step_def by blast
qed

lemma db_step_warn [simp]: "db_step b (warn m b)"
  by (simp add: db_step_def warn_def)

lemma db_step_map [simp]: "db_step b (b\<lparr>b_src_target_map := m\<rparr>)"
  by (simp add: db_step_def)

lemma db_step_fold_res:
  assumes "fold_res f xs b = Inr b'" and "\<And>x b b'. f x b = Inr b' \<Longrightarrow> db_step b b'"
  shows "db_step b b'"
  using fold_res_invariant [of xs "db_step b" f b b'] assms db_step_trans db_step_refl by blast

lemma db_step_register:
  assumes "register_target t b = Inr b'" and "target_ok (t_key t) t"
    and "fst (t_key t) = b_current_source_path b \<or> fst (t_key t) = ''#''"
  shows "db_step b b'"
proof -
  have k: "t_key t \<notin> set (keys (b_database b))"
    and b': "b' = b\<lparr>b_database := dict_set (t_key t) t (b_database b)\<rparr>"
    using assms(1) by (auto simp: register_target_Inr)
  have "db_inv (b_database b')" if "db_inv (b_database b)"
    using that assms(2) by (auto simp: db_inv_def b')
  moreover have "db_extends (b_database b) (b_database b')"
    using register_target_extends [OF assms(1)] .
  ultimately show ?thesis using assms(3) k unfolding db_step_def by (auto simp: b' keys_dict_set)
qed

section \<open>Constructors\<close>

text \<open>A target under construction, made from the manager \<open>b\<close>\<close>

definition made :: "blade \<Rightarrow> target \<times> blade \<Rightarrow> bool" where
  "made b tb \<longleftrightarrow> db_step b (snd tb) \<and> target_ok (t_key (fst tb)) (fst tb) \<and>
     fst (t_key (fst tb)) = b_current_source_path b"

lemma made_simps [simp]:
  "made b (t\<lparr>t_data := d\<rparr>, b') = made b (t, b')"
  "made b (t\<lparr>t_type := ty\<rparr>, b') = made b (t, b')"
  "made b (t\<lparr>t_srcs := ss\<rparr>, b') = made b (t, b')"
  by (simp_all add: made_def target_ok_def)

lemma made_step: "made b (t, b') \<Longrightarrow> db_step b' b'' \<Longrightarrow> made b (t, b'')"
  using db_step_trans by (auto simp: made_def)

lemma made_step_first: "db_step b b' \<Longrightarrow> made b' tb \<Longrightarrow> made b tb"
  using db_step_trans db_step_frame by (fastforce simp: made_def)

lemma check_src_step: "check_src ty p n s b = Inr b' \<Longrightarrow> db_step b b'"
  by (auto simp: check_src_def Let_def intro: db_step_trans [OF _ db_step_map]
      split: if_splits option.splits)

lemma check_srcs_step: "check_srcs ty p n ss b = Inr b' \<Longrightarrow> db_step b b'"
  unfolding check_srcs_def by (erule db_step_fold_res) (rule check_src_step)

lemma init_checks_step: "init_checks n ty ss ds kw b = Inr b' \<Longrightarrow> db_step b b'"
  by (auto simp: init_checks_def Let_def bind_res_eq_Inr check_kwargs_def split: if_splits
      dest!: check_srcs_step intro: db_step_trans [OF db_step_warn])

lemma add_system_library_step:
  assumes "add_system_library k d b = Inr b'" and "k = (''#'', drop 1 d)"
  shows "db_step b b'"
proof (cases "k \<in> set (keys (b_database b))")
  case True
  then show ?thesis using assms by (simp add: add_system_library_def)
next
  case False
  then obtain lib b1 where lib: "system_library d b = Inr (lib, b1)" and reg: "register_target lib b1 = Inr b'"
    using assms(1) by (auto simp: add_system_library_def bind_res_eq_Inr)
  then have "db_step b b1" and "target_ok (t_key lib) lib" and "fst (t_key lib) = ''#''"
    by (auto simp: system_library_def Let_def bind_res_eq_Inr new_target_def target_ok_def
        dest: init_checks_step)
  then show ?thesis using db_step_trans db_step_register [OF reg] by blast
qed

lemma target_ok_add:
  "target_ok k t \<Longrightarrow> target_ok k (t\<lparr>t_expanded_deps := add_new d (t_expanded_deps t)\<rparr>)"
  "target_ok k t \<Longrightarrow>
     target_ok k (t\<lparr>t_expanded_deps := add_new d (t_expanded_deps t), t_deps := add_new d (t_deps t)\<rparr>)"
  by (auto simp: target_ok_def)

lemma init_dep_made:
  assumes "init_dep d (t, b) = Inr tb" and "made b0 (t, b)"
  shows "made b0 tb"
proof -
  obtain k b' where k: "dep_key (t_path t) (t_name t) d = Inr k"
    and tb: "tb = (t\<lparr>t_expanded_deps := add_new k (t_expanded_deps t), t_deps := add_new k (t_deps t)\<rparr>, b')"
    and b': "(if \<not> startswith d '':'' \<and> \<not> startswith d ''//'' \<and> startswith d ''#''
              then add_system_library k d b else Inr b) = Inr b'"
    using assms(1) by (auto simp: init_dep_def bind_res_eq_Inr)
  have "k = (''#'', drop 1 d)" if "\<not> startswith d '':''" "\<not> startswith d ''//''" "startswith d ''#''"
    using k that by (auto simp: dep_key_def split: list.splits if_splits)
  then have "db_step b b'"
    using b' add_system_library_step [of k d b b'] by (auto split: if_splits)
  then have "db_step b0 b'" using assms(2) db_step_trans by (auto simp: made_def)
  with assms(2) show ?thesis using target_ok_add(2) by (auto simp: made_def tb)
qed

lemma fold_made:
  assumes "fold_res f ds tb = Inr tb'" and "made b0 tb"
    and "\<And>d t b tb'. f d (t, b) = Inr tb' \<Longrightarrow> made b0 (t, b) \<Longrightarrow> made b0 tb'"
  shows "made b0 tb'"
  using fold_res_invariant [of ds "made b0" f tb tb'] assms by (metis surj_pair)

lemma target_init_made:
  assumes "target_init cls n ty ss ds kw b = Inr tb"
  shows "made b tb"
proof -
  obtain b1 where c: "init_checks n ty ss ds kw b = Inr b1"
    and i: "init_target_deps ds (new_target cls (b_current_source_path b) n ty ss, b1) = Inr tb"
    using assms by (auto simp: target_init_def bind_res_eq_Inr)
  have "made b (new_target cls (b_current_source_path b) n ty ss, b1)"
    using init_checks_step [OF c] by (simp add: made_def target_ok_def new_target_def)
  with i show ?thesis unfolding init_target_deps_def by (rule fold_made) (rule init_dep_made)
qed

lemma add_hardcode_dep_made:
  assumes "add_hardcode_dep d (t, b) = Inr tb" and "made b0 (t, b)"
  shows "made b0 tb"
proof -
  obtain k b' where k: "convert_string_to_target d = Inr k"
    and tb: "tb = (t\<lparr>t_expanded_deps := add_new k (t_expanded_deps t)\<rparr>, b')"
    and b': "(if fst k = ''#'' then add_system_library k d b else Inr b) = Inr b'"
    using assms(1) by (auto simp: add_hardcode_dep_def bind_res_eq_Inr)
  have "db_step b b'"
  proof (cases "fst k = ''#''")
    case True
    obtain lib b1 where "k \<notin> set (keys (b_database b)) \<Longrightarrow> system_library d b = Inr (lib, b1)"
        and "k \<notin> set (keys (b_database b)) \<Longrightarrow> register_target lib b1 = Inr b'"
      using b' True by (auto simp: add_system_library_def bind_res_eq_Inr split: if_splits)
    moreover have "b' = b" if "k \<in> set (keys (b_database b))"
      using b' True that by (simp add: add_system_library_def)
    moreover have "db_step b b'" if "system_library d b = Inr (lib, b1)" "register_target lib b1 = Inr b'"
    proof -
      have "db_step b b1" and "target_ok (t_key lib) lib" and "fst (t_key lib) = ''#''"
        using that(1) by (auto simp: system_library_def Let_def bind_res_eq_Inr new_target_def
            target_ok_def dest: init_checks_step)
      then show ?thesis using db_step_trans db_step_register [OF that(2)] by blast
    qed
    ultimately show ?thesis by (cases "k \<in> set (keys (b_database b))") auto
  qed (use b' in auto)
  then have "db_step b0 b'" using assms(2) db_step_trans by (auto simp: made_def)
  with assms(2) show ?thesis using target_ok_add(1) by (auto simp: made_def tb)
qed

lemma add_hardcode_library_made:
  "add_hardcode_library ds tb = Inr tb' \<Longrightarrow> made b0 tb \<Longrightarrow> made b0 tb'"
  unfolding add_hardcode_library_def by (erule fold_made) (auto intro: add_hardcode_dep_made)

lemma check_defs_step: "db_step b (check_defs t b)"
proof -
  have "db_step b (fold check_def ds b)" for ds
  proof (induction ds arbitrary: b)
    case (Cons d ds)
    have "db_step b (check_def d b)" by (simp add: check_def_def)
    then show ?case using Cons.IH [of "check_def d b"] db_step_trans by simp
  qed simp
  then show ?thesis by (simp add: check_defs_def)
qed

lemma check_incorrect_no_warning_step: "db_step b (check_incorrect_no_warning t b)"
  by (simp add: check_incorrect_no_warning_def)

lemma cc_target_init_made: "cc_target_init cls ty a b = Inr tb \<Longrightarrow> made b tb"
  by (auto simp: cc_target_init_def bind_res_eq_Inr Let_def dest!: target_init_made
      intro!: made_step [OF _ db_step_trans [OF check_defs_step check_incorrect_no_warning_step]])

lemma register_made:
  assumes "register_target t b1 = Inr b'" and "made b (t, b1)"
  shows "db_step b b'"
proof -
  have "b_current_source_path b1 = b_current_source_path b"
    using assms(2) db_step_frame by (auto simp: made_def)
  then have "db_step b1 b'"
    using assms(2) by (intro db_step_register [OF assms(1)]) (auto simp: made_def)
  then show ?thesis using assms(2) db_step_trans by (auto simp: made_def)
qed

lemma pre_build_warning_step: "db_step b (pre_build_warning a t b)"
  by (simp add: pre_build_warning_def)

section \<open>Every build function keeps the contract\<close>

lemma cc_library_step: "cc_library a b = Inr b' \<Longrightarrow> db_step b b'"
  by (auto simp: cc_library_def cc_library_init_def bind_res_eq_Inr Let_def
      dest!: cc_target_init_made elim!: register_made intro!: made_step [OF _ pre_build_warning_step])

lemma cc_plugin_step: "cc_plugin a b = Inr b' \<Longrightarrow> db_step b b'"
  by (auto simp: cc_plugin_def cc_plugin_init_def bind_res_eq_Inr
      dest!: cc_target_init_made elim!: register_made intro!: made_step [OF _ pre_build_warning_step])

lemma cc_binary_init_made: "cc_binary_init cls dl a b = Inr tb \<Longrightarrow> made b tb"
  by (auto simp: cc_binary_init_def bind_res_eq_Inr Let_def dest!: cc_target_init_made
      elim!: add_hardcode_library_made)

lemma cc_binary_step: "cc_binary a b = Inr b' \<Longrightarrow> db_step b b'"
  by (auto simp: cc_binary_def bind_res_eq_Inr dest!: cc_binary_init_made elim!: register_made)

lemma cc_benchmark_step: "cc_benchmark a b = Inr b' \<Longrightarrow> db_step b b'"
  by (auto simp: cc_benchmark_def bind_res_eq_Inr intro: cc_binary_step)

lemma cc_mapr_step: "cc_mapr a b = Inr b' \<Longrightarrow> db_step b b'"
  by (auto simp: cc_mapr_def bind_res_eq_Inr intro: cc_binary_step)

lemma cc_test_init_made: "cc_test_init shown a b = Inr tb \<Longrightarrow> made b tb"
  by (auto simp: cc_test_init_def bind_res_eq_Inr Let_def split: if_splits
      dest!: cc_binary_init_made elim!: add_hardcode_library_made)

lemma cc_test_step: "cc_test shown a b = Inr b' \<Longrightarrow> db_step b b'"
  by (auto simp: cc_test_def bind_res_eq_Inr dest!: cc_test_init_made elim!: register_made)

lemma proto_library_step: "proto_library a b = Inr b' \<Longrightarrow> db_step b b'"
proof -
  assume "proto_library a b = Inr b'"
  then obtain t b1 where t: "proto_library_init a b = Inr (t, b1)" and r: "register_target t b1 = Inr b'"
    by (auto simp: proto_library_def bind_res_eq_Inr)
  have "made b (t, b1)"
    using t by (auto simp: proto_library_init_def bind_res_eq_Inr dest!: cc_target_init_made
        elim!: add_hardcode_library_made dest: add_hardcode_library_made)
  then show ?thesis by (rule register_made [OF r])
qed

lemma resource_library_step: "resource_library a b = Inr b' \<Longrightarrow> db_step b b'"
  by (auto simp: resource_library_def resource_library_init_def bind_res_eq_Inr
      dest!: cc_target_init_made elim!: register_made)

lemma add_thrift_bin_made: "add_thrift_bin v t = Inr t' \<Longrightarrow> made b (t, b') \<Longrightarrow> made b (t', b')"
  by (auto simp: add_thrift_bin_def bind_res_eq_Inr made_def split: pyval.splits if_splits
      intro!: target_ok_add(2))

lemma thrift_library_step: "thrift_library lines a b = Inr b' \<Longrightarrow> db_step b b'"
proof -
  assume "thrift_library lines a b = Inr b'"
  then obtain t b1 where t: "thrift_library_init lines a b = Inr (t, b1)" and r: "register_target t b1 = Inr b'"
    by (auto simp: thrift_library_def bind_res_eq_Inr)
  obtain t0 b0 bin t1 libs t2 where "made b (t0, b0)" and 1: "add_thrift_bin bin t0 = Inr t1"
    and 2: "add_hardcode_library libs (t1, b0) = Inr (t2, b1)" and 3: "made b (t, b1) = made b (t2, b1)"
    using t by (auto simp: thrift_library_init_def bind_res_eq_Inr Let_def dest!: cc_target_init_made)
  have "made b (t2, b1)"
    using add_hardcode_library_made [OF 2 add_thrift_bin_made [OF 1 \<open>made b (t0, b0)\<close>]] .
  then show ?thesis using 3 register_made [OF r] by simp
qed

lemma lex_yacc_library_step: "lex_yacc_library a b = Inr b' \<Longrightarrow> db_step b b'"
  by (auto simp: lex_yacc_library_def lex_yacc_init_def bind_res_eq_Inr split: if_splits
      dest!: cc_target_init_made elim!: register_made)

lemma swig_library_step: "swig_library inc a b = Inr b' \<Longrightarrow> db_step b b'"
  by (auto simp: swig_library_def swig_library_init_def bind_res_eq_Inr
      dest!: cc_target_init_made elim!: register_made)

lemma gen_rule_step: "gen_rule a b = Inr b' \<Longrightarrow> db_step b b'"
  by (auto simp: gen_rule_def gen_rule_init_def bind_res_eq_Inr
      dest!: target_init_made elim!: register_made)

lemma java_jar_step: "java_jar a b = Inr b' \<Longrightarrow> db_step b b'"
  by (auto simp: java_jar_def java_jar_init_def bind_res_eq_Inr Let_def
      dest!: target_init_made elim!: register_made intro!: made_step [OF _ db_step_warn] split: if_splits)

lemma py_binary_step: "py_binary a b = Inr b' \<Longrightarrow> db_step b b'"
  by (auto simp: py_binary_def py_binary_init_def bind_res_eq_Inr
      dest!: target_init_made elim!: register_made)

lemma run_build_call_step: "run_build_call env call b = Inr b' \<Longrightarrow> db_step b b'"
  by (cases call)
    (auto simp: run_build_call_def intro: cc_library_step cc_binary_step cc_test_step cc_plugin_step
      cc_benchmark_step cc_mapr_step proto_library_step resource_library_step thrift_library_step
      lex_yacc_library_step swig_library_step gen_rule_step java_jar_step py_binary_step)

lemma run_script_step: "run_script env script b = Inr b' \<Longrightarrow> db_step b b'"
  unfolding run_script_def by (erule db_step_fold_res) (rule run_build_call_step)

section \<open>The interface\<close>

locale db_operation =
  fixes run :: "'a \<Rightarrow> blade \<Rightarrow> blade res"
  assumes run_step: "run x b = Inr b' \<Longrightarrow> db_step b b'"
begin

lemma run_inv: "run x b = Inr b' \<Longrightarrow> db_inv (b_database b) \<Longrightarrow> db_inv (b_database b')"
  using run_step unfolding db_step_def by blast

lemma run_keeps: "run x b = Inr b' \<Longrightarrow> map_of (b_database b) k = Some t \<Longrightarrow> map_of (b_database b') k = Some t"
  using run_step db_extendsD unfolding db_step_def by blast

lemma runs_step: "fold_res run xs b = Inr b' \<Longrightarrow> db_step b b'"
  by (erule db_step_fold_res) (rule run_step)

end

interpretation call: db_operation "run_build_call env" for env
  by unfold_locales (rule run_build_call_step)

interpretation build_script: db_operation "run_script env" for env
  by unfold_locales (rule run_script_step)

end
