(* ===== verification/DependencyAnalyzer.thy ===== *)
theory DependencyAnalyzer
  imports BladeState
begin

text \<open>
  \<open>dependency_analyzer.py\<close>: the expansion of every target's dependency list to its direct
  and indirect dependencies, with loop detection and the marking of dependencies that a
  dynamic, swig, python or java target needs in another form, and the topological sort.

  The dictionary of related targets is the argument \<open>ts\<close>; its enumeration order is the
  order of the list. The recursion of \<open>_find_all_deps\<close> adds a target to \<open>root_targets\<close> on
  the way in and removes it on the way out, so the set is the call stack, the argument
  \<open>roots\<close>. The loop message lists the set in stack order.
\<close>

section \<open>Expanding dependencies\<close>

definition deps_of :: "targets \<Rightarrow> tkey \<Rightarrow> tkey list" where
  "deps_of ts k = (case map_of ts k of None \<Rightarrow> [] | Some t \<Rightarrow> t_expanded_deps t)"

text \<open>Moving the elements of the second list to the end of the first, one after the other\<close>

fun merge_piece :: "'a list \<Rightarrow> 'a list \<Rightarrow> 'a list" where
  "merge_piece acc [] = acc"
| "merge_piece acc (nd # nds) =
     merge_piece ((if nd \<in> set acc then remove1 nd acc else acc) @ [nd]) nds"

definition loop_message :: "tkey \<Rightarrow> tkey list \<Rightarrow> string" where
  "loop_message d roots =
     ''loop dependency found: '' @ label (fst d) (snd d) @ '' --> ['' @
     concat (map (\<lambda>t. label (fst t) (snd t) @ '' --> '') roots) @ '']''"

definition missing_message :: "tkey \<Rightarrow> tkey \<Rightarrow> string" where
  "missing_message t d =
     ''Target '' @ colon_name t @ '' depends on '' @ colon_name d @ '', but it is missing, exit...''"

type_synonym deps_cache = "tkey \<rightharpoonup> tkey list"

text \<open>
  The keys that are not on the call stack get fewer with every target entered; within a
  call the list of dependencies gets shorter.
\<close>

definition deps_measure ::
  "(targets \<times> tkey \<times> deps_cache \<times> tkey list) +
   (targets \<times> tkey \<times> tkey list \<times> tkey list \<times> deps_cache \<times> tkey list) \<Rightarrow> nat \<times> nat \<times> nat" where
  "deps_measure x =
     (case x of
        Inl (ts, t, cache, roots) \<Rightarrow> (card (set (keys ts) - insert t (set roots)), 1, 0)
      | Inr (ts, t, ds, acc, cache, roots) \<Rightarrow> (card (set (keys ts) - set roots), 0, length ds))"

lemma card_roots_less:
  "d \<in> set (keys ts) \<Longrightarrow> d \<notin> set roots \<Longrightarrow>
     card (set (keys ts) - insert d (set roots)) < card (set (keys ts) - set roots)"
  by (rule psubset_card_mono) auto

function (sequential) find_all_deps ::
    "targets \<Rightarrow> tkey \<Rightarrow> deps_cache \<Rightarrow> tkey list \<Rightarrow> (tkey list \<times> deps_cache) res"
  and find_deps_loop ::
    "targets \<Rightarrow> tkey \<Rightarrow> tkey list \<Rightarrow> tkey list \<Rightarrow> deps_cache \<Rightarrow> tkey list \<Rightarrow> (tkey list \<times> deps_cache) res"
where
  "find_all_deps ts target_id cache roots =
     (case cache target_id of
        Some l \<Rightarrow> Inr (l, cache)
      | None \<Rightarrow>
          (case map_of ts target_id of
             None \<Rightarrow> Inl KeyError
           | Some target \<Rightarrow>
               bind_res (find_deps_loop ts target_id (t_expanded_deps target) [] cache
                           (target_id # roots))
                 (\<lambda>(l, cache'). Inr (l, cache'(target_id \<mapsto> l)))))"
| "find_deps_loop ts target_id [] acc cache roots = Inr (acc, cache)"
| "find_deps_loop ts target_id (d # ds) acc cache roots =
     (if d \<in> set roots then error_exit (loop_message d roots)
      else if d \<notin> set (keys ts) then error_exit (missing_message target_id d)
      else bind_res (find_all_deps ts d cache roots)
             (\<lambda>(l, cache'). find_deps_loop ts target_id ds (merge_piece acc (d # l)) cache' roots))"
  by pat_completeness auto

termination
proof (relation "inv_image (less_than <*lex*> less_than <*lex*> less_than) deps_measure", goal_cases)
  case (3 ts target_id d ds acc cache roots)
  then show ?case using card_roots_less [of d ts roots] by (auto simp: deps_measure_def)
qed (auto simp: deps_measure_def)

declare find_all_deps.simps [simp del]

text \<open>
  The marks that the target \<open>src\<close> leaves on each of its dependencies: a dynamically linked
  target needs shared libraries, a swig library PHP sources, and so on.
\<close>

definition mark_by :: "target \<Rightarrow> target \<Rightarrow> target" where
  "mark_by src t =
     (if d_dynamic_link (t_data src) then t\<lparr>t_data := (t_data t)\<lparr>d_build_dynamic := True\<rparr>\<rparr>
      else if t_type src = ''swig_library'' then
        (if t_type t = ''proto_library''
         then t\<lparr>t_data := (t_data t)\<lparr>d_generate_php := True\<rparr>\<rparr> else t)
      else if t_type src = ''py_binary'' then
        t\<lparr>t_data := (t_data t)\<lparr>d_generate_python := True\<rparr>\<rparr>
      else if t_type src = ''java_jar'' then
        t\<lparr>t_data := (t_data t)\<lparr>d_generate_java := True\<rparr>\<rparr>
      else t)"

definition mark_dep :: "target \<Rightarrow> tkey \<Rightarrow> targets \<Rightarrow> targets res" where
  "mark_dep src dep ts = bind_res (dict_index ts dep) (\<lambda>t. Inr (dict_set dep (mark_by src t) ts))"

definition expand_one :: "tkey \<Rightarrow> targets \<times> deps_cache \<Rightarrow> (targets \<times> deps_cache) res" where
  "expand_one target_id st =
     (case st of (ts, cache) \<Rightarrow>
      bind_res (dict_index ts target_id) (\<lambda>target.
      bind_res (find_all_deps ts target_id cache []) (\<lambda>(l, cache').
      bind_res (fold_res (mark_dep target) l
                  (dict_set target_id (target\<lparr>t_expanded_deps := l\<rparr>) ts)) (\<lambda>ts'.
      Inr (ts', cache')))))"

definition expand_deps :: "targets \<Rightarrow> targets res" where
  "expand_deps ts = bind_res (fold_res expand_one (keys ts) (ts, Map.empty)) (\<lambda>(ts', _). Inr ts')"

section \<open>Topological sort\<close>

type_synonym 'k preds = "('k, int) dict"
type_synonym 'k succs = "'k \<rightharpoonup> 'k list"

definition note_key :: "'k \<Rightarrow> 'k preds \<Rightarrow> 'k preds" where
  "note_key k np = (if k \<in> set (keys np) then np else dict_set k 0 np)"

definition add_edge :: "'k \<Rightarrow> 'k \<Rightarrow> 'k preds \<times> 'k succs \<Rightarrow> 'k preds \<times> 'k succs" where
  "add_edge second first st =
     (case st of (np, sc) \<Rightarrow>
        let np1 = note_key first np
        in (dict_set second (the (map_of np1 second) + 1) np1,
            sc(first \<mapsto> (case sc first of None \<Rightarrow> [second] | Some l \<Rightarrow> l @ [second]))))"

definition add_item :: "tkey \<times> target \<Rightarrow> tkey preds \<times> tkey succs \<Rightarrow> tkey preds \<times> tkey succs" where
  "add_item kt st =
     (case st of (np, sc) \<Rightarrow>
        fold (add_edge (fst kt)) (t_expanded_deps (snd kt)) (note_key (fst kt) np, sc))"

definition build_graph :: "targets \<Rightarrow> tkey preds \<times> tkey succs" where
  "build_graph ts = fold add_item ts ([], Map.empty)"

text \<open>The inner loop: one predecessor less for each successor\<close>

fun knock_down :: "'k list \<Rightarrow> 'k preds \<Rightarrow> ('k preds \<times> 'k list) res" where
  "knock_down [] np = Inr (np, [])"
| "knock_down (y # ys) np =
     (case map_of np y of
        None \<Rightarrow> Inl KeyError
      | Some n \<Rightarrow>
          bind_res (knock_down ys (dict_set y (n - 1) np)) (\<lambda>(np', new).
          Inr (np', if n - 1 = 0 then y # new else new)))"

lemma knock_down_length: "knock_down ys np = Inr (np', new) \<Longrightarrow> length np' = length np"
proof (induction ys arbitrary: np np' new)
  case (Cons y ys)
  then obtain n new' where n: "map_of np y = Some n"
    and k: "knock_down ys (dict_set y (n - 1) np) = Inr (np', new')"
    by (auto simp: res_simps split: option.splits prod.splits)
  have "y \<in> set (keys np)" using n by (auto dest: map_of_key)
  then show ?case using Cons.IH [OF k] by (simp add: length_dict_set)
qed simp

text \<open>
  The outer loop. \<open>answer\<close> is \<open>done @ queue\<close>: the elements the loop has visited and those
  it has still to visit.
\<close>

function topo_loop :: "'k preds \<Rightarrow> 'k succs \<Rightarrow> 'k list \<Rightarrow> 'k list \<Rightarrow> 'k list res" where
  "topo_loop np sc [] done = Inr done"
| "topo_loop np sc (x # queue) done =
     (case map_of np x of
        None \<Rightarrow> Inl KeyError
      | Some n \<Rightarrow>
          if n \<noteq> 0 then Inl AssertionError
          else (case sc x of
                  None \<Rightarrow> topo_loop (dict_del x np) sc queue (done @ [x])
                | Some ys \<Rightarrow>
                    (case knock_down ys (dict_del x np) of
                       Inl e \<Rightarrow> Inl e
                     | Inr (np', new) \<Rightarrow> topo_loop np' sc (queue @ new) (done @ [x]))))"
  by pat_completeness auto
termination
proof (relation "measure (\<lambda>(np, sc, queue, done). length np)", goal_cases)
  case (2 np sc x queue "done" n)
  then have "x \<in> set (keys np)" by (auto dest: map_of_key)
  then show ?case by (simp add: length_dict_del)
next
  case (3 np sc x queue "done" n ys r np' new)
  then have "x \<in> set (keys np)" by (auto dest: map_of_key)
  then show ?case
    using 3 length_dict_del [of x np] knock_down_length [of ys "dict_del x np" np' new] by auto
qed simp

text \<open>\<open>enum\<close> is the order in which \<open>numpreds.keys()\<close> lists the keys.\<close>

definition topological_sort :: "(tkey list \<Rightarrow> tkey list) \<Rightarrow> targets \<Rightarrow> tkey list res" where
  "topological_sort enum ts =
     (case build_graph ts of (np, sc) \<Rightarrow>
        topo_loop np sc (filter (\<lambda>x. map_of np x = Some 0) (enum (keys np))) [])"

definition analyze_deps ::
  "(tkey list \<Rightarrow> tkey list) \<Rightarrow> targets \<Rightarrow> (targets \<times> tkey list) res" where
  "analyze_deps enum ts =
     bind_res (expand_deps ts) (\<lambda>ts'.
     bind_res (topological_sort enum ts') (\<lambda>keys_list_sorted. Inr (ts', keys_list_sorted)))"

end
