(* ===== verification/DependencyExpansion.thy ===== *)
theory DependencyExpansion
  imports DependencyAnalyzer
begin

text \<open>
  Correctness of the expansion: a successful \<open>_find_all_deps\<close> returns exactly the targets
  reachable from a target, each once and before everything it depends on itself (the order
  a static linker needs); it fails exactly when a dependency is missing or a loop is
  reachable.
\<close>

section \<open>The dependency graph\<close>

definition edges :: "('k \<Rightarrow> 'k list) \<Rightarrow> ('k \<times> 'k) set" where
  "edges g = {(a, b). b \<in> set (g a)}"

definition dep_graph :: "targets \<Rightarrow> (tkey \<times> tkey) set" where
  "dep_graph ts = edges (deps_of ts)"

definition closed_targets :: "targets \<Rightarrow> bool" where
  "closed_targets ts \<longleftrightarrow> (\<forall>k \<in> set (keys ts). set (deps_of ts k) \<subseteq> set (keys ts))"

text \<open>No element comes after something that depends on it.\<close>

definition link_ordered :: "('k \<times> 'k) set \<Rightarrow> 'k list \<Rightarrow> bool" where
  "link_ordered E l \<longleftrightarrow> distinct l \<and> sorted_wrt (\<lambda>a b. (b, a) \<notin> E\<^sup>+) l"

definition link_closure :: "('k \<times> 'k) set \<Rightarrow> 'k \<Rightarrow> 'k list \<Rightarrow> bool" where
  "link_closure E k l \<longleftrightarrow> set l = E\<^sup>+ `` {k} \<and> k \<notin> set l \<and> link_ordered E l"

lemma edges_iff [simp]: "(a, b) \<in> edges g \<longleftrightarrow> b \<in> set (g a)"
  by (simp add: edges_def)

lemma edges_Image [simp]: "edges g `` {a} = set (g a)"
  by (auto simp: edges_def)

lemma deps_of_not_key: "k \<notin> set (keys ts) \<Longrightarrow> deps_of ts k = []"
  by (auto simp: deps_of_def split: option.splits dest: map_of_key)

lemma trancl_Image_step: "E\<^sup>+ `` {a} = E `` {a} \<union> (\<Union>b \<in> E `` {a}. E\<^sup>+ `` {b})"
  by (auto dest: tranclD intro: trancl_into_trancl2 elim: rtranclE)
    (metis Image_singleton_iff UN_I rtranclD tranclD)

lemma merge_piece_distinct:
  "distinct acc \<Longrightarrow> distinct nds \<Longrightarrow>
     merge_piece acc nds = filter (\<lambda>x. x \<notin> set nds) acc @ nds"
proof (induction nds arbitrary: acc)
  case (Cons n nds)
  let ?acc = "(if n \<in> set acc then remove1 n acc else acc) @ [n]"
  have "?acc = filter (\<lambda>x. x \<noteq> n) acc @ [n]"
    using Cons.prems by (auto simp: distinct_remove1_removeAll removeAll_filter_not_eq eq_commute
        intro!: filter_True [symmetric])
  moreover have "distinct (filter (\<lambda>x. x \<noteq> n) acc @ [n])"
    using Cons.prems by simp
  ultimately show ?case
    using Cons.IH [of ?acc] Cons.prems by (auto simp: filter_filter intro!: filter_cong)
qed simp

lemma link_ordered_merge:
  assumes acc: "link_ordered E acc" and l: "link_closure E d l"
  shows "link_ordered E (merge_piece acc (d # l))"
    and "set (merge_piece acc (d # l)) = set acc \<union> insert d (E\<^sup>+ `` {d})"
proof -
  have dl: "distinct (d # l)" using l unfolding link_closure_def link_ordered_def by (metis distinct.simps(2))
  then have eq: "merge_piece acc (d # l) = filter (\<lambda>x. x \<notin> set (d # l)) acc @ d # l"
    using acc by (intro merge_piece_distinct) (simp_all add: link_ordered_def)
  have sl: "set l = E\<^sup>+ `` {d}" "d \<notin> set l" using l unfolding link_closure_def by blast+
  have down: "a \<in> set (d # l)" if "b \<in> set (d # l)" "(b, a) \<in> E\<^sup>+" for a b
    using that sl by (auto intro: trancl_trans)
  have "sorted_wrt (\<lambda>a b. (b, a) \<notin> E\<^sup>+) (d # l)"
  proof -
    have "(d, d) \<notin> E\<^sup>+" using sl by blast
    then have "(x, d) \<notin> E\<^sup>+" if "x \<in> set l" for x
      using that sl(1) trancl_trans [of d x E d] by blast
    then show ?thesis using l by (simp add: link_closure_def link_ordered_def)
  qed
  moreover have "sorted_wrt (\<lambda>a b. (b, a) \<notin> E\<^sup>+) (filter (\<lambda>x. x \<notin> set (d # l)) acc)"
    using acc by (simp add: link_ordered_def sorted_wrt_filter)
  ultimately have "sorted_wrt (\<lambda>a b. (b, a) \<notin> E\<^sup>+) (merge_piece acc (d # l))"
    unfolding eq sorted_wrt_append using down by fastforce
  moreover have "distinct (merge_piece acc (d # l))"
    using acc dl unfolding eq by (auto simp: link_ordered_def)
  ultimately show "link_ordered E (merge_piece acc (d # l))" by (simp add: link_ordered_def)
  show "set (merge_piece acc (d # l)) = set acc \<union> insert d (E\<^sup>+ `` {d})"
    unfolding eq using sl by auto
qed

section \<open>The cache\<close>

text \<open>
  Cached entries are right, everything reachable from a cached target is cached, and no
  target on the call stack is cached.
\<close>

definition cache_inv :: "(tkey \<times> tkey) set \<Rightarrow> deps_cache \<Rightarrow> tkey list \<Rightarrow> bool" where
  "cache_inv E cache roots \<longleftrightarrow>
     (\<forall>k l. cache k = Some l \<longrightarrow> link_closure E k l) \<and>
     (\<forall>k \<in> dom cache. E `` {k} \<subseteq> dom cache) \<and>
     set roots \<inter> dom cache = {}"

definition agrees :: "targets \<Rightarrow> deps_cache \<Rightarrow> (tkey \<Rightarrow> tkey list) \<Rightarrow> bool" where
  "agrees ts cache g \<longleftrightarrow> (\<forall>k. k \<notin> dom cache \<longrightarrow> deps_of ts k = g k)"

lemma cache_inv_reach:
  assumes "cache_inv E cache roots" and "k \<in> dom cache" and "(k, x) \<in> E\<^sup>+"
  shows "x \<in> dom cache"
  using assms(3,2,1)
  by (induction rule: trancl_induct) (auto simp: cache_inv_def)

lemma agrees_mono: "agrees ts c g \<Longrightarrow> c \<subseteq>\<^sub>m c' \<Longrightarrow> agrees ts c' g"
  unfolding agrees_def by (meson map_le_implies_dom_le subsetD)

lemma cache_inv_roots: "cache_inv E c (t # roots) \<Longrightarrow> cache_inv E c roots \<and> t \<notin> dom c"
  by (auto simp: cache_inv_def)

lemma cache_inv_store:
  assumes c: "cache_inv E c (t # roots)" and r: "t \<notin> set roots"
    and succ: "E `` {t} \<subseteq> dom c" and l: "link_ordered E l"
    and sl: "set l = E `` {t} \<union> (\<Union>d \<in> E `` {t}. E\<^sup>+ `` {d})"
  shows "cache_inv E (c(t \<mapsto> l)) roots"
proof -
  have reach: "set l = E\<^sup>+ `` {t}" using sl by (simp add: trancl_Image_step [of E t])
  have "set l \<subseteq> dom c" using sl succ cache_inv_reach [OF c] by blast
  then have "t \<notin> set l" using cache_inv_roots [OF c] by auto
  with reach l have "link_closure E t l" by (simp add: link_closure_def)
  then show ?thesis using c r succ by (auto simp: cache_inv_def)
qed

lemma find_all_deps_sound:
  fixes g :: "tkey \<Rightarrow> tkey list"
  defines "E \<equiv> edges g"
  shows "find_all_deps ts t cache roots = Inr (l, cache') \<Longrightarrow> agrees ts cache g \<Longrightarrow>
      cache_inv E cache roots \<Longrightarrow> t \<notin> set roots \<Longrightarrow>
      cache_inv E cache' roots \<and> cache \<subseteq>\<^sub>m cache' \<and> cache' t = Some l"
    and "find_deps_loop ts t ds acc cache roots = Inr (l, cache') \<Longrightarrow> agrees ts cache g \<Longrightarrow>
      cache_inv E cache roots \<Longrightarrow> link_ordered E acc \<Longrightarrow>
      cache_inv E cache' roots \<and> cache \<subseteq>\<^sub>m cache' \<and> set ds \<subseteq> dom cache' \<and> link_ordered E l \<and>
      set l = set acc \<union> set ds \<union> (\<Union>d \<in> set ds. E\<^sup>+ `` {d})"
proof (induction ts t cache roots and ts t ds acc cache roots arbitrary: l cache' and l cache'
    rule: find_all_deps_find_deps_loop.induct)
  case (1 ts t cache roots)
  show ?case
  proof (cases "cache t")
    case None
    then obtain tg l1 c1 where tg: "map_of ts t = Some tg"
      and run: "find_deps_loop ts t (t_expanded_deps tg) [] cache (t # roots) = Inr (l1, c1)"
      and l: "l = l1" "cache' = c1(t \<mapsto> l1)"
      using "1.prems"(1)
      by (auto simp: find_all_deps.simps [of ts t] res_simps split: option.splits prod.splits)
    have "deps_of ts t = g t" using "1.prems"(2) None unfolding agrees_def by (metis domIff)
    then have deps: "t_expanded_deps tg = g t" using tg by (simp add: deps_of_def)
    have "cache_inv E cache (t # roots)"
      using "1.prems"(3) None by (auto simp: cache_inv_def)
    from "1.IH" [OF None tg run "1.prems"(2) this]
    have ih: "cache_inv E c1 (t # roots)" "cache \<subseteq>\<^sub>m c1" "set (g t) \<subseteq> dom c1" "link_ordered E l1"
        "set l1 = set (g t) \<union> (\<Union>d \<in> set (g t). E\<^sup>+ `` {d})"
      by (auto simp: deps link_ordered_def)
    have "cache_inv E (c1(t \<mapsto> l1)) roots"
      using ih(3,5) by (intro cache_inv_store [OF ih(1) "1.prems"(4) _ ih(4)]) (simp_all add: E_def)
    moreover have "cache \<subseteq>\<^sub>m c1(t \<mapsto> l1)"
      using ih(2) None by (simp add: map_le_def) blast
    ultimately show ?thesis unfolding l by (metis fun_upd_same)
  next
    case (Some l0)
    with "1.prems" show ?thesis by (auto simp: find_all_deps.simps [of ts t])
  qed
next
  case (2 ts t acc cache roots)
  then show ?case by simp
next
  case (3 ts t d ds acc cache roots)
  from "3.prems"(1) obtain l1 c1 where d: "d \<notin> set roots" "d \<in> set (keys ts)"
    and run1: "find_all_deps ts d cache roots = Inr (l1, c1)"
    and run2: "find_deps_loop ts t ds (merge_piece acc (d # l1)) c1 roots = Inr (l, cache')"
    by (auto simp: res_simps split: if_splits prod.splits)
  have dk: "\<not> d \<notin> set (keys ts)" using d(2) by simp
  from "3.IH"(1) [OF d(1) dk run1 "3.prems"(2,3) d(1)]
  have c1: "cache_inv E c1 roots" "cache \<subseteq>\<^sub>m c1" "c1 d = Some l1" by auto
  then have lc: "link_closure E d l1" unfolding cache_inv_def by blast
  note merged = link_ordered_merge [OF "3.prems"(4) lc]
  from "3.IH"(2) [OF d(1) dk run1 refl run2 agrees_mono [OF "3.prems"(2) c1(2)] c1(1) merged(1)]
  have ih: "cache_inv E cache' roots" "c1 \<subseteq>\<^sub>m cache'" "set ds \<subseteq> dom cache'" "link_ordered E l"
      "set l = set (merge_piece acc (d # l1)) \<union> set ds \<union> (\<Union>d \<in> set ds. E\<^sup>+ `` {d})"
    by auto
  have "d \<in> dom cache'" using c1(3) map_le_implies_dom_le [OF ih(2)] by auto
  with ih c1(2) show ?case unfolding merged(2) by (auto intro: map_le_trans)
qed

section \<open>When the expansion succeeds\<close>

text \<open>On an acyclic graph whose dependencies are all present, nothing raises.\<close>

lemma find_all_deps_ok:
  fixes g :: "tkey \<Rightarrow> tkey list"
  defines "E \<equiv> edges g"
  assumes acyclic: "acyclic E"
  shows "agrees ts cache g \<Longrightarrow> cache_inv E cache roots \<Longrightarrow> closed_targets ts \<Longrightarrow>
      t \<in> set (keys ts) \<Longrightarrow> t \<notin> set roots \<Longrightarrow> (\<forall>r \<in> set roots. (r, t) \<in> E\<^sup>+) \<Longrightarrow>
      \<exists>l cache'. find_all_deps ts t cache roots = Inr (l, cache')"
    and "agrees ts cache g \<Longrightarrow> cache_inv E cache roots \<Longrightarrow> closed_targets ts \<Longrightarrow>
      link_ordered E acc \<Longrightarrow> set ds \<subseteq> set (keys ts) \<Longrightarrow> set ds \<subseteq> set (g t) \<Longrightarrow>
      (\<forall>r \<in> set roots. r = t \<or> (r, t) \<in> E\<^sup>+) \<Longrightarrow>
      \<exists>l cache'. find_deps_loop ts t ds acc cache roots = Inr (l, cache')"
proof (induction ts t cache roots and ts t ds acc cache roots
    rule: find_all_deps_find_deps_loop.induct)
  case (1 ts t cache roots)
  show ?case
  proof (cases "cache t")
    case None
    obtain tg where tg: "map_of ts t = Some tg" using map_of_in_keys "1.prems"(4) by fastforce
    have "deps_of ts t = g t" using "1.prems"(1) None unfolding agrees_def by (metis domIff)
    then have deps: "t_expanded_deps tg = g t" using tg by (simp add: deps_of_def)
    have inv: "cache_inv E cache (t # roots)"
      using "1.prems"(2) None by (auto simp: cache_inv_def)
    have sub: "set (t_expanded_deps tg) \<subseteq> set (keys ts)"
      using "1.prems"(3,4) tg unfolding closed_targets_def by (fastforce simp: deps_of_def)
    have "link_ordered E []" by (simp add: link_ordered_def)
    from "1.IH" [OF None tg "1.prems"(1) inv "1.prems"(3) this sub] "1.prems"(6)
    show ?thesis
      using None tg deps by (auto simp: find_all_deps.simps [of ts t])
  qed (simp add: find_all_deps.simps [of ts t])
next
  case (2 ts t acc cache roots)
  then show ?case by simp
next
  case (3 ts t d ds acc cache roots)
  have td: "(t, d) \<in> E" using "3.prems"(6) by (simp add: E_def)
  then have dr: "d \<notin> set roots"
    using "3.prems"(7) acyclic unfolding acyclic_def by (metis r_into_trancl' trancl_into_trancl)
  have dk: "\<not> d \<notin> set (keys ts)" using "3.prems"(5) by simp
  have up: "\<forall>r \<in> set roots. (r, d) \<in> E\<^sup>+"
    using "3.prems"(7) td by (metis r_into_trancl' trancl_into_trancl)
  from "3.IH"(1) [OF dr dk "3.prems"(1-3) _ dr up] dk
  obtain l1 c1 where run: "find_all_deps ts d cache roots = Inr (l1, c1)" by blast
  from find_all_deps_sound(1) [OF run "3.prems"(1) "3.prems"(2) [unfolded E_def] dr]
  have c1: "cache_inv E c1 roots" "cache \<subseteq>\<^sub>m c1" "c1 d = Some l1" by (auto simp: E_def)
  then have lc: "link_closure E d l1" unfolding cache_inv_def by blast
  from "3.IH"(2) [OF dr dk run refl agrees_mono [OF "3.prems"(1) c1(2)] c1(1) "3.prems"(3)
      link_ordered_merge(1) [OF "3.prems"(4) lc]] "3.prems"(5-7)
  show ?case using dr dk run by auto
qed

text \<open>The only exceptions are the two error exits.\<close>

lemma find_all_deps_error_exit:
  shows "find_all_deps ts t cache roots = Inl e \<Longrightarrow> t \<in> set (keys ts) \<Longrightarrow> \<exists>m. e = ErrorExit m"
    and "find_deps_loop ts t ds acc cache roots = Inl e \<Longrightarrow> \<exists>m. e = ErrorExit m"
proof (induction ts t cache roots and ts t ds acc cache roots
    rule: find_all_deps_find_deps_loop.induct)
  case (1 ts t cache roots)
  from "1.prems"(2) obtain tg where "map_of ts t = Some tg" using map_of_in_keys by fastforce
  with "1.prems" "1.IH" show ?case
    by (auto simp: find_all_deps.simps [of ts t] bind_res_eq_Inl split: option.splits)
next
  case (3 ts t d ds acc cache roots)
  then show ?case
    by (auto simp: bind_res_eq_Inl error_exit_def split: if_splits prod.splits)
qed simp

section \<open>Marks and the whole expansion\<close>

text \<open>What the expansion leaves alone: everything but \<open>expanded_deps\<close> and the four marks.\<close>

definition core :: "target \<Rightarrow> target" where
  "core t = t\<lparr>t_expanded_deps := [],
     t_data := (t_data t)\<lparr>d_build_dynamic := False, d_generate_php := False,
       d_generate_python := False, d_generate_java := False\<rparr>\<rparr>"

lemma core_mark_by [simp]: "core (mark_by src t) = core t"
  by (simp add: core_def mark_by_def)

lemma mark_by_deps [simp]: "t_expanded_deps (mark_by src t) = t_expanded_deps t"
  by (simp add: mark_by_def)

lemma mark_by_idem [simp]: "mark_by src (mark_by src t) = mark_by src t"
  by (simp add: mark_by_def)

lemma mark_by_dynamic [simp]:
  "d_build_dynamic (t_data (mark_by src t)) \<longleftrightarrow> d_build_dynamic (t_data t) \<or> d_dynamic_link (t_data src)"
  by (simp add: mark_by_def)

lemma core_eqD:
  "core t = core u \<Longrightarrow> d_dynamic_link (t_data t) = d_dynamic_link (t_data u) \<and> t_type t = t_type u"
proof -
  assume "core t = core u"
  then have "d_dynamic_link (t_data (core t)) = d_dynamic_link (t_data (core u))"
    "t_type (core t) = t_type (core u)" by simp_all
  then show ?thesis by (simp add: core_def)
qed

lemma mark_dep_Inr:
  "mark_dep src d ts = Inr ts' \<longleftrightarrow>
     (\<exists>t. map_of ts d = Some t \<and> ts' = dict_set d (mark_by src t) ts)"
  unfolding mark_dep_def bind_res_eq_Inr by auto

lemma mark_deps_result:
  "fold_res (mark_dep src) l ts = Inr ts' \<Longrightarrow>
     set (keys ts') = set (keys ts) \<and>
     map_of ts' = (\<lambda>k. if k \<in> set l then map_option (mark_by src) (map_of ts k) else map_of ts k)"
proof (induction l arbitrary: ts)
  case (Cons d l)
  then obtain t where t: "map_of ts d = Some t"
    and r: "fold_res (mark_dep src) l (dict_set d (mark_by src t) ts) = Inr ts'"
    by (auto simp: mark_dep_Inr bind_res_eq_Inr)
  note IH = Cons.IH [OF r]
  have "set (keys ts') = set (keys ts)" using conjunct1 [OF IH] map_of_key [OF t] by (simp add: insert_absorb)
  moreover have "map_of ts' k = (if k \<in> set (d # l) then map_option (mark_by src) (map_of ts k) else map_of ts k)" for k
    unfolding conjunct2 [OF IH] using t by (cases "k = d") simp_all
  ultimately show ?case by blast
qed simp

lemma mark_deps_ok:
  "set l \<subseteq> set (keys ts) \<Longrightarrow> \<exists>ts'. fold_res (mark_dep src) l ts = Inr ts'"
proof -
  assume l: "set l \<subseteq> set (keys ts)"
  have "\<exists>s'. fold_res (mark_dep src) l ts = Inr s' \<and> set (keys ts) \<subseteq> set (keys s')"
  proof (rule fold_res_ok)
    fix x and s :: targets
    assume x: "x \<in> set l" and sub: "set (keys ts) \<subseteq> set (keys s)"
    then have "x \<in> set (keys s)" using l by blast
    then have "x \<in> fst ` set s" by (simp only: set_map)
    then obtain v where "map_of s x = Some v" by (rule exE [OF map_of_in_keys])
    then have "mark_dep src x s = Inr (dict_set x (mark_by src v) s)" unfolding mark_dep_Inr by blast
    moreover have "set (keys ts) \<subseteq> set (keys (dict_set x (mark_by src v) s))"
      using sub by (simp add: subset_insertI2)
    ultimately show "\<exists>s'. mark_dep src x s = Inr s' \<and> set (keys ts) \<subseteq> set (keys s')" by blast
  qed simp
  then show ?thesis by blast
qed

text \<open>The state of the loop of \<open>_expand_deps\<close> after the targets in \<open>ps\<close>, started from \<open>ts0\<close>\<close>

definition expand_inv :: "targets \<Rightarrow> tkey list \<Rightarrow> targets \<times> deps_cache \<Rightarrow> bool" where
  "expand_inv ts0 ps st \<longleftrightarrow>
     (case st of (ts, cache) \<Rightarrow>
        set (keys ts) = set (keys ts0) \<and>
        cache_inv (dep_graph ts0) cache [] \<and>
        (\<forall>k. if k \<in> set ps then cache k = Some (deps_of ts k) else deps_of ts k = deps_of ts0 k) \<and>
        (\<forall>k. map_option core (map_of ts k) = map_option core (map_of ts0 k)) \<and>
        (\<forall>k t t0. map_of ts k = Some t \<longrightarrow> map_of ts0 k = Some t0 \<longrightarrow>
           d_build_dynamic (t_data t) =
             (d_build_dynamic (t_data t0) \<or>
              (\<exists>p u. p \<in> set ps \<and> map_of ts0 p = Some u \<and> d_dynamic_link (t_data u) \<and>
                 (p, k) \<in> (dep_graph ts0)\<^sup>+))))"

lemma expand_inv_agrees: "expand_inv ts0 ps (ts, cache) \<Longrightarrow> agrees ts cache (deps_of ts0)"
  unfolding expand_inv_def agrees_def prod.case by (metis domI)

lemma expand_one_Inr:
  "expand_one k (ts, cache) = Inr (ts', cache') \<longleftrightarrow>
     (\<exists>t l. map_of ts k = Some t \<and> find_all_deps ts k cache [] = Inr (l, cache') \<and>
        fold_res (mark_dep t) l (dict_set k (t\<lparr>t_expanded_deps := l\<rparr>) ts) = Inr ts')"
  unfolding expand_one_def by (auto simp: bind_res_eq_Inr)

lemma map_core_dict_set:
  "map_of ts k = Some t \<Longrightarrow>
     map_option core (map_of (dict_set k (t\<lparr>t_expanded_deps := l\<rparr>) ts) x) = map_option core (map_of ts x)"
  by (auto simp: core_def)

lemma ex_snoc:
  "(\<exists>p w. p \<in> set (ps @ [k]) \<and> P p w) \<longleftrightarrow> (\<exists>p w. p \<in> set ps \<and> P p w) \<or> (\<exists>w. P k w)"
  by auto

lemma expand_inv_step:
  assumes inv: "expand_inv ts0 ps (ts, cache)"
    and step: "expand_one k (ts, cache) = Inr (ts', cache')"
  shows "expand_inv ts0 (ps @ [k]) (ts', cache')"
proof -
  let ?E = "dep_graph ts0"
  from step obtain t l where t: "map_of ts k = Some t"
    and find: "find_all_deps ts k cache [] = Inr (l, cache')"
    and marks: "fold_res (mark_dep t) l (dict_set k (t\<lparr>t_expanded_deps := l\<rparr>) ts) = Inr ts'"
    unfolding expand_one_Inr by blast
  from inv have I: "set (keys ts) = set (keys ts0)" "cache_inv ?E cache []"
    "\<And>x. x \<in> set ps \<Longrightarrow> cache x = Some (deps_of ts x)"
    "\<And>x. x \<notin> set ps \<Longrightarrow> deps_of ts x = deps_of ts0 x"
    "\<And>x. map_option core (map_of ts x) = map_option core (map_of ts0 x)"
    unfolding expand_inv_def prod.case by (meson, meson, metis, metis, meson)
  have flags: "d_build_dynamic (t_data u) =
       (d_build_dynamic (t_data u0) \<or>
        (\<exists>p w. p \<in> set ps \<and> map_of ts0 p = Some w \<and> d_dynamic_link (t_data w) \<and> (p, x) \<in> ?E\<^sup>+))"
    if "map_of ts x = Some u" "map_of ts0 x = Some u0" for x u u0
    using inv that unfolding expand_inv_def prod.case by blast
  from find_all_deps_sound(1) [OF find expand_inv_agrees [OF inv], folded dep_graph_def] I(2)
  have c: "cache_inv ?E cache' []" "cache \<subseteq>\<^sub>m cache'" "cache' k = Some l" by simp_all
  then have reach: "set l = ?E\<^sup>+ `` {k}" unfolding cache_inv_def link_closure_def by blast
  let ?ts1 = "dict_set k (t\<lparr>t_expanded_deps := l\<rparr>) ts"
  note M = mark_deps_result [OF marks]
  have look: "map_of ts' x = (if x \<in> set l then map_option (mark_by t) (map_of ?ts1 x) else map_of ?ts1 x)" for x
    using M by metis
  have keys': "set (keys ts') = set (keys ts0)"
    using M I(1) t by (auto dest: map_of_key)
  have deps': "deps_of ts' x = (if x = k then l else deps_of ts x)" for x
    unfolding deps_of_def look by (auto simp: option.case_eq_if option.map_sel)
  have core': "map_option core (map_of ts' x) = map_option core (map_of ts0 x)" for x
    using map_core_dict_set [OF t, of l x] I(5) [of x]
    by (auto simp: look option.map_comp o_def)
  have cache'': "if x \<in> set (ps @ [k]) then cache' x = Some (deps_of ts' x)
      else deps_of ts' x = deps_of ts0 x" for x
  proof (cases "x = k")
    case False
    have "cache' x = Some (deps_of ts x)" if "x \<in> set ps"
      using I(3) [OF that] c(2) unfolding map_le_def by (metis domI)
    with False I(4) show ?thesis by (simp add: deps')
  qed (simp add: deps' c(3))
  have flags': "d_build_dynamic (t_data u) =
       (d_build_dynamic (t_data u0) \<or>
        (\<exists>p w. p \<in> set (ps @ [k]) \<and> map_of ts0 p = Some w \<and> d_dynamic_link (t_data w) \<and> (p, x) \<in> ?E\<^sup>+))"
    if u: "map_of ts' x = Some u" "map_of ts0 x = Some u0" for x u u0
  proof -
    obtain v where v: "map_of ts x = Some v" using I(5) [of x] u(2) by (cases "map_of ts x") auto
    obtain t0 where t0: "map_of ts0 k = Some t0" using I(5) [of k] t by (cases "map_of ts0 k") auto
    have dyn: "d_dynamic_link (t_data t) = d_dynamic_link (t_data t0)"
    proof -
      have "core t = core t0" using I(5) [of k] t t0 by simp
      then show ?thesis by (rule core_eqD [THEN conjunct1])
    qed
    have "d_build_dynamic (t_data u) =
        (d_build_dynamic (t_data v) \<or> (x \<in> set l \<and> d_dynamic_link (t_data t)))"
      using u(1) v t by (auto simp: look split: if_splits)
    moreover have "x \<in> set l \<longleftrightarrow> (k, x) \<in> ?E\<^sup>+" by (simp add: reach)
    moreover have "(\<exists>w. map_of ts0 k = Some w \<and> d_dynamic_link (t_data w) \<and> (k, x) \<in> ?E\<^sup>+) \<longleftrightarrow>
        d_dynamic_link (t_data t) \<and> (k, x) \<in> ?E\<^sup>+" by (simp add: t0 dyn)
    ultimately show ?thesis unfolding flags [OF v u(2)] ex_snoc by blast
  qed
  show ?thesis
    unfolding expand_inv_def prod.case using keys' c(1) cache'' core' flags' by blast
qed

lemma find_all_deps_dom:
  shows "find_all_deps ts t cache roots = Inr (l, cache') \<Longrightarrow>
      dom cache' \<subseteq> dom cache \<union> set (keys ts)"
    and "find_deps_loop ts t ds acc cache roots = Inr (l, cache') \<Longrightarrow>
      dom cache' \<subseteq> dom cache \<union> set (keys ts)"
proof (induction ts t cache roots and ts t ds acc cache roots arbitrary: l cache' and l cache'
    rule: find_all_deps_find_deps_loop.induct)
  case (1 ts t cache roots)
  show ?case
  proof (cases "cache t")
    case None
    then obtain tg c1 where tg: "map_of ts t = Some tg"
      and run: "find_deps_loop ts t (t_expanded_deps tg) [] cache (t # roots) = Inr (l, c1)"
      and c: "cache' = c1(t \<mapsto> l)"
      using "1.prems"
      by (auto simp: find_all_deps.simps [of ts t] bind_res_eq_Inr split: option.splits)
    from "1.IH" [OF None tg run] have "dom c1 \<subseteq> dom cache \<union> set (keys ts)" .
    moreover have "dom cache' = insert t (dom c1)" by (simp add: c)
    moreover have "t \<in> set (keys ts)" using map_of_key [OF tg] by (simp only: set_map)
    ultimately show ?thesis by (metis UnI2 insert_subset)
  qed (use "1.prems" in \<open>simp add: find_all_deps.simps [of ts t]\<close>)
next
  case (3 ts t d ds acc cache roots)
  from "3.prems" obtain l1 c1 where d: "d \<notin> set roots" "\<not> d \<notin> set (keys ts)"
    and run1: "find_all_deps ts d cache roots = Inr (l1, c1)"
    and run2: "find_deps_loop ts t ds (merge_piece acc (d # l1)) c1 roots = Inr (l, cache')"
    by (auto simp: bind_res_eq_Inr split: if_splits)
  show ?case using "3.IH"(1) [OF d run1] "3.IH"(2) [OF d run1 refl run2] by blast
qed simp

lemma expand_inv_start: "expand_inv ts [] (ts, Map.empty)"
  by (simp add: expand_inv_def cache_inv_def)

lemma expand_deps_inv:
  assumes "expand_deps ts = Inr ts'"
  shows "\<exists>cache. expand_inv ts (keys ts) (ts', cache)"
proof -
  from assms obtain cache where "fold_res expand_one (keys ts) (ts, Map.empty) = Inr (ts', cache)"
    by (auto simp: expand_deps_def bind_res_eq_Inr)
  then have "expand_inv ts (keys ts) (ts', cache)"
    by (rule fold_res_prefix [where I = "expand_inv ts", rotated 2])
      (auto simp: expand_inv_start intro: expand_inv_step)
  then show ?thesis by blast
qed

lemma expand_deps_sound:
  assumes "expand_deps ts = Inr ts'"
  shows "set (keys ts') = set (keys ts)"
    and "k \<in> set (keys ts) \<Longrightarrow> link_closure (dep_graph ts) k (deps_of ts' k)"
    and "map_option core (map_of ts' k) = map_option core (map_of ts k)"
    and "map_of ts' k = Some t \<Longrightarrow> map_of ts k = Some t0 \<Longrightarrow>
      d_build_dynamic (t_data t) \<longleftrightarrow>
        d_build_dynamic (t_data t0) \<or>
        (\<exists>p u. map_of ts p = Some u \<and> d_dynamic_link (t_data u) \<and> (p, k) \<in> (dep_graph ts)\<^sup>+)"
proof -
  obtain cache where I: "expand_inv ts (keys ts) (ts', cache)"
    using expand_deps_inv [OF assms] ..
  then show "set (keys ts') = set (keys ts)"
    and "map_option core (map_of ts' k) = map_option core (map_of ts k)"
    unfolding expand_inv_def prod.case by (meson, meson)
  have "cache_inv (dep_graph ts) cache []" using I unfolding expand_inv_def prod.case by meson
  moreover have "k \<in> set (keys ts) \<Longrightarrow> cache k = Some (deps_of ts' k)"
    using I unfolding expand_inv_def prod.case by metis
  ultimately show "k \<in> set (keys ts) \<Longrightarrow> link_closure (dep_graph ts) k (deps_of ts' k)"
    unfolding cache_inv_def by blast
  assume "map_of ts' k = Some t" and "map_of ts k = Some t0"
  then have "d_build_dynamic (t_data t) \<longleftrightarrow>
        d_build_dynamic (t_data t0) \<or>
        (\<exists>p u. p \<in> set (keys ts) \<and> map_of ts p = Some u \<and> d_dynamic_link (t_data u) \<and>
           (p, k) \<in> (dep_graph ts)\<^sup>+)"
    using I unfolding expand_inv_def prod.case by meson
  moreover have "p \<in> set (keys ts)" if "map_of ts p = Some u" for p u
    using map_of_key [OF that] by (simp only: set_map)
  ultimately show "d_build_dynamic (t_data t) \<longleftrightarrow>
        d_build_dynamic (t_data t0) \<or>
        (\<exists>p u. map_of ts p = Some u \<and> d_dynamic_link (t_data u) \<and> (p, k) \<in> (dep_graph ts)\<^sup>+)"
    by blast
qed

lemma dep_graph_keys: "(a, b) \<in> dep_graph ts \<Longrightarrow> a \<in> set (keys ts)"
proof (rule ccontr)
  assume ab: "(a, b) \<in> dep_graph ts" and "a \<notin> set (keys ts)"
  then have "deps_of ts a = []" by (intro deps_of_not_key)
  with ab show False by (simp add: dep_graph_def)
qed

lemma expand_deps_acyclic:
  assumes "expand_deps ts = Inr ts'"
  shows "acyclic (dep_graph ts)"
  unfolding acyclic_def
proof (intro allI notI)
  fix k assume k: "(k, k) \<in> (dep_graph ts)\<^sup>+"
  then have "k \<in> set (keys ts)" by (meson dep_graph_keys tranclD)
  from expand_deps_sound(2) [OF assms this] k show False unfolding link_closure_def by blast
qed

lemma expand_deps_closed:
  assumes "expand_deps ts = Inr ts'"
  shows "closed_targets ts"
  unfolding closed_targets_def
proof (intro ballI subsetI)
  let ?J = "\<lambda>ps st. expand_inv ts ps st \<and> dom (snd st) \<subseteq> set (keys ts)"
  from assms obtain cache where run: "fold_res expand_one (keys ts) (ts, Map.empty) = Inr (ts', cache)"
    by (auto simp: expand_deps_def bind_res_eq_Inr)
  have "?J (keys ts) (ts', cache)"
  proof (rule fold_res_prefix [where I = ?J, OF _ _ run])
    fix ys x zs and s s' :: "targets \<times> deps_cache"
    assume J: "?J ys s" and st: "expand_one x s = Inr s'"
    obtain us c us' c' where s: "s = (us, c)" "s' = (us', c')" by fastforce
    have "set (keys us) = set (keys ts)" using J unfolding s expand_inv_def prod.case by meson
    moreover obtain l where "find_all_deps us x c [] = Inr (l, c')"
      using st unfolding s expand_one_Inr by blast
    ultimately have "dom c' \<subseteq> dom c \<union> set (keys ts)"
      using find_all_deps_dom(1) [of us x c "[]" l c'] by metis
    moreover have "dom c \<subseteq> set (keys ts)" using J unfolding s snd_conv by blast
    ultimately have "dom c' \<subseteq> set (keys ts)" by blast
    then show "?J (ys @ [x]) s'" using J st expand_inv_step unfolding s snd_conv by metis
  qed (simp add: expand_inv_start)
  then have inv: "expand_inv ts (keys ts) (ts', cache)" and dom: "dom cache \<subseteq> set (keys ts)" by auto
  fix k d assume k: "k \<in> set (keys ts)" and "d \<in> set (deps_of ts k)"
  then have "(k, d) \<in> (dep_graph ts)\<^sup>+" by (auto simp: dep_graph_def)
  moreover have "cache_inv (dep_graph ts) cache []" "k \<in> dom cache"
    using inv k unfolding expand_inv_def prod.case by (meson, metis domI)
  ultimately show "d \<in> set (keys ts)" using cache_inv_reach dom by blast
qed

lemma expand_deps_ok:
  assumes closed: "closed_targets ts" and acyclic: "acyclic (dep_graph ts)"
  shows "\<exists>ts'. expand_deps ts = Inr ts'"
proof -
  let ?J = "\<lambda>ps st. expand_inv ts ps st \<and> closed_targets (fst st)"
  have "\<exists>s'. fold_res expand_one (keys ts) (ts, Map.empty) = Inr s' \<and> ?J (keys ts) s'"
  proof (rule fold_res_prefix_ok [where I = ?J])
    fix ys x zs and s :: "targets \<times> deps_cache"
    assume xs: "keys ts = ys @ x # zs" and J: "?J ys s"
    obtain us c where s: "s = (us, c)" by fastforce
    have I: "expand_inv ts ys (us, c)" and C: "closed_targets us" using J s by auto
    have K: "set (keys us) = set (keys ts)" and ci: "cache_inv (dep_graph ts) c []"
      using I unfolding expand_inv_def prod.case by (meson, meson)
    have "x \<in> set (keys ts)" using arg_cong [OF xs, of set] by simp
    then have x: "x \<in> set (keys us)" using K by simp
    obtain l c' where find: "find_all_deps us x c [] = Inr (l, c')"
      using find_all_deps_ok(1) [OF acyclic [unfolded dep_graph_def] expand_inv_agrees [OF I]
          ci [unfolded dep_graph_def] C x] by auto
    have c': "cache_inv (dep_graph ts) c' []" "c' x = Some l"
      using find_all_deps_sound(1) [OF find expand_inv_agrees [OF I] ci [unfolded dep_graph_def]]
      by (simp_all add: dep_graph_def)
    then have reach: "set l = (dep_graph ts)\<^sup>+ `` {x}" unfolding cache_inv_def link_closure_def by blast
    have "b \<in> set (keys ts)" if "(a, b) \<in> dep_graph ts" for a b
      using that dep_graph_keys [OF that] closed unfolding closed_targets_def dep_graph_def by auto
    then have lk: "set l \<subseteq> set (keys us)" unfolding reach K by (auto elim: tranclE)
    obtain t where t: "map_of us x = Some t" using map_of_in_keys [of x us] x by auto
    let ?us1 = "dict_set x (t\<lparr>t_expanded_deps := l\<rparr>) us"
    have "set l \<subseteq> set (keys ?us1)" using lk by auto
    then obtain us' where marks: "fold_res (mark_dep t) l ?us1 = Inr us'"
      using mark_deps_ok by blast
    have step: "expand_one x s = Inr (us', c')" unfolding s expand_one_Inr using t find marks by blast
    have I': "expand_inv ts (ys @ [x]) (us', c')" using expand_inv_step [OF I] step s by simp
    have "closed_targets us'"
      unfolding closed_targets_def
    proof
      note M = mark_deps_result [OF marks]
      have K': "set (keys us') = set (keys us)" using M x by (simp add: insert_absorb)
      fix k assume k: "k \<in> set (keys us')"
      have "deps_of us' k = (if k = x then l else deps_of us k)"
        unfolding deps_of_def conjunct2 [OF M] by (auto simp: option.case_eq_if option.map_sel)
      then show "set (deps_of us' k) \<subseteq> set (keys us')"
        using lk C k unfolding K' closed_targets_def by auto
    qed
    then show "\<exists>s'. expand_one x s = Inr s' \<and> ?J (ys @ [x]) s'" using step I' by auto
  qed (simp add: expand_inv_start closed)
  then show ?thesis by (auto simp: expand_deps_def)
qed

lemma expand_deps_error:
  assumes "expand_deps ts = Inl e"
  shows "\<exists>m. e = ErrorExit m"
proof -
  have gen: "\<exists>m. e = ErrorExit m"
    if "fold_res expand_one ks (us, c) = Inl e" "set ks \<subseteq> set (keys us)" "expand_inv ts ps (us, c)"
      "dom c \<subseteq> set (keys us)"
    for ks ps us c
    using that
  proof (induction ks arbitrary: us c ps)
    case (Cons k ks)
    have k: "k \<in> set (keys us)" using Cons.prems(2) by simp
    then obtain t where t: "map_of us k = Some t" using map_of_in_keys [of k us] by auto
    show ?case
    proof (cases "expand_one k (us, c)")
      case (Inr s')
      obtain us' c' where s': "s' = (us', c')" by fastforce
      from expand_inv_step [OF Cons.prems(3)] Inr s'
      have I: "expand_inv ts (ps @ [k]) (us', c')" by simp
      have K: "set (keys us') = set (keys us)"
        using I Cons.prems(3) unfolding expand_inv_def prod.case by metis
      obtain l where "find_all_deps us k c [] = Inr (l, c')"
        using Inr unfolding s' expand_one_Inr by blast
      then have D: "dom c' \<subseteq> set (keys us')"
        using find_all_deps_dom(1) [of us k c "[]" l c'] Cons.prems(4) unfolding K by blast
      have "fold_res expand_one ks (us', c') = Inl e" using Cons.prems(1) Inr s' by simp
      moreover have "set ks \<subseteq> set (keys us')" using Cons.prems(2) unfolding K by simp
      ultimately show ?thesis using Cons.IH I D by blast
    next
      case (Inl e')
      then have e': "e' = e" using Cons.prems(1) by simp
      show ?thesis
      proof (cases "find_all_deps us k c []")
        case (Inl e2)
        then show ?thesis
          using find_all_deps_error_exit(1) [OF Inl k] \<open>expand_one k (us, c) = Inl e'\<close> e' t
          by (auto simp: expand_one_def dict_index_def)
      next
        case (Inr lc)
        obtain l c' where lc: "lc = (l, c')" by fastforce
        have ci: "cache_inv (dep_graph ts) c []"
          using Cons.prems(3) unfolding expand_inv_def prod.case by meson
        from find_all_deps_sound(1) [OF Inr [unfolded lc] expand_inv_agrees [OF Cons.prems(3)]
            ci [unfolded dep_graph_def]]
        have c': "cache_inv (dep_graph ts) c' []" "c' k = Some l"
          unfolding dep_graph_def by simp_all
        then have "set l = (dep_graph ts)\<^sup>+ `` {k}" unfolding cache_inv_def link_closure_def by blast
        then have "set l \<subseteq> dom c'"
          using cache_inv_reach [OF c'(1) domI [of c', OF c'(2)]] by blast
        moreover have "dom c' \<subseteq> dom c \<union> set (keys us)"
          by (rule find_all_deps_dom(1) [OF Inr [unfolded lc]])
        ultimately have "set l \<subseteq> set (keys us)" using Cons.prems(4) by blast
        then have "set l \<subseteq> set (keys (dict_set k (t\<lparr>t_expanded_deps := l\<rparr>) us))" by auto
        then obtain us' where "fold_res (mark_dep t) l (dict_set k (t\<lparr>t_expanded_deps := l\<rparr>) us) = Inr us'"
          using mark_deps_ok by blast
        then have "expand_one k (us, c) = Inr (us', c')"
          unfolding expand_one_Inr using t Inr lc by blast
        then show ?thesis using Inl by simp
      qed
    qed
  qed simp
  have "fold_res expand_one (keys ts) (ts, Map.empty) = Inl e"
    using assms by (auto simp: expand_deps_def bind_res_eq_Inl)
  then show ?thesis by (rule gen [OF _ _ expand_inv_start]) auto
qed

end
