(* ===== verification/LoadBuild.thy ===== *)
theory LoadBuild
  imports BuildFile DependencyExpansion
begin

text \<open>
  \<open>load_build_files.py\<close>: from the targets of the command line to the dictionary of related
  targets, loading BUILD files on the way.

  The file system is a \<open>world\<close>: which paths exist, the BUILD file of each directory that has
  one, and the tree of directories below a path. \<open>cited_targets\<close> is a set; the model keeps
  it as a list without duplicates, and \<open>pick\<close> chooses the element that \<open>pop\<close> takes, so
  what is proved holds for every choice. Target objects are shared with the database, so
  \<open>related_targets\<close> is the list of its keys. The text of a traceback is an argument.
\<close>

section \<open>The file system\<close>

datatype dir_tree = Dir "(string \<times> dir_tree) list"

record world =
  w_exists :: "string \<Rightarrow> bool"
  w_builds :: "(string, build_script) dict"
  w_tree :: "string \<Rightarrow> dir_tree"
  w_cwd :: string
  w_env :: build_env
  w_traceback :: "py_error \<Rightarrow> string"

text \<open>
  \<open>os.walk\<close> from the top down, with the directories whose name starts with a dot removed
  before it descends: the directories the loop appends, in its order.
\<close>

fun walk_dirs :: "string \<Rightarrow> dir_tree \<Rightarrow> string list" where
  "walk_dirs root (Dir ds) =
     map (\<lambda>d. path_join root (fst d)) (filter (\<lambda>d. \<not> startswith (fst d) ''.'') ds) @
     concat (map (\<lambda>d. if startswith (fst d) ''.'' then []
                      else walk_dirs (path_join root (fst d)) (snd d)) ds)"

section \<open>Loading one BUILD file\<close>

text \<open>\<open>_find_dir_depender\<close> and \<open>_find_depender\<close>\<close>

definition find_dir_depender :: "string \<Rightarrow> targets \<Rightarrow> string option" where
  "find_dir_depender dir db =
     map_option (\<lambda>kt. label (t_path (snd kt)) (t_name (snd kt)))
       (find (\<lambda>kt. \<exists>dkey \<in> set (t_expanded_deps (snd kt)). fst dkey = dir) db)"

definition find_depender :: "tkey \<Rightarrow> targets \<Rightarrow> string option" where
  "find_depender dkey db =
     map_option (\<lambda>kt. label (t_path (snd kt)) (t_name (snd kt)))
       (find (\<lambda>kt. dkey \<in> set (t_expanded_deps (snd kt))) db)"

definition report_not_exist :: "string \<Rightarrow> string \<Rightarrow> targets \<Rightarrow> 'a res" where
  "report_not_exist source_dir path db =
     (case find_dir_depender source_dir db of
        Some depender \<Rightarrow>
          error_exit (''//'' @ path @ '' not found, required by '' @ depender @ '', exit...'')
      | None \<Rightarrow> error_exit (''//'' @ path @ '' not found, exit...''))"

datatype if_fail = IgnoreIfFail | WarnIfFail | AbortIfFail

definition load_build_file ::
  "world \<Rightarrow> string \<Rightarrow> if_fail \<Rightarrow> string list \<times> blade \<Rightarrow> (string list \<times> blade) res" where
  "load_build_file w dir action st =
     (case st of (processed, b) \<Rightarrow>
      let source_dir = normpath dir in
      if source_dir \<in> set processed \<or> source_dir = ''#'' then Inr (processed, b)
      else if \<not> w_exists w source_dir then report_not_exist source_dir source_dir (b_database b)
      else
        let b1 = b\<lparr>b_current_source_path := source_dir\<rparr>;
            build_file = path_join source_dir ''BUILD''
        in case map_of (w_builds w) source_dir of
             Some script \<Rightarrow>
               (case run_script (w_env w) script b1 of
                  Inr b2 \<Rightarrow>
                    Inr (source_dir # processed,
                         b2\<lparr>b_current_source_path := b_current_source_path b\<rparr>)
                | Inl (ErrorExit _) \<Rightarrow> error_exit (build_file @ '': fatal error, exit...'')
                | Inl (SysExit _) \<Rightarrow> error_exit (build_file @ '': fatal error, exit...'')
                | Inl e \<Rightarrow> error_exit (''Parse error in '' @ build_file @ '', exit...'' @ newline @
                    w_traceback w e))
           | None \<Rightarrow>
               if action = AbortIfFail
               then report_not_exist source_dir build_file (b_database b1)
               else Inr (source_dir # processed, b))"

lemma load_build_file_progress:
  assumes "load_build_file w dir action (processed, b) = Inr (processed', b')"
  shows "(processed', b') = (processed, b) \<or>
    (normpath dir \<notin> set processed \<and> processed' = normpath dir # processed \<and>
     (action = AbortIfFail \<longrightarrow> normpath dir \<in> set (keys (w_builds w))))"
  using assms
  by (auto simp: load_build_file_def Let_def report_not_exist_def split: if_splits option.splits
      sum.splits py_error.splits dest: map_of_key)

section \<open>The targets of the command line\<close>

definition split_target_id :: "string \<Rightarrow> string \<times> string" where
  "split_target_id target_id =
     (case rsplit_char1 CHR '':'' target_id of
        [source_dir, target_name] \<Rightarrow> (source_dir, target_name)
      | _ \<Rightarrow> (target_id, ''*''))"

text \<open>One round of the loop over \<open>target_ids\<close>: the cited targets and the source directories\<close>

definition parse_target_id ::
  "world \<Rightarrow> string \<Rightarrow> string \<Rightarrow> string \<Rightarrow> tkey list \<times> (string \<times> if_fail) list \<Rightarrow>
   (tkey list \<times> (string \<times> if_fail) list) res" where
  "parse_target_id w working_dir root target_id st =
     (case st of (cited, dirs) \<Rightarrow>
      case split_target_id target_id of (source_dir, target_name) \<Rightarrow>
      bind_res (relative_path (w_cwd w) (path_join working_dir source_dir) root) (\<lambda>source_dir.
      Inr (if target_name \<noteq> ''*'' \<and> target_name \<noteq> [] then
             (add_new (source_dir, target_name) cited, dirs)
           else if endswith source_dir ''...'' then
             (let d = drop_last 3 source_dir;
                  d = (if d = [] then ''./'' else d)
              in (cited, dirs @ (d, WarnIfFail) #
                    map (\<lambda>p. (p, IgnoreIfFail)) (walk_dirs d (w_tree w d))))
           else (cited, dirs @ [(source_dir, AbortIfFail)]))))"

definition load_source_dirs ::
  "world \<Rightarrow> (string \<times> if_fail) list \<Rightarrow> string list \<times> blade \<Rightarrow> (string list \<times> blade) res" where
  "load_source_dirs w dirs st = fold_res (\<lambda>(d, action). load_build_file w d action) dirs st"

section \<open>The related targets\<close>

definition pop_index :: "(tkey list \<Rightarrow> nat) \<Rightarrow> tkey list \<Rightarrow> nat" where
  "pop_index pick cited = pick cited mod length cited"

definition popped :: "(tkey list \<Rightarrow> nat) \<Rightarrow> tkey list \<Rightarrow> tkey" where
  "popped pick cited = cited ! pop_index pick cited"

definition after_pop :: "(tkey list \<Rightarrow> nat) \<Rightarrow> tkey list \<Rightarrow> tkey list" where
  "after_pop pick cited =
     take (pop_index pick cited) cited @ drop (Suc (pop_index pick cited)) cited"

definition show_depender :: "string option \<Rightarrow> string" where
  "show_depender d = (case d of None \<Rightarrow> ''None'' | Some s \<Rightarrow> s)"

definition new_cited :: "tkey list \<Rightarrow> tkey list \<Rightarrow> tkey list \<Rightarrow> tkey list" where
  "new_cited deps related cited = add_all_new (filter (\<lambda>k. k \<notin> set related) deps) cited"

lemma pop_index_less: "cited \<noteq> [] \<Longrightarrow> pop_index pick cited < length cited"
  by (simp add: pop_index_def)

lemma popped_in: "cited \<noteq> [] \<Longrightarrow> popped pick cited \<in> set cited"
  by (simp add: popped_def pop_index_less)

lemma after_pop_split:
  assumes "cited \<noteq> []"
  shows "cited = take (pop_index pick cited) cited @ popped pick cited # drop (Suc (pop_index pick cited)) cited"
  unfolding popped_def using pop_index_less [OF assms] by (metis id_take_nth_drop)

lemma set_after_pop: "cited \<noteq> [] \<Longrightarrow> set cited = insert (popped pick cited) (set (after_pop pick cited))"
  using arg_cong [OF after_pop_split [of cited pick], of set] by (simp add: after_pop_def)

lemma length_after_pop: "cited \<noteq> [] \<Longrightarrow> length (after_pop pick cited) < length cited"
  using pop_index_less [of cited pick] by (simp add: after_pop_def)

text \<open>
  The breadth-first loop. It ends: a round either drops a target seen before, or loads a
  BUILD file not loaded before, or moves a registered target to the related ones.
\<close>

function load_loop ::
  "world \<Rightarrow> (tkey list \<Rightarrow> nat) \<Rightarrow> tkey list \<Rightarrow> tkey list \<Rightarrow> string list \<times> blade \<Rightarrow>
   (tkey list \<times> string list \<times> blade) res" where
  "load_loop w pick cited related st =
     (if cited = [] then Inr (related, st)
      else
        let target_id = popped pick cited;
            rest = after_pop pick cited
        in if target_id \<in> set related then load_loop w pick rest related st
           else
             bind_res (load_build_file w (fst target_id) AbortIfFail st) (\<lambda>st'.
             case map_of (b_database (snd st')) target_id of
               None \<Rightarrow>
                 error_exit (show_depender (find_depender target_id (b_database (snd st'))) @
                   '': target '' @ label (fst target_id) (snd target_id) @ '' does not exists'')
             | Some t \<Rightarrow>
                 let related' = related @ [target_id]
                 in load_loop w pick (new_cited (t_expanded_deps t) related' rest) related' st'))"
  by pat_completeness auto
termination
proof (relation "inv_image (less_than <*lex*> less_than <*lex*> less_than)
    (\<lambda>(w, pick, cited, related, st).
       (card (set (keys (w_builds w)) - set (fst st)),
        card (set (keys (b_database (snd st))) - set related), length cited))", goal_cases)
  case (2 w pick cited related st target_id rest)
  then show ?case using length_after_pop by auto
next
  case (3 w pick cited related st target_id rest st' t related')
  obtain processed b processed' b' where st: "st = (processed, b)" "st' = (processed', b')"
    by fastforce
  have "load_build_file w (fst target_id) AbortIfFail (processed, b) = Inr (processed', b')"
    using 3(5) st by simp
  from load_build_file_progress [OF this] consider
      "processed' = processed" "b' = b"
    | "normpath (fst target_id) \<notin> set processed" "processed' = normpath (fst target_id) # processed"
      "normpath (fst target_id) \<in> set (keys (w_builds w))" by auto
  then show ?case
  proof cases
    case 1
    have "target_id \<in> set (keys (b_database b))"
      using 3(6) st(2) 1 by (auto dest: map_of_key simp only: snd_conv set_map)
    then have "set (keys (b_database b)) - set related' \<subset> set (keys (b_database b)) - set related"
      using 3(4,7) by auto
    then have "card (set (keys (b_database b)) - set related') < card (set (keys (b_database b)) - set related)"
      by (rule psubset_card_mono [rotated]) simp
    then show ?thesis using 1 st by simp
  next
    case 2
    then have "set (keys (w_builds w)) - set processed' \<subset> set (keys (w_builds w)) - set processed"
      by auto
    then have "card (set (keys (w_builds w)) - set processed') < card (set (keys (w_builds w)) - set processed)"
      by (rule psubset_card_mono [rotated]) simp
    then show ?thesis using st by simp
  qed
qed auto

declare load_loop.simps [simp del]

definition add_svn_root :: "tkey \<Rightarrow> string list \<Rightarrow> string list" where
  "add_svn_root k roots =
     (let root_dir = strip_ws (hd (split_char slash (fst k)))
      in if root_dir \<notin> set roots \<and> CHR ''#'' \<notin> set root_dir then roots @ [root_dir] else roots)"

text \<open>\<open>load_targets\<close>: direct targets, all targets of the command line, related targets\<close>

definition load_targets ::
  "world \<Rightarrow> (tkey list \<Rightarrow> nat) \<Rightarrow> string list \<Rightarrow> string \<Rightarrow> string \<Rightarrow> blade \<Rightarrow>
   (tkey list \<times> tkey list \<times> tkey list \<times> blade) res" where
  "load_targets w pick target_ids working_dir root b =
     bind_res (fold_res (parse_target_id w working_dir root) target_ids ([], [])) (\<lambda>(direct, dirs).
     bind_res (load_source_dirs w dirs ([], b)) (\<lambda>(processed, b1).
     let all_command = add_all_new (keys (b_database b1)) direct in
     bind_res (load_loop w pick all_command [] (processed, b1)) (\<lambda>(related, _, b2).
     Inr (direct, all_command, related,
          b2\<lparr>b_svn_roots := fold add_svn_root related (b_svn_roots b2)\<rparr>))))"


section \<open>The root directory\<close>

text \<open>
  The loop of \<open>find_blade_root_dir\<close>. On a directory whose parent is the directory itself it
  does not end, so its result is optional.
\<close>

partial_function (option) find_root :: "(string \<Rightarrow> bool) \<Rightarrow> string \<Rightarrow> string option" where
  "find_root isfile d =
     (if d = [] \<or> d = [slash] then Some d
      else if isfile (path_join d ''BLADE_ROOT'') then Some d
      else find_root isfile (dirname d))"

definition root_message :: string where
  "root_message =
     ''Can'' @ [quote1] @ ''t find the file '' @ sq ''BLADE_ROOT'' @ '' in this or any upper directory.'' @
     newline @
     ''Blade need this file as a placeholder to locate the root source directory '' @
     ''(aka the directory where you #include start from).'' @ newline @
     ''You should create it manually at the first time.''"

definition find_blade_root_dir :: "(string \<Rightarrow> bool) \<Rightarrow> string \<Rightarrow> string res option" where
  "find_blade_root_dir isfile working_dir =
     map_option (\<lambda>d. if d = [] \<or> d = [slash] then error_exit root_message else Inr d)
       (find_root isfile (if endswith working_dir [slash] then drop_last 1 working_dir else working_dir))"

end
