(* ===== verification/LoadCorrect.thy ===== *)
theory LoadCorrect
  imports LoadBuild
begin

text \<open>
  What \<open>load_targets\<close> promises: the related targets are registered, contain every target of
  the command line, are closed under dependencies, and hold nothing that the command line
  does not reach. The proof rests on the contract of the build functions, that a call only
  adds to a well-formed database.
\<close>

lemma load_build_file_extends:
  assumes "load_build_file w d action (p, b) = Inr (p', b')"
  shows "db_extends (b_database b) (b_database b')"
    and "db_inv (b_database b) \<Longrightarrow> db_inv (b_database b')"
    and "b_current_source_path b' = b_current_source_path b"
proof -
  have "(p', b') = (p, b) \<or> p' = normpath d # p \<and> b' = b \<or>
      (\<exists>script b2. run_script (w_env w) script (b\<lparr>b_current_source_path := normpath d\<rparr>) = Inr b2 \<and>
         b' = b2\<lparr>b_current_source_path := b_current_source_path b\<rparr>)"
    using assms
    by (auto simp: load_build_file_def Let_def report_not_exist_def split: if_splits option.splits
        sum.splits py_error.splits)
  then show "db_extends (b_database b) (b_database b')"
    and "db_inv (b_database b) \<Longrightarrow> db_inv (b_database b')"
    and "b_current_source_path b' = b_current_source_path b"
    by (auto dest!: run_script_step simp: db_step_def)
qed

lemma deps_of_extends: "db_extends db db' \<Longrightarrow> k \<in> set (keys db) \<Longrightarrow> deps_of db' k = deps_of db k"
proof -
  assume e: "db_extends db db'" and "k \<in> set (keys db)"
  then obtain t where "map_of db k = Some t" using map_of_in_keys [of k db] by auto
  then show ?thesis using db_extendsD [OF e] by (simp add: deps_of_def)
qed

lemma keys_extends: "db_extends db db' \<Longrightarrow> set (keys db) \<subseteq> set (keys db')"
proof
  fix k assume e: "db_extends db db'" and "k \<in> set (keys db)"
  then obtain t where "map_of db k = Some t" using map_of_in_keys [of k db] by auto
  then show "k \<in> set (keys db')" using map_of_key [OF db_extendsD [OF e]] by (simp only: set_map)
qed

lemma dep_graph_extends: "db_extends db db' \<Longrightarrow> dep_graph db \<subseteq> dep_graph db'"
proof (rule subrelI)
  fix a b assume e: "db_extends db db'" and ab: "(a, b) \<in> dep_graph db"
  then show "(a, b) \<in> dep_graph db'"
    using deps_of_extends [OF e dep_graph_keys [OF ab]] by (simp add: dep_graph_def)
qed

definition load_inv :: "tkey set \<Rightarrow> tkey set \<Rightarrow> tkey set \<Rightarrow> targets \<Rightarrow> bool" where
  "load_inv start cited related db \<longleftrightarrow>
     related \<subseteq> set (keys db) \<and>
     (\<forall>k \<in> related. set (deps_of db k) \<subseteq> related \<union> cited) \<and>
     start \<subseteq> related \<union> cited \<and>
     related \<union> cited \<subseteq> (dep_graph db)\<^sup>* `` start"

lemma load_inv_extends:
  assumes inv: "load_inv start cited related db" and e: "db_extends db db'"
  shows "load_inv start cited related db'"
proof -
  have "related \<subseteq> set (keys db')" using inv keys_extends [OF e] unfolding load_inv_def by blast
  moreover have "set (deps_of db' k) \<subseteq> related \<union> cited" if "k \<in> related" for k
    using inv that deps_of_extends [OF e, of k] unfolding load_inv_def by (metis subsetD)
  moreover have "(dep_graph db)\<^sup>* \<subseteq> (dep_graph db')\<^sup>*"
    using dep_graph_extends [OF e] by (rule rtrancl_mono)
  ultimately show ?thesis using inv unfolding load_inv_def by blast
qed

lemma load_inv_drop:
  "load_inv start (insert k cited) related db \<Longrightarrow> k \<in> related \<Longrightarrow> load_inv start cited related db"
  unfolding load_inv_def by blast

lemma load_inv_move:
  assumes inv: "load_inv start (insert k cited) related db" and t: "map_of db k = Some t"
  shows "load_inv start (cited \<union> (set (t_expanded_deps t) - insert k related)) (insert k related) db"
proof -
  have d: "deps_of db k = t_expanded_deps t" by (simp add: deps_of_def t)
  have kk: "k \<in> set (keys db)" using map_of_key [OF t] by (simp only: set_map)
  have "k \<in> (dep_graph db)\<^sup>* `` start" using inv unfolding load_inv_def by blast
  moreover have "(k, x) \<in> dep_graph db" if "x \<in> set (t_expanded_deps t)" for x
    using that d by (simp add: dep_graph_def)
  ultimately have "set (t_expanded_deps t) \<subseteq> (dep_graph db)\<^sup>* `` start"
    by (blast intro: rtrancl_into_rtrancl)
  then show ?thesis using inv kk d unfolding load_inv_def by auto
qed

lemma set_new_cited: "set (new_cited deps related cited) = set cited \<union> (set deps - set related)"
  by (auto simp: new_cited_def)

lemma load_loop_correct:
  "load_loop w pick cited related st = Inr (related', p', b') \<Longrightarrow>
     load_inv start (set cited) (set related) (b_database (snd st)) \<Longrightarrow>
     db_inv (b_database (snd st)) \<Longrightarrow> distinct related \<Longrightarrow>
     load_inv start {} (set related') (b_database b') \<and> db_inv (b_database b') \<and>
     distinct related' \<and> db_extends (b_database (snd st)) (b_database b')"
proof (induction w pick cited related st rule: load_loop.induct)
  case (1 w pick cited related st)
  show ?case
  proof (cases "cited = []")
    case True
    then show ?thesis using "1.prems" by (auto simp: load_loop.simps [of w pick "[]"])
  next
    case False
    let ?k = "popped pick cited"
    let ?rest = "after_pop pick cited"
    have sc: "set cited = insert ?k (set ?rest)" by (rule set_after_pop [OF False])
    show ?thesis
    proof (cases "?k \<in> set related")
      case True
      have "load_inv start (set ?rest) (set related) (b_database (snd st))"
        using load_inv_drop "1.prems"(2) True unfolding sc by blast
      with "1.IH"(1) [OF False refl refl True] "1.prems" show ?thesis
        using False True by (simp add: load_loop.simps [of w pick cited])
    next
      case fresh: False
      obtain p b where st: "st = (p, b)" by fastforce
      obtain p1 b1 t where load: "load_build_file w (fst ?k) AbortIfFail (p, b) = Inr (p1, b1)"
        and t: "map_of (b_database b1) ?k = Some t"
        and run: "load_loop w pick (new_cited (t_expanded_deps t) (related @ [?k]) ?rest)
            (related @ [?k]) (p1, b1) = Inr (related', p', b')"
        using "1.prems"(1) False fresh
        by (auto simp: load_loop.simps [of w pick cited] Let_def st bind_res_eq_Inr split: option.splits)
      note e = load_build_file_extends [OF load]
      have inv1: "load_inv start (insert ?k (set ?rest)) (set related) (b_database b1)"
        using load_inv_extends [OF _ e(1)] "1.prems"(2) sc st by simp
      have inv2: "load_inv start (set (new_cited (t_expanded_deps t) (related @ [?k]) ?rest))
          (set (related @ [?k])) (b_database b1)"
        using load_inv_move [OF inv1 t] by (simp add: set_new_cited Un_commute)
      have db1: "db_inv (b_database b1)" using e(2) "1.prems"(3) st by simp
      have d: "distinct (related @ [?k])" using "1.prems"(4) fresh by simp
      from "1.IH"(2) [OF False refl refl fresh load [folded st] _ refl] t run inv2 db1 d
      have "load_inv start {} (set related') (b_database b') \<and> db_inv (b_database b') \<and>
          distinct related' \<and> db_extends (b_database b1) (b_database b')" by simp
      with e(1) show ?thesis using db_extends_trans st by auto
    qed
  qed
qed

lemma load_source_dirs_extends:
  assumes "load_source_dirs w dirs (p, b) = Inr (p', b')"
  shows "db_extends (b_database b) (b_database b') \<and> (db_inv (b_database b) \<longrightarrow> db_inv (b_database b'))"
proof -
  let ?P = "\<lambda>st. db_extends (b_database b) (b_database (snd st)) \<and>
    (db_inv (b_database b) \<longrightarrow> db_inv (b_database (snd st)))"
  have "?P (p', b')"
  proof (rule fold_res_invariant [of dirs ?P, OF _ _ assms [unfolded load_source_dirs_def]])
    fix d and s s' :: "string list \<times> blade"
    assume P: "?P s" and step: "(case d of (d, action) \<Rightarrow> load_build_file w d action) s = Inr s'"
    obtain q c q' c' where s: "s = (q, c)" "s' = (q', c')" by fastforce
    obtain dir act where "d = (dir, act)" by fastforce
    with step s have "load_build_file w dir act (q, c) = Inr (q', c')" by simp
    note e = load_build_file_extends [OF this]
    show "?P s'" using P e(1,2) db_extends_trans unfolding s snd_conv by blast
  qed simp
  then show ?thesis by simp
qed

text \<open>The objects of the given keys, as a dictionary: \<open>build_targets\<close>\<close>

definition restrict :: "targets \<Rightarrow> tkey list \<Rightarrow> targets" where
  "restrict db ks = map (\<lambda>k. (k, the (map_of db k))) ks"

lemma keys_restrict [simp]: "keys (restrict db ks) = ks"
  by (induction ks) (simp_all add: restrict_def)

lemma map_of_restrict: "map_of (restrict db ks) k = (if k \<in> set ks then Some (the (map_of db k)) else None)"
  by (induction ks) (auto simp: restrict_def)

lemma deps_of_restrict:
  "set ks \<subseteq> set (keys db) \<Longrightarrow> k \<in> set ks \<Longrightarrow> deps_of (restrict db ks) k = deps_of db k"
  using map_of_in_keys [of k db] by (fastforce simp: deps_of_def map_of_restrict)

lemma load_inv_closed:
  assumes "load_inv start {} (set related) db"
  shows "set related = (dep_graph db)\<^sup>* `` start" and "closed_targets (restrict db related)"
proof -
  have R: "set related \<subseteq> set (keys db)" "start \<subseteq> set related"
    "set related \<subseteq> (dep_graph db)\<^sup>* `` start" "\<forall>k \<in> set related. set (deps_of db k) \<subseteq> set related"
    using assms unfolding load_inv_def by auto
  have "y \<in> set related" if "(x, y) \<in> (dep_graph db)\<^sup>*" "x \<in> start" for x y
    using that
  proof (induction rule: rtrancl_induct)
    case (step y z)
    then show ?case using R(4) by (auto simp: dep_graph_def)
  qed (use R(2) in blast)
  then show "set related = (dep_graph db)\<^sup>* `` start" using R(3) by auto
  have "set (deps_of (restrict db related) k) \<subseteq> set related" if "k \<in> set related" for k
    using R(4) that deps_of_restrict [OF R(1) that] by simp
  then show "closed_targets (restrict db related)" unfolding closed_targets_def keys_restrict by blast
qed

lemma load_targets_correct:
  assumes "load_targets w pick ids wd root b = Inr (direct, all_command, related, b')"
    and "db_inv (b_database b)"
  shows "set direct \<subseteq> set all_command" and "distinct related"
    and "set related = (dep_graph (b_database b'))\<^sup>* `` set all_command"
    and "set related \<subseteq> set (keys (b_database b'))"
    and "closed_targets (restrict (b_database b') related)"
    and "db_inv (b_database b')" and "db_extends (b_database b) (b_database b')"
proof -
  obtain dirs p1 b1 p2 b2 where 1: "load_source_dirs w dirs ([], b) = Inr (p1, b1)"
    and all: "all_command = add_all_new (keys (b_database b1)) direct"
    and 2: "load_loop w pick all_command [] (p1, b1) = Inr (related, p2, b2)"
    and b': "b_database b' = b_database b2"
    using assms(1) by (auto simp: load_targets_def bind_res_eq_Inr Let_def)
  note e1 = load_source_dirs_extends [OF 1]
  have "load_inv (set all_command) (set all_command) (set []) (b_database (snd (p1, b1)))"
    by (auto simp: load_inv_def)
  from load_loop_correct [OF 2 this] e1 assms(2)
  have I: "load_inv (set all_command) {} (set related) (b_database b2)" "db_inv (b_database b2)"
    "distinct related" "db_extends (b_database b1) (b_database b2)" by auto
  show "set direct \<subseteq> set all_command" by (simp add: all)
  show "distinct related" "db_inv (b_database b')" using I b' by auto
  show "set related = (dep_graph (b_database b'))\<^sup>* `` set all_command"
    "closed_targets (restrict (b_database b') related)"
    using load_inv_closed [OF I(1)] b' by auto
  show "set related \<subseteq> set (keys (b_database b'))" using I(1) b' unfolding load_inv_def by simp
  show "db_extends (b_database b) (b_database b')" using e1 I(4) db_extends_trans b' by metis
qed

end
