(* ===== verification/TopologicalSort.thy ===== *)
theory TopologicalSort
  imports DependencyExpansion "HOL-Library.Multiset"
begin

text \<open>
  Correctness of \<open>topological_sort\<close>: the counts of \<open>numpreds\<close> and the lists of
  \<open>successors\<close> describe the graph, so no lookup fails and the assertion holds; the answer
  lists every target once, after everything it depends on, when the graph has no loop. The
  order in which \<open>numpreds.keys()\<close> enumerates the dictionary is arbitrary: \<open>enumerates\<close>
  only asks that it lists every key exactly once.
\<close>

declare split_paired_All [simp del]

definition enumerates :: "('k list \<Rightarrow> 'k list) \<Rightarrow> bool" where
  "enumerates enum \<longleftrightarrow> (\<forall>xs. mset (enum xs) = mset xs)"

definition deps_first :: "('k \<Rightarrow> 'k list) \<Rightarrow> 'k list \<Rightarrow> bool" where
  "deps_first g l \<longleftrightarrow> (\<forall>xs x ys. l = xs @ x # ys \<longrightarrow> set (g x) \<subseteq> set xs)"

lemma enumerates_set: "enumerates enum \<Longrightarrow> set (enum xs) = set xs"
  unfolding enumerates_def by (metis set_mset_mset)

lemma enumerates_distinct: "enumerates enum \<Longrightarrow> distinct (enum xs) = distinct xs"
  unfolding enumerates_def by (metis mset_eq_imp_distinct_iff)

lemma deps_first_Nil [simp]: "deps_first g []"
  by (simp add: deps_first_def)

lemma deps_first_snoc: "deps_first g l \<Longrightarrow> set (g x) \<subseteq> set l \<Longrightarrow> deps_first g (l @ [x])"
  unfolding deps_first_def
proof (intro allI impI)
  fix xs y ys assume l: "\<forall>xs x ys. l = xs @ x # ys \<longrightarrow> set (g x) \<subseteq> set xs"
    and x: "set (g x) \<subseteq> set l" and eq: "l @ [x] = xs @ y # ys"
  show "set (g y) \<subseteq> set xs"
  proof (cases ys rule: rev_cases)
    case Nil
    then show ?thesis using x eq by simp
  next
    case (snoc zs z)
    then show ?thesis using l eq by simp
  qed
qed

section \<open>The graph that is built\<close>

definition succ_of :: "'k succs \<Rightarrow> 'k \<Rightarrow> 'k list" where
  "succ_of sc x = (case sc x of None \<Rightarrow> [] | Some l \<Rightarrow> l)"

definition graph_nodes :: "targets \<Rightarrow> tkey set" where
  "graph_nodes ts = set (keys ts) \<union> (\<Union>k. set (deps_of ts k))"

definition graph_inv :: "targets \<Rightarrow> tkey preds \<times> tkey succs \<Rightarrow> bool" where
  "graph_inv ts st =
     (case st of (np, sc) \<Rightarrow>
        distinct (keys np) \<and>
        (\<forall>k. map_of np k =
              (if k \<in> graph_nodes ts then Some (int (length (deps_of ts k))) else None)) \<and>
        (\<forall>x y. count_list (succ_of sc x) y = count_list (deps_of ts y) x))"

lemma map_of_note_key:
  "map_of (note_key k np) x = (if x = k \<and> map_of np k = None then Some 0 else map_of np x)"
  by (auto simp: note_key_def map_of_None_iff)

lemma distinct_note_key: "distinct (keys np) \<Longrightarrow> distinct (keys (note_key k np))"
  by (simp add: note_key_def keys_dict_set)

lemma add_edges_result:
  assumes "distinct (keys np)" and "map_of np k = Some n"
    and "fold (add_edge k) ds (np, sc) = (np', sc')"
  shows "distinct (keys np') \<and>
    (\<forall>x. map_of np' x =
       (if x = k then Some (n + int (length ds))
        else if x \<in> set ds \<and> map_of np x = None then Some 0 else map_of np x)) \<and>
    (\<forall>x y. count_list (succ_of sc' x) y =
       count_list (succ_of sc x) y + (if y = k then count_list ds x else 0))"
  using assms
proof (induction ds arbitrary: np sc n)
  case (Cons d ds)
  let ?np1 = "note_key d np"
  let ?np2 = "dict_set k (the (map_of ?np1 k) + 1) ?np1"
  let ?sc2 = "sc(d \<mapsto> (case sc d of None \<Rightarrow> [k] | Some l \<Rightarrow> l @ [k]))"
  have k1: "map_of ?np1 k = Some n" using Cons.prems(2) by (auto simp: map_of_note_key)
  have run: "fold (add_edge k) ds (?np2, ?sc2) = (np', sc')"
    using Cons.prems(3)
    unfolding fold_simps add_edge_def [of k d "(np, sc)"] prod.case Let_def .
  have d2: "distinct (keys ?np2)" using distinct_note_key [OF Cons.prems(1)] by (simp add: keys_dict_set)
  have k2: "map_of ?np2 k = Some (n + 1)" using k1 by simp
  have s2: "count_list (succ_of ?sc2 x) y =
      count_list (succ_of sc x) y + (if x = d \<and> y = k then 1 else 0)" for x y
    by (auto simp: succ_of_def split: option.splits)
  have "d = k \<Longrightarrow> map_of np d \<noteq> None" using Cons.prems(2) by simp
  with Cons.IH [OF d2 k2 run] show ?case
    unfolding s2 by (auto simp: map_of_note_key)
qed auto

lemma deps_of_snoc:
  "k \<notin> set (keys ts) \<Longrightarrow>
     deps_of (ts @ [(k, t)]) x = (if x = k then t_expanded_deps t else deps_of ts x)"
  unfolding deps_of_def map_of_append
  by (auto simp: map_add_def map_of_None_iff split: option.splits dest: map_of_key)

lemma graph_nodes_snoc:
  "k \<notin> set (keys ts) \<Longrightarrow>
     graph_nodes (ts @ [(k, t)]) = insert k (set (t_expanded_deps t)) \<union> graph_nodes ts"
proof -
  assume k: "k \<notin> set (keys ts)"
  have "(\<Union>x. set (deps_of (ts @ [(k, t)]) x)) = set (t_expanded_deps t) \<union> (\<Union>x. set (deps_of ts x))"
    unfolding deps_of_snoc [OF k] using deps_of_not_key [OF k] by (fastforce split: if_splits)
  then show ?thesis unfolding graph_nodes_def by auto
qed

lemma graph_inv_step:
  assumes inv: "graph_inv ts (np, sc)" and k: "k \<notin> set (keys ts)"
  shows "graph_inv (ts @ [(k, t)]) (add_item (k, t) (np, sc))"
proof -
  have I: "distinct (keys np)"
      "map_of np x = (if x \<in> graph_nodes ts then Some (int (length (deps_of ts x))) else None)"
      "count_list (succ_of sc x) y = count_list (deps_of ts y) x" for x y
    using inv unfolding graph_inv_def by auto
  have nok: "deps_of ts k = []" using k by (rule deps_of_not_key)
  have k0: "map_of (note_key k np) k = Some 0" by (simp add: map_of_note_key I(2) nok)
  obtain np' sc' where run: "fold (add_edge k) (t_expanded_deps t) (note_key k np, sc) = (np', sc')"
    by fastforce
  note R = add_edges_result [OF distinct_note_key [OF I(1)] k0 run]
  have "map_of np' x =
      (if x \<in> graph_nodes (ts @ [(k, t)]) then Some (int (length (deps_of (ts @ [(k, t)]) x))) else None)" for x
  proof -
    have "x \<notin> graph_nodes ts \<Longrightarrow> deps_of ts x = []"
      using deps_of_not_key [of x ts] by (auto simp: graph_nodes_def)
    then show ?thesis
      using R by (simp add: graph_nodes_snoc [OF k] deps_of_snoc [OF k] map_of_note_key I(2))
  qed
  moreover have "count_list (succ_of sc' x) y = count_list (deps_of (ts @ [(k, t)]) y) x" for x y
    using R by (simp add: deps_of_snoc [OF k] I(3) nok)
  ultimately show ?thesis using R by (simp add: graph_inv_def add_item_def run)
qed

lemma build_graph_inv: "distinct (keys ts) \<Longrightarrow> graph_inv ts (build_graph ts)"
proof (induction ts rule: rev_induct)
  case Nil
  then show ?case
    by (simp add: build_graph_def graph_inv_def graph_nodes_def deps_of_def succ_of_def)
next
  case (snoc kt ts)
  obtain k t where kt: "kt = (k, t)" by fastforce
  obtain np sc where b: "build_graph ts = (np, sc)" by fastforce
  have "graph_inv ts (np, sc)" using snoc b by simp
  from graph_inv_step [OF this, of k t] snoc.prems show ?case
    using b by (simp add: kt build_graph_def)
qed

section \<open>The loop\<close>

lemma knock_down_result:
  assumes "\<And>y. y \<in> set ys \<Longrightarrow> \<exists>n. map_of np y = Some n \<and> n \<ge> int (count_list ys y)"
  shows "\<exists>np' new. knock_down ys np = Inr (np', new) \<and>
    (\<forall>k. map_of np' k = map_option (\<lambda>n. n - int (count_list ys k)) (map_of np k)) \<and>
    distinct new \<and> set new = {y \<in> set ys. map_of np y = Some (int (count_list ys y))}"
  using assms
proof (induction ys arbitrary: np)
  case Nil
  then show ?case by (simp add: option.map_ident)
next
  case (Cons y ys)
  obtain n where n: "map_of np y = Some n" "n \<ge> int (count_list (y # ys) y)"
    using Cons.prems [of y] by auto
  let ?np = "dict_set y (n - 1) np"
  have "\<exists>m. map_of ?np z = Some m \<and> m \<ge> int (count_list ys z)" if "z \<in> set ys" for z
    using Cons.prems [of z] that n by auto
  from Cons.IH [OF this] obtain np' new where ih: "knock_down ys ?np = Inr (np', new)"
    "\<And>k. map_of np' k = map_option (\<lambda>n. n - int (count_list ys k)) (map_of ?np k)"
    "distinct new" "set new = {z \<in> set ys. map_of ?np z = Some (int (count_list ys z))}" by auto
  have look: "map_of np' k = map_option (\<lambda>n. n - int (count_list (y # ys) k)) (map_of np k)" for k
    using n(1) by (simp add: ih(2))
  let ?new = "if n - 1 = 0 then y # new else new"
  have mem: "z \<in> set new \<longleftrightarrow> z \<in> set ys \<and> map_of ?np z = Some (int (count_list ys z))" for z
    unfolding ih(4) by simp
  have y: "y \<notin> set ys" if "n = 1"
    using n(2) that by (simp add: count_list_0_iff)
  have "distinct ?new"
    using ih(3) y mem [of y] by simp
  moreover have "z \<in> set ?new \<longleftrightarrow>
      z \<in> set (y # ys) \<and> map_of np z = Some (int (count_list (y # ys) z))" for z
  proof (cases "z = y")
    case True
    have my: "y \<in> set new \<longleftrightarrow> y \<in> set ys \<and> n - 1 = int (count_list ys y)"
      unfolding mem by simp
    have ny: "map_of np y = Some (int (count_list (y # ys) y)) \<longleftrightarrow> n - 1 = int (count_list ys y)"
      unfolding n(1) count_list.simps by auto
    show ?thesis
    proof (cases "n = 1")
      case True
      then show ?thesis using y ny \<open>z = y\<close> by (simp add: count_list_0_iff)
    next
      case False
      then have "n - 1 = int (count_list ys y) \<Longrightarrow> y \<in> set ys"
        using count_notin [of y ys] by fastforce
      then show ?thesis using False my ny \<open>z = y\<close> by auto
    qed
  next
    case False
    then show ?thesis using mem [of z] by simp
  qed
  ultimately have "distinct ?new \<and>
      set ?new = {z \<in> set (y # ys). map_of np z = Some (int (count_list (y # ys) z))}"
    by blast
  then show ?case using n(1) ih(1) look by simp
qed

lemma topo_loop_step:
  assumes "map_of np x = Some 0" and "knock_down (succ_of sc x) (dict_del x np) = Inr (np', new)"
  shows "topo_loop np sc (x # queue) done = topo_loop np' sc (queue @ new) (done @ [x])"
proof (cases "sc x")
  case None
  then have "np' = dict_del x np" "new = []" using assms(2) by (simp_all add: succ_of_def)
  then show ?thesis using assms(1) None by (subst topo_loop.simps) simp
next
  case (Some ys)
  then have "knock_down ys (dict_del x np) = Inr (np', new)" using assms(2) by (simp add: succ_of_def)
  then show ?thesis using assms(1) Some by (subst topo_loop.simps) simp
qed

text \<open>
  The invariant of the loop: \<open>numpreds\<close> counts, for every node not yet visited, the
  dependencies not yet visited; the nodes without such dependencies are exactly those
  visited or waiting.
\<close>

definition topo_inv ::
  "'k set \<Rightarrow> ('k \<Rightarrow> 'k list) \<Rightarrow> 'k preds \<Rightarrow> 'k list \<Rightarrow> 'k list \<Rightarrow> bool" where
  "topo_inv N g np queue done \<longleftrightarrow>
     distinct (done @ queue) \<and>
     (\<forall>k. map_of np k =
        (if k \<in> N - set done then Some (int (length (filter (\<lambda>d. d \<notin> set done) (g k)))) else None)) \<and>
     set (done @ queue) = {k \<in> N. set (g k) \<subseteq> set done} \<and>
     deps_first g done"

lemma count_filter_split:
  assumes "x \<notin> P"
  shows "length (filter (\<lambda>d. d \<notin> P) l) = length (filter (\<lambda>d. d \<notin> insert x P) l) + count_list l x"
  using assms by (induction l) auto

lemma topo_inv_step:
  assumes inv: "topo_inv N g np (x # queue) done"
    and sc: "\<And>x y. count_list (succ_of sc x) y = count_list (g y) x"
    and out: "\<And>k. k \<notin> N \<Longrightarrow> g k = []"
  shows "\<exists>np' new. map_of np x = Some 0 \<and>
     knock_down (succ_of sc x) (dict_del x np) = Inr (np', new) \<and>
     topo_inv N g np' (queue @ new) (done @ [x])"
proof -
  let ?D = "set done"
  have d: "distinct (done @ x # queue)"
    and np: "map_of np k = (if k \<in> N - ?D then Some (int (length (filter (\<lambda>d. d \<notin> ?D) (g k)))) else None)"
    and ready: "set (done @ x # queue) = {k \<in> N. set (g k) \<subseteq> ?D}" and first: "deps_first g done" for k
    using inv unfolding topo_inv_def by (blast, metis, blast, blast)
  have x: "x \<in> N" "set (g x) \<subseteq> ?D" "x \<notin> ?D" using ready d by auto
  have zero: "map_of np x = Some 0" using x by (auto simp: np filter_empty_conv)
  let ?ys = "succ_of sc x"
  have mem: "y \<in> set ?ys \<longleftrightarrow> x \<in> set (g y)" for y
    using sc [of x y] by (metis count_list_0_iff)
  have yN: "y \<in> N \<and> y \<notin> ?D \<and> y \<noteq> x \<and> y \<notin> set queue" if "y \<in> set ?ys" for y
  proof -
    have xy: "x \<in> set (g y)" using that mem by simp
    then have "\<not> set (g y) \<subseteq> ?D" using x(3) by blast
    then have "y \<notin> set (done @ x # queue)" unfolding ready by blast
    moreover have "y \<in> N" using out [of y] xy by fastforce
    ultimately show ?thesis by simp
  qed
  have split: "length (filter (\<lambda>d. d \<notin> ?D) (g k)) =
      length (filter (\<lambda>d. d \<notin> insert x ?D) (g k)) + count_list ?ys k" for k
    unfolding sc using count_filter_split [OF x(3)] by metis
  have "\<exists>n. map_of (dict_del x np) y = Some n \<and> n \<ge> int (count_list ?ys y)" if "y \<in> set ?ys" for y
    using yN [OF that] split [of y] by (simp add: np)
  from knock_down_result [OF this] obtain np' new where k: "knock_down ?ys (dict_del x np) = Inr (np', new)"
    and np': "\<And>k. map_of np' k = map_option (\<lambda>n. n - int (count_list ?ys k)) (map_of (dict_del x np) k)"
    and new: "distinct new" "set new = {y \<in> set ?ys. map_of (dict_del x np) y = Some (int (count_list ?ys y))}"
    by auto
  have setnew: "set new = {y \<in> set ?ys. set (g y) \<subseteq> insert x ?D}"
  proof -
    have "map_of (dict_del x np) y = Some (int (count_list ?ys y)) \<longleftrightarrow> set (g y) \<subseteq> insert x ?D"
      if "y \<in> set ?ys" for y
    proof -
      have "map_of (dict_del x np) y = Some (int (count_list ?ys y)) \<longleftrightarrow>
          filter (\<lambda>d. d \<notin> insert x ?D) (g y) = []"
        using yN [OF that] split [of y] by (simp add: np)
      then show ?thesis by (auto simp: filter_empty_conv)
    qed
    then show ?thesis unfolding new(2) by blast
  qed
  have "map_of np' k =
      (if k \<in> N - set (done @ [x]) then Some (int (length (filter (\<lambda>d. d \<notin> set (done @ [x])) (g k)))) else None)" for k
    using split [of k] by (simp add: np' np)
  moreover have "distinct ((done @ [x]) @ queue @ new)"
    using d new(1) yN unfolding setnew by (auto simp: setnew)
  moreover have "set ((done @ [x]) @ queue @ new) = {k \<in> N. set (g k) \<subseteq> set (done @ [x])}"
  proof
    show "set ((done @ [x]) @ queue @ new) \<subseteq> {k \<in> N. set (g k) \<subseteq> set (done @ [x])}"
      using ready yN by (auto simp: setnew)
    show "{k \<in> N. set (g k) \<subseteq> set (done @ [x])} \<subseteq> set ((done @ [x]) @ queue @ new)"
    proof clarify
      fix k assume k: "k \<in> N" "set (g k) \<subseteq> set (done @ [x])"
      show "k \<in> set ((done @ [x]) @ queue @ new)"
      proof (cases "x \<in> set (g k)")
        case True
        then show ?thesis using k by (auto simp: setnew mem)
      next
        case False
        then have "k \<in> {k \<in> N. set (g k) \<subseteq> ?D}" using k by auto
        then show ?thesis unfolding ready [symmetric] by auto
      qed
    qed
  qed
  moreover have "deps_first g (done @ [x])" using deps_first_snoc [OF first x(2)] .
  ultimately have "topo_inv N g np' (queue @ new) (done @ [x])" unfolding topo_inv_def by blast
  then show ?thesis using zero k by blast
qed

lemma topo_inv_length:
  assumes "topo_inv N g np queue done" and "finite N"
  shows "length done \<le> card N"
proof -
  have "distinct done" "set done \<subseteq> N" using assms(1) by (auto simp: topo_inv_def)
  then show ?thesis using assms(2) by (metis card_mono distinct_card)
qed

lemma topo_loop_result:
  assumes "topo_inv N g np queue done" and "finite N"
    and sc: "\<And>x y. count_list (succ_of sc x) y = count_list (g y) x"
    and out: "\<And>k. k \<notin> N \<Longrightarrow> g k = []"
  shows "\<exists>l. topo_loop np sc queue done = Inr l \<and> distinct l \<and> deps_first g l \<and>
    set l = {k \<in> N. set (g k) \<subseteq> set l}"
  using assms(1)
proof (induction "card N - length done" arbitrary: np queue "done" rule: less_induct)
  case less
  show ?case
  proof (cases queue)
    case Nil
    then show ?thesis using less.prems by (auto simp: topo_inv_def)
  next
    case (Cons x queue')
    obtain np' new where s: "map_of np x = Some 0"
        "knock_down (succ_of sc x) (dict_del x np) = Inr (np', new)"
        and inv: "topo_inv N g np' (queue' @ new) (done @ [x])"
      using topo_inv_step [OF less.prems [unfolded Cons] sc out] by blast
    have "card N - length (done @ [x]) < card N - length done"
      using topo_inv_length [OF inv assms(2)] by simp
    from less.hyps [OF this inv] show ?thesis
      unfolding Cons topo_loop_step [OF s] .
  qed
qed

lemma acyclic_all_ready:
  assumes acyclic: "acyclic (edges g)" and fin: "finite N"
    and closed: "\<And>k. k \<in> N \<Longrightarrow> set (g k) \<subseteq> N"
    and A: "A = {k \<in> N. set (g k) \<subseteq> A}"
  shows "A = N"
proof (rule ccontr)
  assume "A \<noteq> N"
  then have ne: "N - A \<noteq> {}" using A by blast
  let ?E = "edges g \<inter> N \<times> N"
  have "finite ?E" using fin by simp
  moreover have "acyclic ?E" using acyclic by (rule acyclic_subset) blast
  ultimately have "wf (?E\<inverse>)" by (rule finite_acyclic_wf_converse)
  then obtain k where k: "k \<in> N - A" and min: "\<And>d. (d, k) \<in> ?E\<inverse> \<Longrightarrow> d \<notin> N - A"
    using ne by (metis equals0I wfE_min)
  have "set (g k) \<subseteq> A" using k closed [of k] min by auto
  then show False using k A by blast
qed

section \<open>The result of the sort\<close>

lemma topological_sort_result:
  assumes enum: "enumerates enum" and wf: "distinct (keys ts)"
  shows "\<exists>l. topological_sort enum ts = Inr l \<and> distinct l \<and> deps_first (deps_of ts) l \<and>
    set l = {k \<in> graph_nodes ts. set (deps_of ts k) \<subseteq> set l}"
proof -
  obtain np sc where b: "build_graph ts = (np, sc)" by fastforce
  have I: "distinct (keys np)"
    and np: "map_of np k = (if k \<in> graph_nodes ts then Some (int (length (deps_of ts k))) else None)"
    and sc: "count_list (succ_of sc x) y = count_list (deps_of ts y) x" for k x y
    using build_graph_inv [OF wf] unfolding b graph_inv_def prod.case by (meson, meson, meson)
  let ?q = "filter (\<lambda>x. map_of np x = Some 0) (enum (keys np))"
  have dom: "set (keys np) = graph_nodes ts"
  proof -
    have "k \<in> set (keys np) \<longleftrightarrow> k \<in> graph_nodes ts" for k
      using map_of_None_iff [of np k] np [of k] by (auto split: if_splits)
    then show ?thesis by blast
  qed
  then have fin: "finite (graph_nodes ts)" by (metis List.finite_set)
  have "set ?q = {k \<in> graph_nodes ts. set (deps_of ts k) \<subseteq> {}}"
    unfolding set_filter enumerates_set [OF enum] dom by (auto simp: np)
  moreover have "distinct ?q" using I by (simp add: enumerates_distinct [OF enum])
  ultimately have inv: "topo_inv (graph_nodes ts) (deps_of ts) np ?q []"
    by (simp add: topo_inv_def np)
  have out: "deps_of ts k = []" if "k \<notin> graph_nodes ts" for k
    using that deps_of_not_key [of k ts] by (auto simp: graph_nodes_def)
  have "topological_sort enum ts = topo_loop np sc ?q []" by (simp add: topological_sort_def b)
  with topo_loop_result [OF inv fin sc out] show ?thesis by simp
qed

lemma graph_nodes_closed: "closed_targets ts \<Longrightarrow> graph_nodes ts = set (keys ts)"
  unfolding graph_nodes_def closed_targets_def using deps_of_not_key [of _ ts] by fastforce

lemma topological_sort_acyclic:
  assumes enum: "enumerates enum" and wf: "distinct (keys ts)"
    and closed: "closed_targets ts" and acyclic: "acyclic (dep_graph ts)"
  shows "\<exists>l. topological_sort enum ts = Inr l \<and> distinct l \<and> set l = set (keys ts) \<and>
    deps_first (deps_of ts) l"
proof -
  note N = graph_nodes_closed [OF closed]
  obtain l where l: "topological_sort enum ts = Inr l" "distinct l" "deps_first (deps_of ts) l"
      "set l = {k \<in> graph_nodes ts. set (deps_of ts k) \<subseteq> set l}"
    using topological_sort_result [OF enum wf] by blast
  have "set l = set (keys ts)"
    by (rule acyclic_all_ready [OF acyclic [unfolded dep_graph_def] _ _ l(4) [unfolded N]])
      (use closed in \<open>simp_all only: closed_targets_def finite_set, blast?\<close>)
  with l show ?thesis by blast
qed

end
