(* ===== verification/AnalyzeDeps.thy ===== *)
theory AnalyzeDeps
  imports TopologicalSort TargetBase
begin

text \<open>
  \<open>analyze_deps\<close> as its caller sees it: the related targets go in with the dependencies
  their BUILD files name, and come out with every direct and indirect dependency, marked for
  the forms they have to be built in, beside the order in which the script is generated.
\<close>

section \<open>The expansion keeps the dictionary\<close>

lemma keys_mark_deps: "fold_res (mark_dep src) l ts = Inr ts' \<Longrightarrow> keys ts' = keys ts"
proof (induction l arbitrary: ts)
  case (Cons d l)
  then obtain t where t: "map_of ts d = Some t"
    and r: "fold_res (mark_dep src) l (dict_set d (mark_by src t) ts) = Inr ts'"
    by (auto simp: mark_dep_Inr bind_res_eq_Inr)
  have "d \<in> set (keys ts)" using map_of_key [OF t] by (simp only: set_map)
  then show ?case using Cons.IH [OF r] by (simp only: keys_dict_set if_True)
qed simp

lemma keys_expand_deps:
  assumes "expand_deps ts = Inr ts'"
  shows "keys ts' = keys ts"
proof -
  obtain cache where run: "fold_res expand_one (keys ts) (ts, Map.empty) = Inr (ts', cache)"
    using assms by (auto simp: expand_deps_def bind_res_eq_Inr)
  have "keys (fst (ts', cache)) = keys ts"
  proof (rule fold_res_invariant [where P = "\<lambda>st. keys (fst st) = keys ts", OF _ _ run])
    fix x and s s' :: "targets \<times> deps_cache"
    assume k: "keys (fst s) = keys ts" and st: "expand_one x s = Inr s'"
    obtain us c us' c' where s: "s = (us, c)" "s' = (us', c')" by fastforce
    from st obtain t l where t: "map_of us x = Some t"
      and m: "fold_res (mark_dep t) l (dict_set x (t\<lparr>t_expanded_deps := l\<rparr>) us) = Inr us'"
      unfolding s expand_one_Inr by blast
    have "x \<in> set (keys us)" using map_of_key [OF t] by (simp only: set_map)
    then show "keys (fst s') = keys ts"
      using k keys_mark_deps [OF m] unfolding s fst_conv by (simp only: keys_dict_set if_True)
  qed simp
  then show ?thesis by simp
qed

lemma dep_graph_expanded:
  assumes "expand_deps ts = Inr ts'"
  shows "dep_graph ts' = (dep_graph ts)\<^sup>+"
proof -
  have "b \<in> set (deps_of ts' a) \<longleftrightarrow> (a, b) \<in> (dep_graph ts)\<^sup>+" for a b
  proof (cases "a \<in> set (keys ts)")
    case True
    from expand_deps_sound(2) [OF assms this] show ?thesis unfolding link_closure_def by simp
  next
    case False
    then have "deps_of ts' a = []" using deps_of_not_key [of a ts'] keys_expand_deps [OF assms] by simp
    moreover have "(a, b) \<notin> (dep_graph ts)\<^sup>+" using False dep_graph_keys by (metis tranclD)
    ultimately show ?thesis by simp
  qed
  then show ?thesis unfolding dep_graph_def edges_def by auto
qed

lemma closed_expanded:
  assumes "expand_deps ts = Inr ts'"
  shows "closed_targets ts'"
proof -
  have "b \<in> set (keys ts)" if ab: "(a, b) \<in> (dep_graph ts)\<^sup>+" for a b
  proof -
    obtain c where cb: "(c, b) \<in> dep_graph ts" using ab by (meson tranclD2)
    then show ?thesis
      using expand_deps_closed [OF assms] dep_graph_keys [OF cb]
      unfolding closed_targets_def dep_graph_def by auto
  qed
  moreover have "set (deps_of ts' k) = (dep_graph ts)\<^sup>+ `` {k}" for k
    using dep_graph_expanded [OF assms] unfolding dep_graph_def by (metis edges_Image)
  ultimately show ?thesis
    unfolding closed_targets_def keys_expand_deps [OF assms] by blast
qed

lemma acyclic_expanded:
  assumes "expand_deps ts = Inr ts'"
  shows "acyclic (dep_graph ts')"
  using expand_deps_acyclic [OF assms] unfolding dep_graph_expanded [OF assms] acyclic_def by simp

lemma expand_deps_sort:
  assumes "expand_deps ts = Inr ts'" and "enumerates enum" and "dict_wf ts"
  shows "\<exists>l. topological_sort enum ts' = Inr l \<and> distinct l \<and> set l = set (keys ts) \<and>
    deps_first (deps_of ts') l"
proof -
  have "distinct (keys ts')" using assms(3) keys_expand_deps [OF assms(1)] by (simp add: dict_wf_def)
  from topological_sort_acyclic [OF assms(2) this closed_expanded [OF assms(1)]
      acyclic_expanded [OF assms(1)]]
  show ?thesis unfolding keys_expand_deps [OF assms(1)] .
qed

lemma analyze_deps_result:
  assumes "enumerates enum" and "dict_wf ts"
  shows "case analyze_deps enum ts of
      Inl e \<Rightarrow> \<not> (closed_targets ts \<and> acyclic (dep_graph ts)) \<and> (\<exists>m. e = ErrorExit m)
    | Inr (ts', order) \<Rightarrow>
        closed_targets ts \<and> acyclic (dep_graph ts) \<and> expand_deps ts = Inr ts' \<and>
        distinct order \<and> set order = set (keys ts) \<and>
        (\<forall>xs k ys. order = xs @ k # ys \<longrightarrow> (dep_graph ts)\<^sup>+ `` {k} \<subseteq> set xs)"
proof (cases "expand_deps ts")
  case (Inl e)
  then show ?thesis
    using expand_deps_ok [of ts] expand_deps_error [OF Inl] by (auto simp: analyze_deps_def)
next
  case (Inr ts')
  obtain l where l: "topological_sort enum ts' = Inr l" "distinct l" "set l = set (keys ts)"
      "deps_first (deps_of ts') l"
    using expand_deps_sort [OF Inr assms] by blast
  have "set (deps_of ts' k) = (dep_graph ts)\<^sup>+ `` {k}" for k
    using dep_graph_expanded [OF Inr] unfolding dep_graph_def by (metis edges_Image)
  then show ?thesis
    using l Inr expand_deps_closed [OF Inr] expand_deps_acyclic [OF Inr]
    by (simp add: analyze_deps_def deps_first_def)
qed

section \<open>A small repository\<close>

text \<open>\<open>//app:main\<close> depends on \<open>//lib:b\<close> and \<open>//lib:a\<close>, and \<open>//lib:b\<close> on \<open>//lib:a\<close>.\<close>

definition demo_target :: "target_class \<Rightarrow> string \<Rightarrow> string \<Rightarrow> string \<Rightarrow> tkey list \<Rightarrow> target" where
  "demo_target cls ttype path name ds =
     (new_target cls path name ttype [])\<lparr>t_deps := ds, t_expanded_deps := ds\<rparr>"

definition demo_a :: tkey where "demo_a = (''lib'', ''a'')"
definition demo_b :: tkey where "demo_b = (''lib'', ''b'')"
definition demo_main :: tkey where "demo_main = (''app'', ''main'')"

definition demo_targets :: targets where
  "demo_targets =
     [(demo_main, (demo_target CcBinary ''cc_binary'' ''app'' ''main'' [demo_a, demo_b])
         \<lparr>t_data := empty_data\<lparr>d_dynamic_link := True\<rparr>\<rparr>),
      (demo_b, demo_target CcLibrary ''cc_library'' ''lib'' ''b'' [demo_a]),
      (demo_a, demo_target CcLibrary ''cc_library'' ''lib'' ''a'' [])]"

lemma demo_ok: "is_ok (expand_deps demo_targets)"
  by code_simp

lemma demo_wf: "dict_wf demo_targets"
  by code_simp

lemma enumerates_rev: "enumerates rev"
  by (simp add: enumerates_def)

section \<open>Properties\<close>

text \<open>C7: Analysing the dependencies succeeds exactly when every dependency names a related
  target and no target depends on itself, directly or indirectly.\<close>

theorem expand_deps_succeeds_iff:
  "is_ok (expand_deps ts) = (closed_targets ts \<and> acyclic (dep_graph ts))"
  using expand_deps_ok expand_deps_closed expand_deps_acyclic unfolding is_ok_iff by blast

text \<open>C6: After the expansion, \<open>expanded_deps\<close> of a target lists exactly the targets it
  depends on directly or indirectly, each once, none of them the target itself, and every
  library before the libraries it depends on, the order a static linker needs.\<close>

theorem expand_deps_link_order:
  assumes "expand_deps ts = Inr ts'" and "k \<in> set (keys ts)"
  shows "link_closure (dep_graph ts) k (deps_of ts' k)"
  using expand_deps_sound(2) [OF assms] .

theorem expand_deps_link_order_witness:
  "\<exists>ts'. expand_deps demo_targets = Inr ts' \<and>
     link_closure (dep_graph demo_targets) demo_main (deps_of ts' demo_main)"
proof -
  obtain ts' where ts': "expand_deps demo_targets = Inr ts'" using demo_ok unfolding is_ok_iff ..
  have "demo_main \<in> set (keys demo_targets)" by (simp add: demo_targets_def)
  with ts' expand_deps_link_order [OF ts'] show ?thesis by blast
qed

text \<open>C11: A target is marked to be built as a shared library exactly when it was marked
  before or some dynamically linked target reaches it, whatever the order in which the
  targets are expanded.\<close>

theorem expand_deps_build_dynamic:
  assumes "expand_deps ts = Inr ts'" and "map_of ts k = Some t0" and "map_of ts' k = Some t"
  shows "d_build_dynamic (t_data t) =
    (d_build_dynamic (t_data t0) \<or>
     (\<exists>p u. map_of ts p = Some u \<and> d_dynamic_link (t_data u) \<and> (p, k) \<in> (dep_graph ts)\<^sup>+))"
  using expand_deps_sound(4) [OF assms(1,3,2)] .

theorem expand_deps_build_dynamic_witness:
  "\<exists>ts' t. expand_deps demo_targets = Inr ts' \<and> map_of ts' demo_b = Some t \<and>
     d_build_dynamic (t_data t) =
       (\<exists>p u. map_of demo_targets p = Some u \<and> d_dynamic_link (t_data u) \<and>
          (p, demo_b) \<in> (dep_graph demo_targets)\<^sup>+)"
proof -
  obtain ts' where ts': "expand_deps demo_targets = Inr ts'" using demo_ok unfolding is_ok_iff ..
  let ?t0 = "demo_target CcLibrary ''cc_library'' ''lib'' ''b'' [demo_a]"
  have t0: "map_of demo_targets demo_b = Some ?t0"
    by (simp add: demo_targets_def demo_main_def demo_b_def)
  have "demo_b \<in> set (keys ts')" unfolding keys_expand_deps [OF ts'] by (simp add: demo_targets_def)
  then obtain t where t: "map_of ts' demo_b = Some t" using map_of_in_keys [of demo_b ts'] by auto
  have "\<not> d_build_dynamic (t_data ?t0)"
    by (simp add: demo_target_def new_target_def empty_data_def)
  with ts' t expand_deps_build_dynamic [OF ts' t0 t] show ?thesis by blast
qed

text \<open>C19: The expansion changes nothing of a target but its \<open>expanded_deps\<close> and the four
  marks, keeps the dictionary's keys, and when it fails it is by an error exit, never by
  an uncaught exception.\<close>

theorem expand_deps_frame:
  "case expand_deps ts of
     Inl e \<Rightarrow> (\<exists>m. e = ErrorExit m)
   | Inr ts' \<Rightarrow> keys ts' = keys ts \<and>
       (\<forall>k. map_option core (map_of ts' k) = map_option core (map_of ts k))"
proof (cases "expand_deps ts")
  case (Inl e)
  then show ?thesis using expand_deps_error [OF Inl] by simp
next
  case (Inr ts')
  then show ?thesis
    unfolding Inr sum.case using expand_deps_sound(3) [OF Inr] keys_expand_deps [OF Inr] by blast
qed

text \<open>C8: The topological sort never raises: no lookup of \<open>numpreds\<close> fails and the assertion
  inside the loop holds, on cyclic graphs and on dependencies without an entry too. The
  answer has no duplicates, lists every target after all it depends on, and leaves out
  only targets with a dependency that is left out.\<close>

theorem topological_sort_total:
  assumes "enumerates enum" and "dict_wf ts"
  shows "\<exists>l. topological_sort enum ts = Inr l \<and> distinct l \<and> deps_first (deps_of ts) l \<and>
    set l = {k \<in> graph_nodes ts. set (deps_of ts k) \<subseteq> set l}"
  using topological_sort_result [OF assms(1)] assms(2) by (simp add: dict_wf_def)

theorem topological_sort_total_witness:
  "\<exists>l. topological_sort rev demo_targets = Inr l \<and> deps_first (deps_of demo_targets) l"
  using topological_sort_total [OF enumerates_rev demo_wf] by blast

text \<open>C1: \<open>analyze_deps\<close> succeeds exactly on closed acyclic dictionaries, and then the sorted
  keys are all the keys, each once, every target after its direct and indirect
  dependencies.\<close>

theorem analyze_deps_correct:
  assumes "enumerates enum" and "dict_wf ts"
  shows "case analyze_deps enum ts of
      Inl e \<Rightarrow> \<not> (closed_targets ts \<and> acyclic (dep_graph ts)) \<and> (\<exists>m. e = ErrorExit m)
    | Inr (ts', order) \<Rightarrow>
        closed_targets ts \<and> acyclic (dep_graph ts) \<and> expand_deps ts = Inr ts' \<and>
        distinct order \<and> set order = set (keys ts) \<and>
        (\<forall>xs k ys. order = xs @ k # ys \<longrightarrow> (dep_graph ts)\<^sup>+ `` {k} \<subseteq> set xs)"
  by (rule analyze_deps_result [OF assms])

theorem analyze_deps_correct_witness:
  "\<exists>ts' order. analyze_deps rev demo_targets = Inr (ts', order) \<and>
     distinct order \<and> set order = {demo_a, demo_b, demo_main}"
proof -
  have ok: "is_ok (analyze_deps rev demo_targets)" by code_simp
  then obtain ts' order where run: "analyze_deps rev demo_targets = Inr (ts', order)"
    unfolding is_ok_iff by auto
  have "set (keys demo_targets) = {demo_a, demo_b, demo_main}" by (auto simp: demo_targets_def)
  with analyze_deps_correct [OF enumerates_rev demo_wf] run show ?thesis by simp
qed

end
