(* ===== verification/BladeManager.thy ===== *)
theory BladeManager
  imports LoadCorrect AnalyzeDeps
    "HOL-Library.List_Lexorder" "HOL-Library.Char_ord" "HOL-Library.Product_Lexorder"
begin

text \<open>
  \<open>blade.py\<close>: the manager that drives loading, analysis, rule generation and queries.

  The fields of the context that come from outside are given by a context \<open>base\<close>; the
  manager fills in its own. \<open>build_targets\<close> holds the objects of the database, so it is the
  restriction of the database to its keys.
\<close>

section \<open>Construction and loading\<close>

definition new_blade ::
  "string list \<Rightarrow> string \<Rightarrow> string \<Rightarrow> string \<Rightarrow> string \<Rightarrow> options \<Rightarrow> string \<Rightarrow> configs \<Rightarrow> blade" where
  "new_blade command_targets blade_path working_dir build_path root_dir opts command cfg = \<lparr>
     b_command_targets = command_targets, b_blade_path = blade_path, b_working_dir = working_dir,
     b_build_path = build_path, b_root_dir = root_dir, b_options = opts, b_command = command,
     b_current_source_path = root_dir, b_direct_targets = [], b_all_command_targets = [],
     b_database = [], b_build_targets = [], b_sorted_keys = [], b_expanded = False,
     b_svn_roots = [], b_src_target_map = [], b_config = cfg, b_console = []\<rparr>"

definition build_dict :: "blade \<Rightarrow> targets" where
  "build_dict b = restrict (b_database b) (b_build_targets b)"

definition get_normpath_target :: "world \<Rightarrow> blade \<Rightarrow> string \<Rightarrow> tkey res" where
  "get_normpath_target w b command_target =
     bind_res (relative_path (w_cwd w) (b_working_dir b) (b_root_dir b)) (\<lambda>target_path.
     case split_char CHR '':'' command_target of
       [path, name] \<Rightarrow>
         Inr (normpath
           (if target_path \<noteq> ''.'' then
              (if path \<noteq> [] then target_path @ [slash] @ path else target_path)
            else path), name)
     | _ \<Rightarrow> Inl ValueError)"

definition query_command_targets :: "world \<Rightarrow> blade \<Rightarrow> string list res" where
  "query_command_targets w b =
     (if ''...'' \<in> set (b_command_targets b) then Inr (b_command_targets b)
      else map_res (\<lambda>t. bind_res (get_normpath_target w b t) (\<lambda>k. Inr (colon_name k)))
             (b_command_targets b))"

definition blade_load_targets :: "world \<Rightarrow> (tkey list \<Rightarrow> nat) \<Rightarrow> blade \<Rightarrow> blade res" where
  "blade_load_targets w pick b =
     (let b0 = info ''loading BUILDs...'' b in
      bind_res (if b_command b = ''query'' then query_command_targets w b
                else Inr (b_command_targets b)) (\<lambda>ids.
      let wd = (if b_command b = ''query'' then b_root_dir b else b_working_dir b);
          b1 = b0\<lparr>b_command_targets := ids\<rparr>
      in bind_res (load_targets w pick ids wd (b_root_dir b) b1) (\<lambda>(direct, all_command, related, b2).
         Inr (info ''loading done.'' (b2\<lparr>b_direct_targets := direct,
           b_all_command_targets := all_command, b_build_targets := related\<rparr>)))))"

definition analyze_targets :: "(tkey list \<Rightarrow> tkey list) \<Rightarrow> blade \<Rightarrow> blade res" where
  "analyze_targets enum b =
     bind_res (analyze_deps enum (build_dict b)) (\<lambda>(ts', order).
     Inr (info ''analyzing done.'' ((info ''analyzing dependency graph...'' b)
       \<lparr>b_database := dict_update (b_database b) ts', b_sorted_keys := order, b_expanded := True\<rparr>)))"

section \<open>Collecting the rules\<close>

definition ctx_of :: "ctx \<Rightarrow> blade \<Rightarrow> ctx" where
  "ctx_of base b = base\<lparr>x_database := b_database b, x_build := build_dict b,
     x_direct := b_direct_targets b, x_options := b_options b, x_build_path := b_build_path b,
     x_config := b_config b, x_root_dir := b_root_dir b\<rparr>"

definition is_scons_object_type :: "string \<Rightarrow> bool" where
  "is_scons_object_type target_type \<longleftrightarrow> target_type \<noteq> ''system_library''"

text \<open>One round of \<open>gen_targets_rules\<close>, for the \<open>scons_rules\<close> given as \<open>rules\<close>\<close>

definition gen_target_rules ::
  "(ctx \<Rightarrow> target \<Rightarrow> target res) \<Rightarrow> ctx \<Rightarrow> tkey \<Rightarrow> blade \<times> string list \<Rightarrow> (blade \<times> string list) res" where
  "gen_target_rules rules base k st =
     (case st of (b, rules_buf) \<Rightarrow>
      bind_res (dict_index (build_dict b) k) (\<lambda>t.
      if \<not> is_scons_object_type (t_type t) then Inr (b, rules_buf)
      else case map_of (b_database b) k of
             None \<Rightarrow>
               Inr (warn (''not registered scons object, key '' @
                 repr_val (PTuple [PStr (fst k), PStr (snd k)])) b, rules_buf)
           | Some obj \<Rightarrow>
               if o_no_test (b_options b) \<and> t_type t = ''cc_test'' then Inr (b, rules_buf)
               else
                 bind_res (scons_warnings (ctx_of base b) obj) (\<lambda>ms.
                 bind_res (rules (ctx_of base b) obj) (\<lambda>obj'.
                 Inr (b\<lparr>b_database := dict_set k obj' (b_database b),
                        b_console := b_console b @ ms\<rparr>, rules_buf @ get_rules obj')))))"

definition gen_targets_rules :: "ctx \<Rightarrow> blade \<Rightarrow> (blade \<times> string list) res" where
  "gen_targets_rules base b = fold_res (gen_target_rules scons_rules base) (b_sorted_keys b) (b, [])"

section \<open>Queries\<close>

definition query_key :: "string \<Rightarrow> string \<Rightarrow> tkey res" where
  "query_key target_path t =
     (case split_char CHR '':'' t of
        p # n # _ \<Rightarrow>
          Inr (normpath (if target_path = ''.'' then p else target_path @ [slash] @ p), n)
      | _ \<Rightarrow> Inl IndexError)"

text \<open>
  One round of \<open>query_helper\<close>: sorting \<open>deps\<close> sorts the list inside the target object.
\<close>

type_synonym query_result = "(tkey, tkey list \<times> tkey list) dict"

definition query_one :: "tkey \<Rightarrow> query_result \<times> blade \<Rightarrow> (query_result \<times> blade) res" where
  "query_one key st =
     (case st of (result_map, b) \<Rightarrow>
      bind_res (dict_index (build_dict b) key) (\<lambda>t.
      let deps = sort (t_expanded_deps t);
          b' = b\<lparr>b_database := dict_set key (t\<lparr>t_expanded_deps := deps\<rparr>) (b_database b)\<rparr>;
          depended_by = sort (map fst (filter (\<lambda>kt. key \<in> set (t_expanded_deps (snd kt))) (build_dict b')))
      in Inr (dict_set key (deps, depended_by) result_map, b')))"

definition query_helper :: "world \<Rightarrow> string list \<Rightarrow> blade \<Rightarrow> (query_result \<times> blade) res" where
  "query_helper w targets b =
     bind_res (relative_path (w_cwd w) (b_working_dir b) (b_root_dir b)) (\<lambda>target_path.
     bind_res (map_res (query_key target_path) targets) (\<lambda>query_list.
     fold_res query_one query_list ([], b)))"

definition dot_name :: "tkey \<Rightarrow> string" where
  "dot_name k = dq (colon_name k)"

definition dot_node :: "tkey \<Rightarrow> string" where
  "dot_node node = dot_name node @ '' [label = '' @ dot_name node @ '']''"

definition dot_deps :: "blade \<Rightarrow> tkey list \<Rightarrow> tkey \<Rightarrow> string list res" where
  "dot_deps b nodes node =
     bind_res (dict_index (build_dict b) node) (\<lambda>t.
     Inr (map (\<lambda>i. dot_name node @ '' -> '' @ dot_name i) (filter (\<lambda>i. i \<in> set nodes) (t_deps t))))"

text \<open>The lines of the dot file; \<open>order\<close> is the order in which the set of nodes is listed.\<close>

definition dot_nodes :: "(tkey list \<Rightarrow> tkey list) \<Rightarrow> nat \<Rightarrow> query_result \<Rightarrow> tkey list" where
  "dot_nodes order print_mode result_map =
     order (remdups (keys result_map @
       concat (map (\<lambda>r. if print_mode = 0 then fst (snd r) else snd (snd r)) result_map)))"

definition output_dot ::
  "(tkey list \<Rightarrow> tkey list) \<Rightarrow> query_result \<Rightarrow> nat \<Rightarrow> blade \<Rightarrow> string list res" where
  "output_dot order result_map print_mode b =
     (let nodes = dot_nodes order print_mode result_map in
      bind_res (map_res (dot_deps b nodes) nodes) (\<lambda>edge_lines.
      Inr ([''digraph blade {''] @ map dot_node nodes @ concat edge_lines @ [''}''])))"

text \<open>What \<open>query\<close> writes: a dot file, or lines on the console\<close>

datatype out_line = OutInfo string | OutPrint string

datatype query_output = DotFile string "string list" | Lines "out_line list"

definition query_lines ::
  "string \<Rightarrow> (tkey list \<times> tkey list \<Rightarrow> tkey list) \<Rightarrow> query_result \<Rightarrow> out_line list" where
  "query_lines what sel result_map =
     concat (map (\<lambda>r. OutPrint newline # OutInfo (label (fst (fst r)) (snd (fst r)) @ what) #
       map (\<lambda>d. OutPrint (colon_name d)) (sel (snd r))) result_map)"

definition query ::
  "world \<Rightarrow> (tkey list \<Rightarrow> tkey list) \<Rightarrow> string list \<Rightarrow> blade \<Rightarrow> (query_output \<times> blade) res" where
  "query w order targets b =
     bind_res (query_helper w targets b) (\<lambda>(result_map, b').
     let opts = b_options b in
     case o_output_to_dot opts of
       Some dot_file \<Rightarrow>
         if dot_file \<noteq> [] then
           (let print_mode = (if o_depended opts then 1 else 0) in
            bind_res (output_dot order result_map print_mode b') (\<lambda>ls.
            Inr (DotFile (path_join (b_working_dir b) dot_file) ls, b')))
         else Inr (Lines
           ((if o_deps opts then query_lines '' depends on the following targets:'' fst result_map else []) @
            (if o_depended opts
             then query_lines '' is depended by the following targets:'' snd result_map else [])), b')
     | None \<Rightarrow> Inr (Lines
           ((if o_deps opts then query_lines '' depends on the following targets:'' fst result_map else []) @
            (if o_depended opts
             then query_lines '' is depended by the following targets:'' snd result_map else [])), b'))"

section \<open>Parallel jobs\<close>

text \<open>\<open>tune_parallel_jobs_num\<close>, with the state of distcc and the number of processors\<close>

definition tune_jobs :: "bool \<Rightarrow> bool \<Rightarrow> nat \<Rightarrow> int \<Rightarrow> int \<Rightarrow> int" where
  "tune_jobs distcc_enabled distcc_prepared hosts cpus user_jobs =
     (if distcc_enabled \<and> distcc_prepared then
        (let jobs_num = min 20 (3 * int hosts div 2 + 1)
         in if jobs_num \<noteq> 0 \<and> user_jobs \<noteq> jobs_num then jobs_num else user_jobs)
      else if user_jobs < 1 then (if cpus \<le> 4 then 2 * cpus else min 8 cpus)
      else user_jobs)"

definition tune_parallel_jobs_num ::
  "bool \<Rightarrow> nat \<Rightarrow> int \<Rightarrow> blade \<Rightarrow> (int \<times> blade) res" where
  "tune_parallel_jobs_num distcc_prepared hosts cpus b =
     bind_res (config_item (b_config b) ''distcc_config'' ''enabled'') (\<lambda>v.
     let user_jobs = o_jobs (b_options b);
         jobs = tune_jobs (truthy v) distcc_prepared hosts cpus user_jobs;
         b1 = b\<lparr>b_options := (b_options b)\<lparr>o_jobs := jobs\<rparr>\<rparr>
     in Inr (jobs, if jobs \<noteq> user_jobs
                   then info (''tunes the parallel jobs number(-j N) to be '' @ dec_int jobs) b1
                   else b1))"

section \<open>Loading, then analysing\<close>

lemma blade_load_targets_correct:
  assumes "blade_load_targets w pick b = Inr b'" and "db_inv (b_database b)"
  shows "set (b_build_targets b') =
      (dep_graph (b_database b'))\<^sup>* `` set (b_all_command_targets b')"
    and "set (b_direct_targets b') \<subseteq> set (b_all_command_targets b')"
    and "distinct (b_build_targets b')"
    and "set (b_build_targets b') \<subseteq> set (keys (b_database b'))"
    and "closed_targets (build_dict b')" and "db_inv (b_database b')"
proof -
  let ?wd = "if b_command b = ''query'' then b_root_dir b else b_working_dir b"
  obtain ids direct all_command related b2 where
    run: "load_targets w pick ids ?wd (b_root_dir b)
        ((info ''loading BUILDs...'' b)\<lparr>b_command_targets := ids\<rparr>) =
      Inr (direct, all_command, related, b2)"
    and b': "b' = info ''loading done.'' (b2\<lparr>b_direct_targets := direct,
           b_all_command_targets := all_command, b_build_targets := related\<rparr>)"
    using assms(1) unfolding blade_load_targets_def Let_def bind_res_eq_Inr case_prod_beta
    by (metis prod.collapse sum.inject(2))
  define b1 where "b1 = (info ''loading BUILDs...'' b)\<lparr>b_command_targets := ids\<rparr>"
  have b1: "b_database b1 = b_database b" by (simp add: b1_def info_def)
  note run = run [folded b1_def]
  have "db_inv (b_database b1)" using assms(2) b1 by simp
  note L = load_targets_correct [OF run this]
  show "set (b_build_targets b') = (dep_graph (b_database b'))\<^sup>* `` set (b_all_command_targets b')"
    using L(3) by (simp add: b' info_def)
  show "set (b_direct_targets b') \<subseteq> set (b_all_command_targets b')" "distinct (b_build_targets b')"
    "set (b_build_targets b') \<subseteq> set (keys (b_database b'))" "db_inv (b_database b')"
    using L(1,2,4,6) by (simp_all add: b' info_def)
  show "closed_targets (build_dict b')" using L(5) by (simp add: b' info_def build_dict_def)
qed

lemma dict_wf_build: "distinct (b_build_targets b) \<Longrightarrow> dict_wf (build_dict b)"
  by (simp add: dict_wf_def build_dict_def)

lemma load_analyze:
  assumes load: "blade_load_targets w pick b0 = Inr b" and db: "db_inv (b_database b0)"
    and enum: "enumerates enum"
  shows "is_ok (analyze_targets enum b) = acyclic (dep_graph (build_dict b))"
    and "analyze_targets enum b = Inr b' \<Longrightarrow>
      distinct (b_sorted_keys b') \<and> set (b_sorted_keys b') = set (b_build_targets b)"
proof -
  note L = blade_load_targets_correct [OF load db]
  note A = analyze_deps_result [OF enum dict_wf_build [OF L(3)]]
  have k: "set (keys (build_dict b)) = set (b_build_targets b)" by (simp add: build_dict_def)
  show "is_ok (analyze_targets enum b) = acyclic (dep_graph (build_dict b))"
    using A L(5) by (cases "analyze_deps enum (build_dict b)")
      (auto simp: analyze_targets_def split: prod.splits)
  show "distinct (b_sorted_keys b') \<and> set (b_sorted_keys b') = set (b_build_targets b)"
    if "analyze_targets enum b = Inr b'"
    using A that k by (auto simp: analyze_targets_def bind_res_eq_Inr info_def)
qed

end
