(* ===== verification/DemoOptions.thy ===== *)
theory DemoOptions
  imports BladeState
begin

text \<open>The command line options the examples are run with: a build with the defaults.\<close>

definition demo_options :: options where
  "demo_options = \<lparr>o_command = ''build'', o_m = Some ''64'', o_profile = ''release'',
     o_generate_dynamic = False, o_generate_java = False, o_generate_php = False,
     o_generate_python = False, o_scons_only = False, o_jobs = 0, o_keep_going = False,
     o_verbose = False, o_no_test = False, o_color = None, o_cache_dir = None,
     o_cache_size = PNone, o_deps = True, o_depended = True, o_output_to_dot = None,
     o_testargs = None, o_runargs = None, o_fulltest = False, o_test_jobs = 0,
     o_show_details = False, o_args = [],
     o_gprof = False, o_gcov = False\<rparr>"

end
