(* ===== verification/Demo.thy ===== *)
theory Demo
  imports ManagerCorrect DemoOptions
begin

text \<open>
  A small repository on which the properties of the manager are exercised: \<open>//app:main\<close> is a
  program that uses \<open>//lib:b\<close>, which uses \<open>//lib:a\<close>. The command line names the program.
\<close>

definition demo_blade :: blade where
  "demo_blade = new_blade [''app:main''] ''/blade'' ''/r'' ''build64_release'' ''/r''
     demo_options ''build'' default_configs"

definition demo_builds :: "(string, build_script) dict" where
  "demo_builds =
     [(''lib'',
        [CallCcLibrary ((cc_defaults ''a'')\<lparr>a_srcs := AStr ''a.cc'', a_export_incs := AStr ''inc''\<rparr>),
         CallCcLibrary ((cc_defaults ''b'')\<lparr>a_srcs := AStr ''b.cc'', a_deps := AStr '':a''\<rparr>)]),
      (''app'',
        [CallCcBinary ((cc_defaults ''main'')\<lparr>a_srcs := AStr ''main.cc'',
           a_deps := AList [''//lib:b'', ''#pthread'']\<rparr>)])]"

definition demo_world :: world where
  "demo_world = \<lparr>w_exists = (\<lambda>p. p = ''app'' \<or> p = ''lib''), w_builds = demo_builds,
     w_tree = (\<lambda>_. Dir []), w_cwd = ''/r'',
     w_env = \<lparr>e_lines = (\<lambda>_. None), e_php_include = [], e_heap_text = []\<rparr>,
     w_traceback = (\<lambda>_. [])\<rparr>"

definition demo_base :: ctx where
  "demo_base = \<lparr>x_database = [], x_build = [], x_direct = [], x_options = demo_options,
     x_build_path = [], x_config = default_configs, x_gcc_version = ''4.4'', x_realpath = (\<lambda>p. p),
     x_cwd = ''/r'', x_set_order = (\<lambda>l. l), x_java_include = [], x_root_dir = ''/r'',
     x_exists = (\<lambda>_. False), x_lines = (\<lambda>_. None)\<rparr>"

lemma demo_db: "db_inv (b_database demo_blade)"
  by (simp add: demo_blade_def new_blade_def db_inv_def dict_wf_def)

lemma demo_load_ok: "is_ok (blade_load_targets demo_world (\<lambda>_. 0) demo_blade)"
  by code_simp

end
