(* ===== verification/ManagerProperties.thy ===== *)
theory ManagerProperties
  imports Demo
begin

text \<open>The properties of loading, rule generation and queries, with their witnesses.\<close>

section \<open>The root directory\<close>

lemma basename_last: "slash \<notin> set c \<Longrightarrow> basename (a @ slash # c) = c"
proof -
  assume "slash \<notin> set c"
  then have "takeWhile (\<lambda>x. x \<noteq> slash) (rev c @ slash # rev a) = rev c"
    by (intro takeWhile_tail [THEN trans]) (auto simp: takeWhile_eq_all_conv)
  then show ?thesis by (simp add: basename_def)
qed

lemma dirname_last: "slash \<notin> set c \<Longrightarrow> a \<noteq> [] \<Longrightarrow> last a \<noteq> slash \<Longrightarrow> dirname (a @ slash # c) = a"
proof -
  assume c: "slash \<notin> set c" and a: "a \<noteq> []" "last a \<noteq> slash"
  have head: "take (length (a @ slash # c) - length c) (a @ slash # c) = a @ [slash]" by simp
  have "\<not> (\<forall>x \<in> set (a @ [slash]). x = slash)" using a last_in_set by fastforce
  moreover have "rstrip_chars [slash] (a @ [slash]) = a"
    using a by (cases a rule: rev_cases) (auto simp: rstrip_chars_def)
  ultimately show ?thesis unfolding dirname_def basename_last [OF c] head Let_def by simp
qed

lemma dirname_abs_of:
  assumes n: "normal_stack True (rev (cs @ [c]))"
  shows "dirname (abs_of (cs @ [c])) = abs_of cs"
proof -
  have parts: "\<And>x. x \<in> set (cs @ [c]) \<Longrightarrow> slash \<notin> set x \<and> x \<noteq> []"
    using n by (auto simp: normal_stack_def)
  then have c: "slash \<notin> set c" "c \<noteq> []" by auto
  show ?thesis
  proof (cases "cs = []")
    case True
    have "basename (slash # c) = c" using basename_last [OF c(1), of "[]"] by simp
    then show ?thesis using True by (simp add: dirname_def abs_of_def)
  next
    case False
    then have l: "last cs \<noteq> []" "slash \<notin> set (last cs)" using parts [of "last cs"] by auto
    have "last (abs_of cs) = last (last cs)"
    proof -
      obtain ds d where cs: "cs = ds @ [d]" using False by (cases cs rule: rev_cases) auto
      have "join_str [slash] cs = (if ds = [] then [] else join_str [slash] ds @ [slash]) @ d"
        by (simp add: cs join_str_append)
      then show ?thesis using l(1) by (simp add: abs_of_def cs)
    qed
    then have "last (abs_of cs) \<noteq> slash" using l last_in_set by metis
    moreover have "abs_of (cs @ [c]) = abs_of cs @ slash # c"
      using False by (simp add: abs_of_def join_str_append)
    ultimately show ?thesis using dirname_last [OF c(1), of "abs_of cs"] by (simp add: abs_of_def)
  qed
qed

lemma normal_stack_butlast: "normal_stack True (rev (cs @ [c])) \<Longrightarrow> normal_stack True (rev cs)"
  using normal_stack_tl [of True c "rev cs"] by simp

lemma abs_of_root: "normal_stack True (rev cs) \<Longrightarrow> (abs_of cs = [slash]) = (cs = [])"
  by (auto simp: abs_of_def join_str_Nil_iff normal_stack_def)

definition holds_root :: "(string \<Rightarrow> bool) \<Rightarrow> string list \<Rightarrow> bool" where
  "holds_root isfile cs = isfile (path_join (abs_of cs) ''BLADE_ROOT'')"

lemma find_root_result:
  "normal_stack True (rev cs) \<Longrightarrow>
     \<exists>k \<le> length cs. find_root isfile (abs_of cs) = Some (abs_of (take k cs)) \<and>
       (k = 0 \<or> holds_root isfile (take k cs)) \<and>
       (\<forall>j. k < j \<and> j \<le> length cs \<longrightarrow> \<not> holds_root isfile (take j cs))"
proof (induction cs rule: rev_induct)
  case Nil
  then show ?case by (simp add: find_root.simps abs_of_def)
next
  case (snoc c cs)
  have ne: "abs_of (cs @ [c]) \<noteq> [slash]" using abs_of_root [OF snoc.prems] by simp
  have nn: "abs_of (cs @ [c]) \<noteq> []" by (simp add: abs_of_def)
  show ?case
  proof (cases "holds_root isfile (cs @ [c])")
    case True
    then show ?thesis
      using ne nn by (intro exI [of _ "length (cs @ [c])"]) (auto simp: find_root.simps holds_root_def)
  next
    case False
    have "find_root isfile (abs_of (cs @ [c])) = find_root isfile (abs_of cs)"
      using False ne nn dirname_abs_of [OF snoc.prems]
      by (subst find_root.simps) (simp add: holds_root_def)
    moreover obtain k where k: "k \<le> length cs" "find_root isfile (abs_of cs) = Some (abs_of (take k cs))"
        "k = 0 \<or> holds_root isfile (take k cs)"
        "\<forall>j. k < j \<and> j \<le> length cs \<longrightarrow> \<not> holds_root isfile (take j cs)"
      using snoc.IH [OF normal_stack_butlast [OF snoc.prems]] by auto
    moreover have "\<not> holds_root isfile (take j (cs @ [c]))" if "k < j" "j \<le> length (cs @ [c])" for j
      using that k(4) False by (cases "j \<le> length cs") (auto simp: not_le Suc_le_eq dest: le_antisym)
    ultimately show ?thesis by (intro exI [of _ k]) auto
  qed
qed

text \<open>C15: From a normal absolute directory the search for the root ends, at the closest
  directory upwards (itself included) that holds \<open>BLADE_ROOT\<close>, or at \<open>/\<close> when there is none.\<close>

theorem find_root_closest:
  assumes "normal_stack True (rev cs)"
  shows "\<exists>k \<le> length cs. find_root isfile (abs_of cs) = Some (abs_of (take k cs)) \<and>
    (k = 0 \<or> holds_root isfile (take k cs)) \<and>
    (\<forall>j. k < j \<and> j \<le> length cs \<longrightarrow> \<not> holds_root isfile (take j cs))"
  by (rule find_root_result [OF assms])

theorem find_root_closest_witness:
  "\<exists>d. find_root (\<lambda>p. p = ''/src/BLADE_ROOT'') ''/src/a/b'' = Some d"
proof -
  have n: "normal_stack True (rev [''src'', ''a'', ''b''])"
    unfolding normal_stack_def
    by (auto simp: slash_def intro!: exI [of _ "rev [''src'', ''a'', ''b'']"] exI [of _ 0])
  have "abs_of [''src'', ''a'', ''b''] = ''/src/a/b''" by code_simp
  with find_root_closest [OF n, of "\<lambda>p. p = ''/src/BLADE_ROOT''"] show ?thesis by auto
qed

section \<open>Loading\<close>

text \<open>C5: Whatever order \<open>pop\<close> takes the cited targets in, the targets to build are exactly
  those that the targets of the command line reach: registered, without repetition, and
  closed under dependencies.\<close>

theorem load_targets_reachable:
  assumes "blade_load_targets w pick b = Inr b'" and "db_inv (b_database b)"
  shows "set (b_build_targets b') = (dep_graph (b_database b'))\<^sup>* `` set (b_all_command_targets b') \<and>
    set (b_direct_targets b') \<subseteq> set (b_all_command_targets b') \<and>
    distinct (b_build_targets b') \<and>
    set (b_build_targets b') \<subseteq> set (keys (b_database b')) \<and>
    closed_targets (build_dict b')"
  using blade_load_targets_correct [OF assms] by auto

theorem load_targets_reachable_witness:
  "\<exists>b. blade_load_targets demo_world (\<lambda>_. 0) demo_blade = Inr b \<and>
     set (b_build_targets b) = (dep_graph (b_database b))\<^sup>* `` set (b_all_command_targets b) \<and>
     closed_targets (build_dict b)"
proof -
  obtain b where b: "blade_load_targets demo_world (\<lambda>_. 0) demo_blade = Inr b"
    using demo_load_ok unfolding is_ok_iff ..
  with load_targets_reachable [OF b demo_db] show ?thesis by blast
qed

text \<open>C9: Executing BUILD files keeps the database well formed (every target is stored under
  its path and name, its dependency lists have no duplicates, \<open>expanded_deps\<close> contains
  \<open>deps\<close>), never changes or drops a registered target, registers new targets only under the
  directory being loaded or as system libraries, and touches nothing else of the manager but
  its source map and console.\<close>

theorem run_script_db_step:
  assumes "run_script env script b = Inr b'"
  shows "db_step b b'"
  using build_script.run_step [OF assms] .

theorem run_script_db_step_witness:
  "\<exists>b. run_script (w_env demo_world) [CallCcLibrary (cc_defaults ''a'')] demo_blade = Inr b \<and>
     db_step demo_blade b"
proof -
  have "is_ok (run_script (w_env demo_world) [CallCcLibrary (cc_defaults ''a'')] demo_blade)"
    by code_simp
  then obtain b where b: "run_script (w_env demo_world) [CallCcLibrary (cc_defaults ''a'')] demo_blade = Inr b"
    unfolding is_ok_iff ..
  with run_script_db_step [OF b] show ?thesis by blast
qed

lemma load_build_file_error:
  "load_build_file w d action st = Inl e \<Longrightarrow> \<exists>m. e = ErrorExit m"
  by (cases st) (auto simp: load_build_file_def Let_def report_not_exist_def error_exit_def
      split: if_splits option.splits sum.splits py_error.splits)

text \<open>The breadth-first loop fails only by an error exit: a directory or BUILD file that
  is missing or fails, or a target that no BUILD file declares.\<close>

lemma load_loop_error_exit:
  assumes "load_loop w pick cited related st = Inl e"
  shows "\<exists>m. e = ErrorExit m"
  using assms
proof (induction w pick cited related st rule: load_loop.induct)
  case (1 w pick cited related st)
  show ?case
  proof (cases "cited = []")
    case True
    then show ?thesis using "1.prems" by (simp add: load_loop.simps [of w pick "[]"])
  next
    case False
    let ?k = "popped pick cited"
    show ?thesis
    proof (cases "?k \<in> set related")
      case True
      then show ?thesis
        using "1.IH"(1) [OF False refl refl True] "1.prems" False
        by (simp add: load_loop.simps [of w pick cited])
    next
      case fresh: False
      show ?thesis
      proof (cases "load_build_file w (fst ?k) AbortIfFail st")
        case (Inl e')
        then show ?thesis
          using load_build_file_error [OF Inl] "1.prems" False fresh
          by (auto simp: load_loop.simps [of w pick cited] Let_def)
      next
        case (Inr st')
        show ?thesis
        proof (cases "map_of (b_database (snd st')) ?k")
          case None
          then show ?thesis
            using "1.prems" False fresh Inr
            by (auto simp: load_loop.simps [of w pick cited] Let_def error_exit_def)
        next
          case (Some t)
          then show ?thesis
            using "1.IH"(2) [OF False refl refl fresh Inr Some refl] "1.prems" False fresh Inr
            by (simp add: load_loop.simps [of w pick cited] Let_def)
        qed
      qed
    qed
  qed
qed

lemma load_loop_error_exit_demo:
  "\<exists>m. load_loop demo_world (\<lambda>_. 0) [(''lib'', ''nothing'')] [] ([], demo_blade) = Inl (ErrorExit m)"
proof -
  have "\<not> is_ok (load_loop demo_world (\<lambda>_. 0) [(''lib'', ''nothing'')] [] ([], demo_blade))"
    by code_simp
  then obtain e where "load_loop demo_world (\<lambda>_. 0) [(''lib'', ''nothing'')] [] ([], demo_blade) = Inl e"
    by (auto simp: is_ok_def split: sum.splits)
  with load_loop_error_exit show ?thesis by metis
qed

text \<open>C10: After loading, the analysis of the loaded targets can fail in one way only: a
  dependency loop. Otherwise the sorted keys are the targets to build, each once.\<close>

theorem load_then_analyze:
  assumes "blade_load_targets w pick b0 = Inr b" and "db_inv (b_database b0)" and "enumerates enum"
  shows "is_ok (analyze_targets enum b) = acyclic (dep_graph (build_dict b)) \<and>
    (\<forall>b'. analyze_targets enum b = Inr b' \<longrightarrow>
       distinct (b_sorted_keys b') \<and> set (b_sorted_keys b') = set (b_build_targets b))"
  using load_analyze [OF assms] by blast

theorem load_then_analyze_witness:
  "\<exists>b. blade_load_targets demo_world (\<lambda>_. 0) demo_blade = Inr b \<and>
     is_ok (analyze_targets rev b) = acyclic (dep_graph (build_dict b))"
proof -
  obtain b where b: "blade_load_targets demo_world (\<lambda>_. 0) demo_blade = Inr b"
    using demo_load_ok unfolding is_ok_iff ..
  with load_then_analyze [OF b demo_db enumerates_rev] show ?thesis by blast
qed

end
