(* ===== verification/ManagerResults.thy ===== *)
theory ManagerResults
  imports Demo
begin

text \<open>
  The manager's database after \<open>analyze_targets\<close>: it holds, for the targets to build, exactly
  the direct and indirect dependencies of the loaded graph, so the rules come out after those
  of the dependencies and queries report reachability.
\<close>

section \<open>The database after the analysis\<close>

lemma map_of_keys: "k \<in> set (keys d) \<Longrightarrow> \<exists>v. map_of d k = Some v"
  using map_of_in_keys [of k d] by (simp only: set_map)

lemma map_of_not_keys: "k \<notin> set (keys d) \<Longrightarrow> map_of d k = None"
  using map_of_key [of d k] by (metis not_None_eq set_map)

lemma deps_of_dict_update:
  assumes "distinct (keys new)"
  shows "deps_of (dict_update d new) k = (if k \<in> set (keys new) then deps_of new k else deps_of d k)"
proof (cases "k \<in> set (keys new)")
  case True
  from map_of_keys [OF True] obtain t where "map_of new k = Some t" ..
  with True show ?thesis by (simp add: deps_of_def map_of_dict_update [OF assms])
next
  case False
  then have "map_of new k = None" by (rule map_of_not_keys)
  then show ?thesis using False by (simp add: deps_of_def map_of_dict_update [OF assms])
qed

lemma analyzed_database:
  assumes load: "blade_load_targets w pick b0 = Inr b" and db: "db_inv (b_database b0)"
    and enum: "enumerates enum" and run: "analyze_targets enum b = Inr b'"
  shows "b_build_targets b' = b_build_targets b"
    and "set (b_build_targets b') \<subseteq> set (keys (b_database b'))"
    and "k \<in> set (b_build_targets b) \<Longrightarrow>
      set (deps_of (b_database b') k) = (dep_graph (build_dict b))\<^sup>+ `` {k}"
    and "k \<in> set (b_build_targets b) \<Longrightarrow> distinct (deps_of (b_database b') k)"
    and "distinct (b_sorted_keys b')" and "set (b_sorted_keys b') = set (b_build_targets b)"
    and "b_sorted_keys b' = xs @ j # ys \<Longrightarrow> (dep_graph (build_dict b))\<^sup>+ `` {j} \<subseteq> set xs"
proof -
  note L = blade_load_targets_correct [OF load db]
  note wf = dict_wf_build [OF L(3)]
  obtain ts' order where A: "analyze_deps enum (build_dict b) = Inr (ts', order)"
    and b': "b' = info ''analyzing done.'' ((info ''analyzing dependency graph...'' b)
       \<lparr>b_database := dict_update (b_database b) ts', b_sorted_keys := order, b_expanded := True\<rparr>)"
    using run by (auto simp: analyze_targets_def bind_res_eq_Inr)
  have R: "expand_deps (build_dict b) = Inr ts'" "distinct order"
      "set order = set (keys (build_dict b))"
      "\<forall>xs k ys. order = xs @ k # ys \<longrightarrow> (dep_graph (build_dict b))\<^sup>+ `` {k} \<subseteq> set xs"
    using analyze_deps_result [OF enum wf] A by auto
  have k': "keys ts' = b_build_targets b"
    using keys_expand_deps [OF R(1)] by (simp add: build_dict_def)
  then have d': "distinct (keys ts')" using L(3) by simp
  note look = map_of_dict_update [OF d', of "b_database b"]
  show bt: "b_build_targets b' = b_build_targets b" by (simp add: b' info_def)
  have "j \<in> set (keys (b_database b'))" if j: "j \<in> set (b_build_targets b)" for j
  proof -
    obtain t where "map_of ts' j = Some t" using j k' map_of_keys [of j ts'] by metis
    then have "map_of (b_database b') j = Some t" by (simp add: b' info_def look)
    from map_of_key [OF this] show ?thesis by (simp only: set_map)
  qed
  then show "set (b_build_targets b') \<subseteq> set (keys (b_database b'))" unfolding bt by (rule subsetI)
  have D: "deps_of (b_database b') k = deps_of ts' k" if "k \<in> set (b_build_targets b)"
    using that k' by (simp add: b' info_def deps_of_dict_update [OF d'])
  show "set (deps_of (b_database b') k) = (dep_graph (build_dict b))\<^sup>+ `` {k}"
    if "k \<in> set (b_build_targets b)"
    using dep_graph_expanded [OF R(1)] D [OF that] unfolding dep_graph_def by (metis edges_Image)
  show "distinct (deps_of (b_database b') k)" if "k \<in> set (b_build_targets b)"
    using expand_deps_sound(2) [OF R(1), of k] that D [OF that]
    by (simp add: build_dict_def link_closure_def link_ordered_def)
  show "distinct (b_sorted_keys b')" "set (b_sorted_keys b') = set (b_build_targets b)"
    using R(2,3) by (simp_all add: b' info_def build_dict_def)
  show "(dep_graph (build_dict b))\<^sup>+ `` {j} \<subseteq> set xs" if "b_sorted_keys b' = xs @ j # ys"
  proof -
    have "order = xs @ j # ys" using that by (simp add: b' info_def)
    with R(4) show ?thesis by blast
  qed
qed

section \<open>The properties\<close>

lemma filter_split:
  "filter P l = xs @ k # ys \<Longrightarrow> \<exists>us vs. l = us @ k # vs \<and> xs = filter P us"
proof (induction l arbitrary: xs)
  case (Cons a l)
  show ?case
  proof (cases "P a \<and> xs = []")
    case True
    then have "a = k" using Cons.prems by simp
    then show ?thesis using True by (intro exI [of _ "[]"] exI [of _ l]) simp
  next
    case False
    then obtain xs' where "filter P l = xs' @ k # ys" and "xs = (if P a then a # xs' else xs')"
      using Cons.prems by (cases xs) (auto split: if_splits)
    with Cons.IH obtain us vs where "l = us @ k # vs" "xs = filter P (a # us)" by (metis filter.simps(2))
    then show ?thesis by (intro exI [of _ "a # us"] exI [of _ vs]) simp
  qed
qed simp

lemma selected_build:
  "gen_selected b k \<longleftrightarrow> (\<exists>t. map_of (b_database b) k = Some t \<and> t_type t \<noteq> ''system_library'' \<and>
     \<not> (o_no_test (b_options b) \<and> t_type t = ''cc_test''))"
  by (simp add: gen_selected_def split: option.splits)

text \<open>The rules collected when the sorted keys are the targets to build, dependencies first\<close>

definition keys_sorted :: "blade \<Rightarrow> bool" where
  "keys_sorted b \<longleftrightarrow> distinct (b_sorted_keys b) \<and> set (b_sorted_keys b) = set (b_build_targets b) \<and>
     deps_first (deps_of (b_database b)) (b_sorted_keys b)"

lemma analyzed_keys_sorted:
  assumes "blade_load_targets w pick b0 = Inr b" and "db_inv (b_database b0)" and "enumerates enum"
    and "analyze_targets enum b = Inr b1"
  shows "keys_sorted b1"
proof -
  note A = analyzed_database [OF assms]
  have "set (deps_of (b_database b1) j) \<subseteq> set xs" if "b_sorted_keys b1 = xs @ j # ys" for xs j ys
  proof -
    have "j \<in> set (b_build_targets b)" using A(6) that by auto
    then show ?thesis using A(3) A(7) [OF that] by simp
  qed
  then show ?thesis using A(1,5,6) unfolding keys_sorted_def deps_first_def by simp
qed

lemma collected_rules:
  assumes "keys_sorted b1" and run: "gen_targets_rules base b1 = Inr (b2, buf)"
    and ks: "ks = filter (gen_selected b1) (b_sorted_keys b1)"
  shows "same_objects b1 b2" and "buf = concat (map (rules_of b2) ks)" and "distinct ks"
    and "set ks = {k \<in> set (b_build_targets b1). gen_selected b1 k}"
    and "ks = xs @ k # ys \<Longrightarrow> {d \<in> set (deps_of (b_database b1) k). gen_selected b1 d} \<subseteq> set xs"
proof -
  note A = assms(1) [unfolded keys_sorted_def]
  note G = target_rules.gen_rules_loop [OF run [unfolded gen_targets_rules_def] conjunct1 [OF A]]
  show "same_objects b1 b2" "buf = concat (map (rules_of b2) ks)" using G unfolding ks by simp_all
  show "distinct ks" "set ks = {k \<in> set (b_build_targets b1). gen_selected b1 k}"
    using A unfolding ks by auto
  assume "ks = xs @ k # ys"
  from filter_split [OF this [unfolded ks]] obtain us vs
    where split: "b_sorted_keys b1 = us @ k # vs" "xs = filter (gen_selected b1) us" by blast
  then have "set (deps_of (b_database b1) k) \<subseteq> set us" using A unfolding deps_first_def by blast
  then show "{d \<in> set (deps_of (b_database b1) k). gen_selected b1 d} \<subseteq> set xs"
    unfolding split(2) set_filter by blast
qed

text \<open>The rules of the generated script are those the objects keep in their buffers, in
  the order of the sorted keys: one group for each target that is not a system library (and
  not a test that is skipped), after the groups of everything the target depends on.\<close>

lemma generate_rules_ordered:
  assumes "blade_load_targets w pick b0 = Inr b" and "db_inv (b_database b0)" and "enumerates enum"
    and "analyze_targets enum b = Inr b1" and "gen_targets_rules base b1 = Inr (b2, buf)"
  shows "\<exists>ks. ks = filter (gen_selected b1) (b_sorted_keys b1) \<and>
    buf = concat (map (rules_of b2) ks) \<and> distinct ks \<and>
    (\<forall>xs k ys. ks = xs @ k # ys \<longrightarrow>
       {d \<in> set (deps_of (b_database b1) k). gen_selected b1 d} \<subseteq> set xs)"
  using collected_rules [OF analyzed_keys_sorted [OF assms(1-4)] assms(5) refl] by blast

lemma demo_pipeline_ok:
  "is_ok (bind_res (blade_load_targets demo_world (\<lambda>_. 0) demo_blade) (\<lambda>b.
     bind_res (analyze_targets rev b) (\<lambda>b1.
     bind_res (gen_targets_rules demo_base b1) (\<lambda>_.
     bind_res (query_helper demo_world [''lib:a''] b1) (\<lambda>(r, _).
     dict_index r (''lib'', ''a''))))))"
  by code_simp

lemma demo_pipeline:
  obtains b b1 b2 buf r b3 deps users where "blade_load_targets demo_world (\<lambda>_. 0) demo_blade = Inr b"
    and "analyze_targets rev b = Inr b1" and "gen_targets_rules demo_base b1 = Inr (b2, buf)"
    and "query_helper demo_world [''lib:a''] b1 = Inr (r, b3)"
    and "map_of r (''lib'', ''a'') = Some (deps, users)"
proof -
  obtain x where "bind_res (blade_load_targets demo_world (\<lambda>_. 0) demo_blade) (\<lambda>b.
     bind_res (analyze_targets rev b) (\<lambda>b1.
     bind_res (gen_targets_rules demo_base b1) (\<lambda>_.
     bind_res (query_helper demo_world [''lib:a''] b1) (\<lambda>(r, _).
     dict_index r (''lib'', ''a''))))) = Inr x"
    using demo_pipeline_ok unfolding is_ok_iff ..
  then show thesis using that unfolding bind_res_eq_Inr case_prod_beta dict_index_Inr
    by (metis prod.collapse)
qed

lemma generate_rules_ordered_demo:
  "\<exists>b1 b2 buf. gen_targets_rules demo_base b1 = Inr (b2, buf) \<and>
     buf = concat (map (rules_of b2) (filter (gen_selected b1) (b_sorted_keys b1)))"
proof -
  obtain b b1 b2 buf r b3 deps users where run: "blade_load_targets demo_world (\<lambda>_. 0) demo_blade = Inr b"
      "analyze_targets rev b = Inr b1" "gen_targets_rules demo_base b1 = Inr (b2, buf)"
      "query_helper demo_world [''lib:a''] b1 = Inr (r, b3)"
      "map_of r (''lib'', ''a'') = Some (deps, users)"
    by (rule demo_pipeline)
  from generate_rules_ordered [OF run(1) demo_db enumerates_rev run(2,3)] run(3) show ?thesis by blast
qed

text \<open>C2: A query reports reachability: the dependencies it lists for a target are all the
  targets it reaches in the loaded graph, the users it lists are all the targets to build that
  reach it, and both lists are sorted and free of repetitions of dependencies.\<close>

theorem query_reports_reachability:
  assumes "blade_load_targets w pick b0 = Inr b" and "db_inv (b_database b0)" and "enumerates enum"
    and "analyze_targets enum b = Inr b1" and "query_helper w' targets b1 = Inr (r, b2)"
    and "map_of r k = Some (deps, users)"
  shows "k \<in> set (b_build_targets b) \<and> sorted deps \<and> distinct deps \<and>
    set deps = (dep_graph (build_dict b))\<^sup>+ `` {k} \<and> sorted users \<and>
    set users = {j \<in> set (b_build_targets b). (j, k) \<in> (dep_graph (build_dict b))\<^sup>+}"
proof -
  note A = analyzed_database [OF assms(1-4)]
  have q: "query_ok b1 r" using query_helper_ok [OF assms(5) A(2)] ..
  then have Q: "k \<in> set (b_build_targets b)" "sorted deps" "sorted users"
      "mset deps = mset (deps_of (b_database b1) k)"
      "\<And>j. j \<in> set users \<longleftrightarrow> j \<in> set (b_build_targets b) \<and> k \<in> set (deps_of (b_database b1) j)"
    using assms(6) unfolding query_ok_def A(1) by blast+
  have "set deps = (dep_graph (build_dict b))\<^sup>+ `` {k}"
    using A(3) [OF Q(1)] mset_eq_setD [OF Q(4)] by simp
  moreover have "distinct deps"
    using A(4) [OF Q(1)] mset_eq_imp_distinct_iff [OF Q(4)] by simp
  moreover have "set users = {j \<in> set (b_build_targets b). (j, k) \<in> (dep_graph (build_dict b))\<^sup>+}"
    using Q(5) A(3) unfolding set_eq_iff mem_Collect_eq Image_singleton_iff by metis
  ultimately show ?thesis using Q(1-3) by blast
qed

theorem query_reports_reachability_witness:
  "\<exists>b b1 r b2 deps users. blade_load_targets demo_world (\<lambda>_. 0) demo_blade = Inr b \<and>
     query_helper demo_world [''lib:a''] b1 = Inr (r, b2) \<and>
     map_of r (''lib'', ''a'') = Some (deps, users) \<and>
     set users = {j \<in> set (b_build_targets b). (j, (''lib'', ''a'')) \<in> (dep_graph (build_dict b))\<^sup>+}"
proof -
  obtain b b1 b2 buf r b3 deps users where run: "blade_load_targets demo_world (\<lambda>_. 0) demo_blade = Inr b"
      "analyze_targets rev b = Inr b1" "gen_targets_rules demo_base b1 = Inr (b2, buf)"
      "query_helper demo_world [''lib:a''] b1 = Inr (r, b3)"
      "map_of r (''lib'', ''a'') = Some (deps, users)"
    by (rule demo_pipeline)
  from query_reports_reachability [OF run(1) demo_db enumerates_rev run(2,4,5)] run(1,4,5)
  show ?thesis by blast
qed

text \<open>C20: With at least one processor, a build without distcc never runs with fewer than one
  job, keeps a number the user gave, and by itself takes at most eight; with distcc it takes
  between one and twenty, whatever the user gave.\<close>

theorem tune_jobs_bounds:
  assumes "1 \<le> cpus"
  shows "1 \<le> tune_jobs enabled prepared hosts cpus user \<and>
    (if enabled \<and> prepared then tune_jobs enabled prepared hosts cpus user \<le> 20
     else if 1 \<le> user then tune_jobs enabled prepared hosts cpus user = user
     else tune_jobs enabled prepared hosts cpus user \<le> 8)"
  using assms by (auto simp: tune_jobs_def Let_def min_def)

theorem tune_jobs_bounds_witness: "1 \<le> tune_jobs False False 0 16 0 \<and> tune_jobs False False 0 16 0 \<le> 8"
  using tune_jobs_bounds [of 16 False False 0 0] by simp

end
