(* ===== verification/WorkerPool.thy ===== *)
theory WorkerPool
  imports Prelude "HOL-Library.Multiset"
begin

text \<open>
  Threads over a shared state: a pool is the shared state and the list of its workers, and a
  step lets one worker, chosen by nobody, do one atomic action. A worker that has ended or
  waits for ever has no step. The locale \<open>worker_pool\<close> is the contract one worker has to
  keep; what follows for every interleaving is proved in it once.
\<close>

section \<open>Interleaving\<close>

type_synonym ('c, 'w, 's) worker_code = "'c \<Rightarrow> 'w \<Rightarrow> 's \<Rightarrow> ('w \<times> 's) option"

inductive pool_step :: "('c, 'w, 's) worker_code \<Rightarrow> 's \<times> 'w list \<Rightarrow> 's \<times> 'w list \<Rightarrow> bool"
  for wstep where
  worker_moves: "i < length ws \<Longrightarrow> wstep c (ws ! i) s = Some (w', s') \<Longrightarrow>
    pool_step wstep (s, ws) (s', ws[i := w'])"

inductive_cases pool_stepE: "pool_step wstep (s, ws) q"
inductive_simps pool_step_iff: "pool_step wstep (s, ws) (s', ws')"

text \<open>Runs, with the number of their steps\<close>

inductive pool_run ::
  "('c, 'w, 's) worker_code \<Rightarrow> nat \<Rightarrow> 's \<times> 'w list \<Rightarrow> 's \<times> 'w list \<Rightarrow> bool"
  for wstep where
  pool_stop: "pool_run wstep 0 p p"
| pool_more: "pool_run wstep n p q \<Longrightarrow> pool_step wstep q r \<Longrightarrow> pool_run wstep (Suc n) p r"

definition pool_stuck :: "('c, 'w, 's) worker_code \<Rightarrow> 's \<times> 'w list \<Rightarrow> bool" where
  "pool_stuck wstep p \<longleftrightarrow> \<not> (\<exists>q. pool_step wstep p q)"

lemma pool_run_append: "pool_run wstep m q r \<Longrightarrow> pool_run wstep n p q \<Longrightarrow> pool_run wstep (n + m) p r"
  by (induction rule: pool_run.induct) (auto intro: pool_run.intros)

lemma pool_stuck_iff:
  "pool_stuck wstep (s, ws) \<longleftrightarrow> (\<forall>w \<in> set ws. \<forall>c. wstep c w s = None)"
proof
  assume stuck: "pool_stuck wstep (s, ws)"
  show "\<forall>w \<in> set ws. \<forall>c. wstep c w s = None"
  proof (intro ballI allI)
    fix w c assume "w \<in> set ws"
    then obtain i where i: "i < length ws" "ws ! i = w" by (auto simp: in_set_conv_nth)
    show "wstep c w s = None"
    proof (rule ccontr)
      assume "wstep c w s \<noteq> None"
      then obtain w' s' where "wstep c (ws ! i) s = Some (w', s')" using i by auto
      from worker_moves [of i ws wstep, OF i(1) this] show False using stuck unfolding pool_stuck_def by blast
    qed
  qed
next
  assume none: "\<forall>w \<in> set ws. \<forall>c. wstep c w s = None"
  show "pool_stuck wstep (s, ws)"
    unfolding pool_stuck_def
  proof
    assume "\<exists>q. pool_step wstep (s, ws) q"
    then obtain i c w' s' where "i < length ws" "wstep c (ws ! i) s = Some (w', s')"
      by (auto elim: pool_stepE)
    with none nth_mem show False by fastforce
  qed
qed

lemma pool_step_length: "pool_step wstep p q \<Longrightarrow> length (snd q) = length (snd p)"
  by (induction rule: pool_step.induct) simp

lemma pool_run_length: "pool_run wstep n p q \<Longrightarrow> length (snd q) = length (snd p)"
  by (induction rule: pool_run.induct) (simp_all add: pool_step_length)

lemma mset_split_worker:
  "i < length ws \<Longrightarrow> \<exists>rest. mset ws = add_mset (ws ! i) rest \<and> mset (ws[i := w']) = add_mset w' rest"
  by (metis insert_DiffM mset_update nth_mem_mset)

lemma sum_list_update_worker:
  fixes f :: "'w \<Rightarrow> nat"
  assumes "i < length ws"
  shows "sum_list (map f (ws[i := w'])) + f (ws ! i) = sum_list (map f ws) + f w'"
proof -
  obtain rest where "mset ws = add_mset (ws ! i) rest" "mset (ws[i := w']) = add_mset w' rest"
    using mset_split_worker [OF assms] by blast
  then have "sum_mset (image_mset f (mset ws)) = f (ws ! i) + sum_mset (image_mset f rest)"
    "sum_mset (image_mset f (mset (ws[i := w']))) = f w' + sum_mset (image_mset f rest)" by simp_all
  then show ?thesis by (simp add: sum_mset_sum_list flip: mset_map)
qed

text \<open>The run that follows a given list of choices: which worker moves, and its choice\<close>

fun pool_exec ::
  "('c, 'w, 's) worker_code \<Rightarrow> (nat \<times> 'c) list \<Rightarrow> 's \<times> 'w list \<Rightarrow> ('s \<times> 'w list) option" where
  "pool_exec wstep [] p = Some p"
| "pool_exec wstep (m # ms) p =
     (if fst m < length (snd p) then
        (case wstep (snd m) (snd p ! fst m) (fst p) of
           None \<Rightarrow> None
         | Some (w', s') \<Rightarrow> pool_exec wstep ms (s', (snd p)[fst m := w']))
      else None)"

lemma pool_exec_run: "pool_exec wstep ms p = Some q \<Longrightarrow> pool_run wstep (length ms) p q"
proof (induction ms arbitrary: p)
  case Nil
  then show ?case by (simp add: pool_stop)
next
  case (Cons m ms)
  then obtain w' s' where i: "fst m < length (snd p)" and w: "wstep (snd m) (snd p ! fst m) (fst p) = Some (w', s')"
    and r: "pool_exec wstep ms (s', (snd p)[fst m := w']) = Some q"
    by (auto split: if_splits option.splits)
  have "pool_step wstep p (s', (snd p)[fst m := w'])" using worker_moves [of "fst m" "snd p" wstep "snd m" "fst p" w' s', OF i w] by simp
  from pool_run_append [OF Cons.IH [OF r] pool_more [OF pool_stop this]] show ?case by simp
qed

definition pool_rank :: "('s \<Rightarrow> nat) \<Rightarrow> ('w \<Rightarrow> nat) \<Rightarrow> 's \<times> 'w list \<Rightarrow> nat" where
  "pool_rank shared_rank worker_rank p = shared_rank (fst p) + sum_list (map worker_rank (snd p))"

section \<open>The contract of a worker\<close>

locale worker_pool =
  fixes wstep :: "('c, 'w, 's) worker_code"
    and inv :: "'s \<Rightarrow> 'w multiset \<Rightarrow> bool"
    and shared_rank :: "'s \<Rightarrow> nat" and worker_rank :: "'w \<Rightarrow> nat"
  assumes wstep_inv: "inv s (add_mset w rest) \<Longrightarrow> wstep c w s = Some (w', s') \<Longrightarrow> inv s' (add_mset w' rest)"
    and wstep_rank: "wstep c w s = Some (w', s') \<Longrightarrow>
      shared_rank s' + worker_rank w' < shared_rank s + worker_rank w"
begin

lemma step_inv: "pool_step wstep (s, ws) (s', ws') \<Longrightarrow> inv s (mset ws) \<Longrightarrow> inv s' (mset ws')"
proof (erule pool_stepE)
  fix i c w' s'' assume inv: "inv s (mset ws)" and i: "i < length ws"
    and w: "wstep c (ws ! i) s = Some (w', s'')" and eq: "(s', ws') = (s'', ws[i := w'])"
  obtain rest where rest: "mset ws = add_mset (ws ! i) rest" "mset (ws[i := w']) = add_mset w' rest"
    using mset_split_worker [OF i] by blast
  show "inv s' (mset ws')" using wstep_inv [OF inv [unfolded rest(1)] w] eq rest(2) by simp
qed

lemma step_rank:
  "pool_step wstep (s, ws) q \<Longrightarrow>
     pool_rank shared_rank worker_rank q < pool_rank shared_rank worker_rank (s, ws)"
proof (erule pool_stepE)
  fix i c w' s' assume i: "i < length ws" and w: "wstep c (ws ! i) s = Some (w', s')"
    and q: "q = (s', ws[i := w'])"
  show ?thesis
    using sum_list_update_worker [OF i, of worker_rank w'] wstep_rank [OF w]
    by (simp add: pool_rank_def q)
qed

lemma run_inv: "pool_run wstep n p q \<Longrightarrow> inv (fst p) (mset (snd p)) \<Longrightarrow> inv (fst q) (mset (snd q))"
proof (induction rule: pool_run.induct)
  case (pool_more n p q r)
  then show ?case using step_inv [of "fst q" "snd q" "fst r" "snd r"] by simp
qed simp

text \<open>No run is longer than the rank, so every run can be continued to one that is stuck.\<close>

lemma run_bounded: "pool_run wstep n p q \<Longrightarrow> n + pool_rank shared_rank worker_rank q \<le> pool_rank shared_rank worker_rank p"
proof (induction rule: pool_run.induct)
  case (pool_more n p q r)
  then show ?case using step_rank [of "fst q" "snd q" r] by simp
qed simp

lemma run_to_stuck: "\<exists>n q. pool_run wstep n p q \<and> pool_stuck wstep q"
proof (induction "pool_rank shared_rank worker_rank p" arbitrary: p rule: less_induct)
  case less
  show ?case
  proof (cases "pool_stuck wstep p")
    case True
    then show ?thesis using pool_stop by blast
  next
    case False
    then obtain q where q: "pool_step wstep p q" unfolding pool_stuck_def by blast
    then have "pool_rank shared_rank worker_rank q < pool_rank shared_rank worker_rank p"
      using step_rank [of "fst p" "snd p" q] by simp
    with less obtain n r where r: "pool_run wstep n q r" "pool_stuck wstep r" by blast
    have "pool_run wstep (Suc 0) p q" using pool_more [OF pool_stop q] .
    with r show ?thesis using pool_run_append by blast
  qed
qed

end

end
