(* ===== verification/TestScheduler.thy ===== *)
theory TestScheduler
  imports WorkerPool BladeState
begin

text \<open>
  \<open>test_scheduler.py\<close>: worker threads that take tests from a queue, run them and record the
  results. Each access to the queue, each locked region and each run of a process is one
  atomic action of one thread; the threads interleave freely (\<open>WorkerPool\<close>). Starting a
  process is outside: \<open>proc\<close> gives what the process of a job does. The time a test takes is
  the choice \<open>c\<close> of a step.
\<close>

section \<open>Jobs and results\<close>

record job =
  jb_target :: target
  jb_run_dir :: string
  jb_env :: "(string, string) dict"
  jb_cmd :: "string list"

text \<open>\<open>Popen\<close> raises \<open>OSError\<close>, or the process ends with a code, having written its output.\<close>

datatype process = Exited int string | NoProcess string

record run_item =
  ri_runfile :: string
  ri_result :: string
  ri_reason :: string
  ri_costtime :: int

definition signal_map :: "(int, string) dict" where
  "signal_map =
     [(-1, ''SIGHUP''), (-2, ''SIGINT''), (-3, ''SIGQUIT''), (-4, ''SIGILL''), (-5, ''SIGTRAP''),
      (-6, ''SIGABRT''), (-7, ''SIGBUS''), (-8, ''SIGFPE''), (-9, ''SIGKILL''), (-10, ''SIGUSR1''),
      (-11, ''SIGSEGV''), (-12, ''SIGUSR2''), (-13, ''SIGPIPE''), (-14, ''SIGALRM''),
      (-15, ''SIGTERM''), (-17, ''SIGCHLD''), (-18, ''SIGCONT''), (-19, ''SIGSTOP''),
      (-20, ''SIGTSTP''), (-21, ''SIGTTIN''), (-22, ''SIGTTOU''), (-23, ''SIGURG''),
      (-24, ''SIGXCPU''), (-25, ''SIGXFSZ''), (-26, ''SIGVTALRM''), (-27, ''SIGPROF''),
      (-28, ''SIGWINCH''), (-29, ''SIGIO''), (-30, ''SIGPWR''), (-31, ''SIGSYS'')]"

definition get_result :: "int \<Rightarrow> string" where
  "get_result returncode =
     (if returncode \<noteq> 0 then dict_get signal_map returncode ''FAILED'' @ '':'' @ dec_int returncode
      else ''SUCCESS'')"

section \<open>The state the threads share\<close>

record sched =
  ts_job_queue :: "job list"
  ts_exclusive_queue :: "job list"
  ts_failed :: "target list"
  ts_run_map :: "(tkey, run_item) dict"
  ts_num_run :: nat
  ts_console :: "msg list"

definition queue_of :: "bool \<Rightarrow> sched \<Rightarrow> job list" where
  "queue_of exclusive s = (if exclusive then ts_exclusive_queue s else ts_job_queue s)"

definition set_queue :: "bool \<Rightarrow> job list \<Rightarrow> sched \<Rightarrow> sched" where
  "set_queue exclusive q s =
     (if exclusive then s\<lparr>ts_exclusive_queue := q\<rparr> else s\<lparr>ts_job_queue := q\<rparr>)"

definition say :: "msg list \<Rightarrow> sched \<Rightarrow> sched" where
  "say ms s = s\<lparr>ts_console := ts_console s @ ms\<rparr>"

text \<open>
  \<open>_run_job_redirect\<close> and \<open>_run_job\<close>: the lines printed, and the return code or the exception.
  \<open>_run_job\<close> looks up the working directory in the environment of the test.
\<close>

definition run_job_redirect :: "(job \<Rightarrow> process) \<Rightarrow> job \<Rightarrow> msg list \<times> (string + int) res" where
  "run_job_redirect proc job =
     (let test_name = colon_name (t_path (jb_target job), t_name (jb_target job));
          running = Info (''Running '' @ repr_strs (jb_cmd job))
      in case proc job of
           NoProcess e \<Rightarrow> ([running], Inr (Inl e))
         | Exited returncode output \<Rightarrow>
             ([running, Info (''Output of '' @ test_name @ '':'' @ newline @ output @ newline @ test_name @
                '' finished: '' @ get_result returncode @ newline)], Inr (Inr returncode)))"

definition run_job :: "(job \<Rightarrow> process) \<Rightarrow> job \<Rightarrow> msg list \<times> (string + int) res" where
  "run_job proc job =
     (let running = Info (''Running '' @ repr_strs (jb_cmd job)) in
      case dict_index (jb_env job) ''PWD'' of
        Inl e \<Rightarrow> ([running], Inl e)
      | Inr run_dir \<Rightarrow>
          (case proc (job\<lparr>jb_run_dir := run_dir\<rparr>) of
             NoProcess e \<Rightarrow> ([running], Inr (Inl e))
           | Exited returncode _ \<Rightarrow>
               ([running, Info (t_path (jb_target job) @ ''/'' @ t_name (jb_target job) @ '' finished : '' @
                  get_result returncode @ newline)], Inr (Inr returncode))))"

text \<open>The \<open>try\<close> statement of \<open>_process_command\<close>: \<open>OSError\<close> counts as code 255.\<close>

definition try_run ::
  "(job \<Rightarrow> process) \<Rightarrow> bool \<Rightarrow> job \<Rightarrow> msg list \<times> int res" where
  "try_run proc redirect job =
     (case (if redirect then run_job_redirect proc job else run_job proc job) of
        (ms, Inl e) \<Rightarrow> (ms, Inl e)
      | (ms, Inr (Inr returncode)) \<Rightarrow> (ms, Inr returncode)
      | (ms, Inr (Inl e)) \<Rightarrow>
          (ms @ [Error (colon_name (t_path (jb_target job), t_name (jb_target job)) @
             '': Create test process error: '' @ e)], Inr 255))"

section \<open>A worker thread\<close>

text \<open>
  The points of \<open>_process_command\<close> between which a thread can be interrupted: before the
  thread starts, at the test of the loop, before \<open>get\<close>, with a job in hand, with its return
  code, before the two locked updates, after the loop. \<open>Died\<close> is a thread whose job raised
  another exception: \<open>WorkerThread.run\<close> prints it and the thread ends.
\<close>

datatype worker =
    Starting nat | AtTest | Fetching | Running job | Returned job int | Recording job int
  | Counting job | Finished | Died job

fun worker_step ::
  "(job \<Rightarrow> process) \<Rightarrow> bool \<Rightarrow> bool \<Rightarrow> int \<Rightarrow> worker \<Rightarrow> sched \<Rightarrow> (worker \<times> sched) option" where
  "worker_step proc redirect excl c (Starting i) s =
     Some (AtTest, say [Info (''blade test executor '' @ dec_nat i @ '' starts to work'')] s)"
| "worker_step proc redirect excl c AtTest s =
     Some (if queue_of excl s = [] then Finished else Fetching, s)"
| "worker_step proc redirect excl c Fetching s =
     (case queue_of excl s of
        [] \<Rightarrow> None
      | job # q \<Rightarrow> Some (Running job, set_queue excl q s))"
| "worker_step proc redirect excl c (Running job) s =
     (case try_run proc redirect job of
        (ms, Inl _) \<Rightarrow> Some (Died job, say ms s)
      | (ms, Inr returncode) \<Rightarrow> Some (Returned job returncode, say ms s))"
| "worker_step proc redirect excl c (Returned job returncode) s =
     Some (Recording job returncode,
       if returncode \<noteq> 0
       then s\<lparr>ts_failed := ts_failed s @ [(jb_target job)\<lparr>t_data :=
                (t_data (jb_target job))\<lparr>d_test_exit_code := Some returncode\<rparr>\<rparr>]\<rparr>
       else s)"
| "worker_step proc redirect excl c (Recording job returncode) s =
     Some (Counting job,
       case map_of (ts_run_map s) (t_key (jb_target job)) of
         None \<Rightarrow> s
       | Some item \<Rightarrow> s\<lparr>ts_run_map := dict_set (t_key (jb_target job))
             (item\<lparr>ri_result := get_result returncode, ri_costtime := c\<rparr>) (ts_run_map s)\<rparr>)"
| "worker_step proc redirect excl c (Counting job) s = Some (AtTest, s\<lparr>ts_num_run := ts_num_run s + 1\<rparr>)"
| "worker_step proc redirect excl c Finished s = None"
| "worker_step proc redirect excl c (Died job) s = None"

fun ended :: "worker \<Rightarrow> bool" where
  "ended Finished = True"
| "ended (Died _) = True"
| "ended _ = False"

section \<open>Scheduling\<close>

definition get_workers_num :: "nat \<Rightarrow> int \<Rightarrow> nat \<Rightarrow> int" where
  "get_workers_num cpu_core_num jobs num_of_tests =
     (let max_workers = max (int cpu_core_num) 16;
          max_workers = (if max_workers = 0 then 16 else max_workers)
      in if jobs \<le> 1 then 1
         else let jobs = (if jobs > max_workers then max_workers else jobs)
              in if int num_of_tests \<le> jobs then int num_of_tests else jobs)"

definition enqueue :: "job \<Rightarrow> sched \<Rightarrow> sched" where
  "enqueue job s =
     (if d_exclusive (t_data (jb_target job))
      then s\<lparr>ts_exclusive_queue := ts_exclusive_queue s @ [job]\<rparr>
      else s\<lparr>ts_job_queue := ts_job_queue s @ [job]\<rparr>)"

definition new_sched :: "(tkey, run_item) dict \<Rightarrow> sched" where
  "new_sched tests_run_map = \<lparr>ts_job_queue = [], ts_exclusive_queue = [], ts_failed = [],
     ts_run_map = tests_run_map, ts_num_run = 0, ts_console = []\<rparr>"

definition dec_msg :: "string \<Rightarrow> int \<Rightarrow> string \<Rightarrow> msg" where
  "dec_msg front n back = Info (front @ dec_int n @ back)"

definition start_jobs :: "job list \<Rightarrow> int \<Rightarrow> sched \<Rightarrow> sched" where
  "start_jobs tests workers s =
     fold enqueue tests (say [dec_msg ''spawn '' workers '' worker(s) to run tests''] s)"

definition print_summary :: "job list \<Rightarrow> sched \<Rightarrow> sched" where
  "print_summary tests =
     say [dec_msg ''There are '' (int (length tests)) '' tests scheduled to run by scheduler'']"

text \<open>
  \<open>schedule_jobs\<close> returns when every thread it joins has ended: first the workers on the job
  queue, then one worker on the queue of exclusive tests.
\<close>

inductive schedule_jobs ::
  "(job \<Rightarrow> process) \<Rightarrow> nat \<Rightarrow> int \<Rightarrow> job list \<Rightarrow> sched \<Rightarrow> sched \<Rightarrow> bool"
  for proc cpus jobs tests where
  no_tests: "tests = [] \<Longrightarrow> schedule_jobs proc cpus jobs tests s s"
| only_shared: "tests \<noteq> [] \<Longrightarrow> n = get_workers_num cpus jobs (length tests) \<Longrightarrow>
    pool_run (worker_step proc (n > 1) False) k
      (start_jobs tests n s, map Starting [0..<nat n]) (s1, ws) \<Longrightarrow>
    list_all ended ws \<Longrightarrow> ts_exclusive_queue s1 = [] \<Longrightarrow>
    schedule_jobs proc cpus jobs tests s (print_summary tests s1)"
| then_exclusive: "tests \<noteq> [] \<Longrightarrow> n = get_workers_num cpus jobs (length tests) \<Longrightarrow>
    pool_run (worker_step proc (n > 1) False) k
      (start_jobs tests n s, map Starting [0..<nat n]) (s1, ws) \<Longrightarrow>
    list_all ended ws \<Longrightarrow> ts_exclusive_queue s1 \<noteq> [] \<Longrightarrow>
    pool_run (worker_step proc False True) k'
      (say [Info ''spawn 1 worker to run exclusive tests''] s1, [Starting (nat n)]) (s2, [w]) \<Longrightarrow>
    ended w \<Longrightarrow>
    schedule_jobs proc cpus jobs tests s (print_summary tests s2)"

end
