(* ===== verification/SchedulerCorrect.thy ===== *)
theory SchedulerCorrect
  imports TestScheduler
begin

text \<open>
  Correctness of the test scheduler: whatever the interleaving, no test is lost or run twice,
  the lists of results say what the processes did, and a run has a bounded number of steps.
  The workers of \<open>test_scheduler.py\<close> are an instance of the pool contract.
\<close>

declare split_paired_All [simp del] split_paired_Ex [simp del]

section \<open>What a job contributes\<close>

definition exit_of :: "(job \<Rightarrow> process) \<Rightarrow> bool \<Rightarrow> job \<Rightarrow> int option" where
  "exit_of proc redirect job =
     (case snd (try_run proc redirect job) of Inl _ \<Rightarrow> None | Inr rc \<Rightarrow> Some rc)"

definition failing :: "(job \<Rightarrow> process) \<Rightarrow> bool \<Rightarrow> job \<Rightarrow> bool" where
  "failing proc redirect job \<longleftrightarrow> exit_of proc redirect job \<noteq> Some 0"

definition failed_target :: "(job \<Rightarrow> process) \<Rightarrow> bool \<Rightarrow> job \<Rightarrow> target" where
  "failed_target proc redirect job =
     (jb_target job)\<lparr>t_data := (t_data (jb_target job))\<lparr>d_test_exit_code := exit_of proc redirect job\<rparr>\<rparr>"

abbreviation job_key :: "job \<Rightarrow> tkey" where
  "job_key job \<equiv> t_key (jb_target job)"

text \<open>The job a worker has in hand; the one it has noted as failed or passed; the one whose
  result it has recorded.\<close>

fun held :: "worker \<Rightarrow> job multiset" where
  "held (Running j) = {#j#}"
| "held (Returned j _) = {#j#}"
| "held (Recording j _) = {#j#}"
| "held (Counting j) = {#j#}"
| "held (Died j) = {#j#}"
| "held _ = {#}"

fun noted :: "worker \<Rightarrow> job multiset" where
  "noted (Recording j _) = {#j#}"
| "noted (Counting j) = {#j#}"
| "noted _ = {#}"

fun recorded :: "worker \<Rightarrow> job multiset" where
  "recorded (Counting j) = {#j#}"
| "recorded _ = {#}"

fun worker_ok :: "(job \<Rightarrow> process) \<Rightarrow> bool \<Rightarrow> worker \<Rightarrow> bool" where
  "worker_ok proc redirect (Returned j rc) = (exit_of proc redirect j = Some rc)"
| "worker_ok proc redirect (Recording j rc) = (exit_of proc redirect j = Some rc)"
| "worker_ok proc redirect (Counting j) = (exit_of proc redirect j \<noteq> None)"
| "worker_ok proc redirect (Died j) = (exit_of proc redirect j = None)"
| "worker_ok proc redirect _ = True"

section \<open>The invariant\<close>

text \<open>An entry of the map of runs is the one given, or carries the result of a recorded job.\<close>

definition map_ok ::
  "(job \<Rightarrow> process) \<Rightarrow> bool \<Rightarrow> (tkey, run_item) dict \<Rightarrow> job multiset \<Rightarrow> (tkey, run_item) dict \<Rightarrow> bool" where
  "map_ok proc redirect rm0 R rm \<longleftrightarrow> keys rm = keys rm0 \<and>
     (\<forall>k item. map_of rm k = Some item \<longrightarrow>
        (if k \<in> job_key ` set_mset R
         then \<exists>j rc. j \<in># R \<and> job_key j = k \<and> exit_of proc redirect j = Some rc \<and> ri_result item = get_result rc
         else map_of rm0 k = Some item))"

definition account ::
  "(job \<Rightarrow> process) \<Rightarrow> bool \<Rightarrow> bool \<Rightarrow> job multiset \<Rightarrow> sched \<Rightarrow> job multiset \<Rightarrow> sched \<Rightarrow> worker multiset \<Rightarrow> bool" where
  "account proc redirect excl J s0 fin s W \<longleftrightarrow>
     J = mset (queue_of excl s) + sum_mset (image_mset held W) + fin \<and>
     ts_num_run s = ts_num_run s0 + size fin \<and>
     (\<forall>j \<in># fin. exit_of proc redirect j \<noteq> None) \<and>
     mset (ts_failed s) = mset (ts_failed s0) + image_mset (failed_target proc redirect)
       (filter_mset (failing proc redirect) (fin + sum_mset (image_mset noted W))) \<and>
     map_ok proc redirect (ts_run_map s0) (fin + sum_mset (image_mset recorded W)) (ts_run_map s)"

definition sched_inv ::
  "(job \<Rightarrow> process) \<Rightarrow> bool \<Rightarrow> bool \<Rightarrow> job multiset \<Rightarrow> sched \<Rightarrow> sched \<Rightarrow> worker multiset \<Rightarrow> bool" where
  "sched_inv proc redirect excl J s0 s W \<longleftrightarrow>
     (\<exists>fin. account proc redirect excl J s0 fin s W) \<and>
     (\<forall>w \<in># W. worker_ok proc redirect w) \<and> queue_of (\<not> excl) s = queue_of (\<not> excl) s0 \<and>
     (Finished \<in># W \<longrightarrow> queue_of excl s = [])"

lemma say_fields [simp]:
  "queue_of e (say ms s) = queue_of e s" "ts_failed (say ms s) = ts_failed s"
  "ts_run_map (say ms s) = ts_run_map s" "ts_num_run (say ms s) = ts_num_run s"
  "ts_job_queue (say ms s) = ts_job_queue s" "ts_exclusive_queue (say ms s) = ts_exclusive_queue s"
  by (simp_all add: say_def queue_of_def)

lemma set_queue_fields [simp]:
  "queue_of e (set_queue e q s) = q" "queue_of (\<not> e) (set_queue e q s) = queue_of (\<not> e) s"
  "ts_failed (set_queue e q s) = ts_failed s" "ts_run_map (set_queue e q s) = ts_run_map s"
  "ts_num_run (set_queue e q s) = ts_num_run s"
  by (simp_all add: set_queue_def queue_of_def)

lemma queue_of_updates [simp]:
  "queue_of e (s\<lparr>ts_failed := x\<rparr>) = queue_of e s" "queue_of e (s\<lparr>ts_run_map := y\<rparr>) = queue_of e s"
  "queue_of e (s\<lparr>ts_num_run := z\<rparr>) = queue_of e s"
  by (simp_all add: queue_of_def)

lemma map_ok_record:
  assumes ok: "map_ok proc redirect rm0 R rm" and rc: "exit_of proc redirect j = Some rc"
  shows "map_ok proc redirect rm0 (add_mset j R)
    (case map_of rm (job_key j) of None \<Rightarrow> rm
     | Some item \<Rightarrow> dict_set (job_key j) (item\<lparr>ri_result := get_result rc, ri_costtime := c\<rparr>) rm)"
proof (cases "map_of rm (job_key j)")
  case None
  then show ?thesis using ok by (simp add: map_ok_def) (metis option.distinct(1))
next
  case (Some item)
  have "job_key j \<in> set (keys rm)" using map_of_key [OF Some] by (simp only: set_map)
  then have k: "keys (dict_set (job_key j) (item\<lparr>ri_result := get_result rc, ri_costtime := c\<rparr>) rm) = keys rm0"
    using ok by (simp only: keys_dict_set if_True map_ok_def)
  have "\<exists>j' rc'. j' \<in># add_mset j R \<and> job_key j' = k \<and> exit_of proc redirect j' = Some rc' \<and>
      ri_result it = get_result rc'"
    if m: "map_of (dict_set (job_key j) (item\<lparr>ri_result := get_result rc, ri_costtime := c\<rparr>) rm) k = Some it"
      and "k \<in> job_key ` set_mset (add_mset j R)" for k it
  proof (cases "k = job_key j")
    case True
    then have "ri_result it = get_result rc" using m by auto
    then show ?thesis using True rc by auto
  next
    case False
    then have "map_of rm k = Some it" "k \<in> job_key ` set_mset R" using that by auto
    then obtain j' rc' where "j' \<in># R" "job_key j' = k" "exit_of proc redirect j' = Some rc'"
        "ri_result it = get_result rc'"
      using ok unfolding map_ok_def by metis
    then show ?thesis by auto
  qed
  moreover have "map_of rm0 k = Some it"
    if "map_of (dict_set (job_key j) (item\<lparr>ri_result := get_result rc, ri_costtime := c\<rparr>) rm) k = Some it"
      and "k \<notin> job_key ` set_mset (add_mset j R)" for k it
    using that ok unfolding map_ok_def by auto
  ultimately show ?thesis using Some k unfolding map_ok_def by simp
qed

lemma try_run_exit:
  "try_run proc redirect j = (ms, Inl e) \<Longrightarrow> exit_of proc redirect j = None"
  "try_run proc redirect j = (ms, Inr rc) \<Longrightarrow> exit_of proc redirect j = Some rc"
  by (simp_all add: exit_of_def)

lemma account_cong:
  assumes "account proc redirect excl J s0 fin s W"
    and "queue_of excl s' = queue_of excl s" "ts_num_run s' = ts_num_run s"
    and "ts_failed s' = ts_failed s" "ts_run_map s' = ts_run_map s"
    and "sum_mset (image_mset held W') = sum_mset (image_mset held W)"
    and "sum_mset (image_mset noted W') = sum_mset (image_mset noted W)"
    and "sum_mset (image_mset recorded W') = sum_mset (image_mset recorded W)"
  shows "account proc redirect excl J s0 fin s' W'"
  using assms by (simp add: account_def)

text \<open>The accounts after each action, one lemma for each point that changes them\<close>

lemma account_fetch:
  assumes "account proc redirect excl J s0 fin s (add_mset Fetching W)" and "queue_of excl s = j # q"
  shows "account proc redirect excl J s0 fin (set_queue excl q s) (add_mset (Running j) W)"
  using assms by (simp add: account_def)

lemma account_return:
  assumes "account proc redirect excl J s0 fin s (add_mset (Returned j rc) W)"
    and rc: "exit_of proc redirect j = Some rc"
  shows "account proc redirect excl J s0 fin
    (if rc \<noteq> 0 then s\<lparr>ts_failed := ts_failed s @ [(jb_target j)\<lparr>t_data :=
                (t_data (jb_target j))\<lparr>d_test_exit_code := Some rc\<rparr>\<rparr>]\<rparr> else s)
    (add_mset (Recording j rc) W)"
  using assms by (simp add: account_def failing_def failed_target_def)

lemma account_record:
  assumes "account proc redirect excl J s0 fin s (add_mset (Recording j rc) W)"
    and rc: "exit_of proc redirect j = Some rc"
  shows "account proc redirect excl J s0 fin
    (case map_of (ts_run_map s) (job_key j) of None \<Rightarrow> s
     | Some item \<Rightarrow> s\<lparr>ts_run_map := dict_set (job_key j)
             (item\<lparr>ri_result := get_result rc, ri_costtime := c\<rparr>) (ts_run_map s)\<rparr>)
    (add_mset (Counting j) W)"
proof -
  have "map_ok proc redirect (ts_run_map s0) (fin + sum_mset (image_mset recorded W)) (ts_run_map s)"
    using assms(1) by (simp add: account_def)
  from map_ok_record [OF this rc, of c] assms(1) show ?thesis
    by (cases "map_of (ts_run_map s) (job_key j)") (simp_all add: account_def)
qed

lemma account_count:
  assumes "account proc redirect excl J s0 fin s (add_mset (Counting j) W)"
    and "exit_of proc redirect j \<noteq> None"
  shows "account proc redirect excl J s0 (add_mset j fin) (s\<lparr>ts_num_run := ts_num_run s + 1\<rparr>) (add_mset AtTest W)"
  using assms by (simp add: account_def)

lemma queue_of_other [simp]:
  "queue_of e (case m of None \<Rightarrow> s | Some item \<Rightarrow> s\<lparr>ts_run_map := f item\<rparr>) = queue_of e s"
  "queue_of e (if b then s\<lparr>ts_failed := x\<rparr> else s) = queue_of e s"
  by (simp_all split: option.split)

lemma step_queue:
  "worker_step proc redirect excl c w s = Some (w', s') \<Longrightarrow> queue_of excl s = [] \<Longrightarrow>
     queue_of excl s' = []"
  "worker_step proc redirect excl c w s = Some (Finished, s') \<Longrightarrow> queue_of excl s' = []"
  by (cases w; auto split: list.splits if_splits prod.splits sum.splits)+

lemma sched_inv_step:
  assumes inv: "sched_inv proc redirect excl J s0 s (add_mset w W)"
    and step: "worker_step proc redirect excl c w s = Some (w', s')"
  shows "sched_inv proc redirect excl J s0 s' (add_mset w' W)"
proof -
  obtain fin where acc: "account proc redirect excl J s0 fin s (add_mset w W)"
    and w: "worker_ok proc redirect w" and W: "\<forall>w \<in># W. worker_ok proc redirect w"
    and other: "queue_of (\<not> excl) s = queue_of (\<not> excl) s0"
    and fin: "Finished \<in># W \<Longrightarrow> queue_of excl s = []"
    using inv by (auto simp: sched_inv_def)
  have "Finished \<in># add_mset w' W \<Longrightarrow> queue_of excl s' = []"
    using fin step_queue [of proc redirect excl c w s] step by auto
  moreover
  have "(\<exists>fin'. account proc redirect excl J s0 fin' s' (add_mset w' W)) \<and>
      worker_ok proc redirect w' \<and> queue_of (\<not> excl) s' = queue_of (\<not> excl) s"
  proof (cases w)
    case (Starting i)
    then show ?thesis using step account_cong [OF acc, of s' "add_mset w' W"] by auto
  next
    case AtTest
    then show ?thesis using step account_cong [OF acc, of s' "add_mset w' W"] by (auto split: if_splits)
  next
    case Fetching
    then show ?thesis using step acc account_fetch [of proc redirect excl J s0 fin s W]
      by (auto split: list.splits)
  next
    case (Running j)
    obtain ms r where r: "try_run proc redirect j = (ms, r)" by fastforce
    show ?thesis
    proof (cases r)
      case (Inl e)
      then show ?thesis
        using step Running r try_run_exit(1) [of proc redirect j ms e]
          account_cong [OF acc, of s' "add_mset w' W"] by auto
    next
      case (Inr rc)
      then show ?thesis
        using step Running r try_run_exit(2) [of proc redirect j ms rc]
          account_cong [OF acc, of s' "add_mset w' W"] by auto
    qed
  next
    case (Returned j rc)
    then show ?thesis using step w account_return [OF acc [unfolded Returned]] by auto
  next
    case (Recording j rc)
    then show ?thesis using step w account_record [OF acc [unfolded Recording], of c] by auto
  next
    case (Counting j)
    then show ?thesis using step w account_count [OF acc [unfolded Counting]] by auto
  qed (use step in simp_all)
  ultimately show ?thesis using W other unfolding sched_inv_def by auto
qed

fun worker_rank :: "worker \<Rightarrow> nat" where
  "worker_rank (Running _) = 6"
| "worker_rank (Returned _ _) = 5"
| "worker_rank (Recording _ _) = 4"
| "worker_rank (Counting _) = 3"
| "worker_rank (Starting _) = 3"
| "worker_rank AtTest = 2"
| "worker_rank Fetching = 1"
| "worker_rank _ = 0"

definition queue_rank :: "bool \<Rightarrow> sched \<Rightarrow> nat" where
  "queue_rank excl s = 6 * length (queue_of excl s)"

lemma worker_step_rank:
  assumes "worker_step proc redirect excl c w s = Some (w', s')"
  shows "queue_rank excl s' + worker_rank w' < queue_rank excl s + worker_rank w"
proof (cases w)
  case (Running j)
  obtain ms r where "try_run proc redirect j = (ms, r)" by fastforce
  then show ?thesis using assms Running by (cases r) (auto simp: queue_rank_def)
qed (use assms in \<open>auto simp: queue_rank_def split: list.splits if_splits\<close>)

interpretation tests: worker_pool "worker_step proc redirect excl" "sched_inv proc redirect excl J s0"
    "queue_rank excl" worker_rank for proc redirect excl J s0
  by unfold_locales (rule sched_inv_step worker_step_rank, assumption+)+

section \<open>One queue emptied\<close>

lemma held_start: "sum_mset (image_mset held (mset (map Starting l))) = {#}"
  "sum_mset (image_mset noted (mset (map Starting l))) = {#}"
  "sum_mset (image_mset recorded (mset (map Starting l))) = {#}"
  by (induction l) simp_all

lemma sched_inv_start:
  "sched_inv proc redirect excl (mset (queue_of excl s)) s s (mset (map Starting l))"
  unfolding sched_inv_def account_def map_ok_def using held_start [of l]
  by (intro conjI exI [of _ "{#}"]) auto

lemma pool_inv:
  assumes "pool_run (worker_step proc redirect excl) k (s0, map Starting l) (s, ws)"
  shows "sched_inv proc redirect excl (mset (queue_of excl s0)) s0 s (mset ws)"
  using tests.run_inv [OF assms] sched_inv_start by simp

lemma member_held: "w \<in># W \<Longrightarrow> held w \<subseteq># sum_mset (image_mset held W)"
  by (auto dest!: multi_member_split)

lemma all_finished: "\<forall>w \<in># W. w = Finished \<Longrightarrow>
    sum_mset (image_mset held W) = {#} \<and> sum_mset (image_mset noted W) = {#} \<and>
    sum_mset (image_mset recorded W) = {#}"
  by (induction W) auto

lemma pool_result:
  assumes run: "pool_run (worker_step proc redirect excl) k (s0, map Starting l) (s, ws)"
    and fin: "list_all ended ws" and l: "l \<noteq> []"
    and ok: "\<forall>j \<in> set (queue_of excl s0). exit_of proc redirect j \<noteq> None"
  shows "account proc redirect excl (mset (queue_of excl s0)) s0 (mset (queue_of excl s0)) s {#}"
    and "queue_of excl s = []" and "queue_of (\<not> excl) s = queue_of (\<not> excl) s0"
proof -
  let ?J = "mset (queue_of excl s0)"
  have inv: "sched_inv proc redirect excl ?J s0 s (mset ws)" by (rule pool_inv [OF run])
  then obtain fi where acc: "account proc redirect excl ?J s0 fi s (mset ws)"
    and w: "\<forall>w \<in># mset ws. worker_ok proc redirect w" by (auto simp: sched_inv_def)
  have "w = Finished" if "w \<in># mset ws" for w
  proof (cases w)
    case (Died j)
    then have "{#j#} \<subseteq># sum_mset (image_mset held (mset ws))" using member_held [OF that] by simp
    then have "j \<in># sum_mset (image_mset held (mset ws))" by (simp add: single_subset_iff)
    then have "j \<in># ?J" using acc by (auto simp: account_def)
    then have "exit_of proc redirect j \<noteq> None" using ok by simp
    moreover have "exit_of proc redirect j = None" using w that Died by auto
    ultimately show ?thesis by simp
  qed (use fin that in \<open>auto simp: list_all_iff\<close>)
  then have all: "\<forall>w \<in># mset ws. w = Finished" by blast
  have "ws \<noteq> []" using pool_run_length [OF run] l by auto
  then have "Finished \<in># mset ws" using all by (cases ws) auto
  then show q: "queue_of excl s = []" using inv by (simp add: sched_inv_def)
  show "queue_of (\<not> excl) s = queue_of (\<not> excl) s0" using inv by (simp add: sched_inv_def)
  show "account proc redirect excl ?J s0 ?J s {#}"
    using acc q all_finished [OF all] by (simp add: account_def)
qed

lemma exit_of_redirect: "exit_of proc True j \<noteq> None"
  by (auto simp: exit_of_def try_run_def run_job_redirect_def Let_def split: process.splits)

lemma exit_of_direct: "''PWD'' \<in> set (keys (jb_env j)) \<Longrightarrow> exit_of proc False j \<noteq> None"
  using map_of_in_keys [of "''PWD''" "jb_env j"]
  by (auto simp: exit_of_def try_run_def run_job_def Let_def dict_index_def split: process.splits)

section \<open>When a pool stops\<close>

lemma worker_step_None:
  "worker_step proc redirect excl c w s = None \<longleftrightarrow> ended w \<or> w = Fetching \<and> queue_of excl s = []"
  by (cases w) (auto split: list.splits prod.splits sum.splits)

lemma pool_stuck_workers:
  "pool_stuck (worker_step proc redirect excl) (s, ws) \<longleftrightarrow>
     (\<forall>w \<in> set ws. ended w \<or> w = Fetching \<and> queue_of excl s = [])"
  by (simp add: pool_stuck_iff worker_step_None)

lemma single_fetching:
  assumes "pool_run (worker_step proc redirect excl) k (s0, [Starting i]) p"
  shows "\<exists>w. snd p = [w] \<and> (w = Fetching \<longrightarrow> queue_of excl (fst p) \<noteq> [])"
  using assms
proof (induction k "(s0, [Starting i])" p rule: pool_run.induct)
  case (pool_more n q r)
  then obtain w where q: "snd q = [w]" and f: "w = Fetching \<longrightarrow> queue_of excl (fst q) \<noteq> []" by blast
  then have "pool_step (worker_step proc redirect excl) (fst q, [w]) r" using pool_more by (metis prod.collapse)
  then obtain c w' s' where r: "r = (s', [w'])" "worker_step proc redirect excl c w (fst q) = Some (w', s')"
    by (auto elim: pool_stepE)
  have "w' = Fetching \<Longrightarrow> queue_of excl s' \<noteq> []"
    using r(2) by (cases w) (auto split: list.splits prod.splits sum.splits if_splits)
  then show ?case using r(1) by simp
qed simp

end
