(* ===== verification/SchedulerProperties.thy ===== *)
theory SchedulerProperties
  imports SchedulerCorrect
begin

text \<open>The properties of the scheduler as a whole, with their witnesses.\<close>

declare split_paired_All [simp del] split_paired_Ex [simp del]

section \<open>Combining the two queues\<close>

definition results_ok ::
  "(job \<Rightarrow> int option) \<Rightarrow> job set \<Rightarrow> (tkey, run_item) dict \<Rightarrow> (tkey, run_item) dict \<Rightarrow> bool" where
  "results_ok exit A rm0 rm \<longleftrightarrow> keys rm = keys rm0 \<and>
     (\<forall>k item. map_of rm k = Some item \<longrightarrow>
        (if k \<in> job_key ` A
         then \<exists>j \<in> A. \<exists>rc. job_key j = k \<and> exit j = Some rc \<and> ri_result item = get_result rc
         else map_of rm0 k = Some item))"

lemma map_ok_results:
  assumes "map_ok proc r rm0 R rm" and "\<forall>j \<in># R. exit j = exit_of proc r j"
  shows "results_ok exit (set_mset R) rm0 rm"
proof -
  have eq: "(\<exists>j rc. j \<in># R \<and> job_key j = k \<and> exit_of proc r j = Some rc \<and> P rc) =
      (\<exists>j \<in> set_mset R. \<exists>rc. job_key j = k \<and> exit j = Some rc \<and> P rc)" for k P
    using assms(2) by (intro iffI) fastforce+
  show ?thesis using assms(1) unfolding map_ok_def results_ok_def eq .
qed

lemma results_ok_trans:
  assumes a: "results_ok exit A rm0 rm1" and b: "results_ok exit B rm1 rm2"
  shows "results_ok exit (A \<union> B) rm0 rm2"
  unfolding results_ok_def
proof (intro conjI allI impI)
  show "keys rm2 = keys rm0" using a b by (simp add: results_ok_def)
  fix k item assume look: "map_of rm2 k = Some item"
  show "if k \<in> job_key ` (A \<union> B)
        then \<exists>j \<in> A \<union> B. \<exists>rc. job_key j = k \<and> exit j = Some rc \<and> ri_result item = get_result rc
        else map_of rm0 k = Some item"
  proof (cases "k \<in> job_key ` B")
    case True
    then have "\<exists>j \<in> B. \<exists>rc. job_key j = k \<and> exit j = Some rc \<and> ri_result item = get_result rc"
      using b look unfolding results_ok_def by metis
    then show ?thesis using True by auto
  next
    case False
    then have "map_of rm1 k = Some item" using b look unfolding results_ok_def by metis
    then show ?thesis using a False unfolding results_ok_def image_Un Un_iff by (metis UnI1)
  qed
qed

definition is_exclusive :: "job \<Rightarrow> bool" where
  "is_exclusive j = d_exclusive (t_data (jb_target j))"

lemma start_jobs_fields:
  "ts_job_queue (fold enqueue tests s) = ts_job_queue s @ filter (\<lambda>j. \<not> is_exclusive j) tests"
  "ts_exclusive_queue (fold enqueue tests s) = ts_exclusive_queue s @ filter is_exclusive tests"
  "ts_failed (fold enqueue tests s) = ts_failed s" "ts_run_map (fold enqueue tests s) = ts_run_map s"
  "ts_num_run (fold enqueue tests s) = ts_num_run s"
  by (induction tests arbitrary: s) (simp_all add: enqueue_def is_exclusive_def)

lemma workers_num_bounds:
  "tests \<noteq> [] \<Longrightarrow> 1 \<le> get_workers_num cpus jobs (length tests)"
  by (cases tests) (auto simp: get_workers_num_def Let_def)

text \<open>What a list of jobs run with \<open>exit\<close> adds to a state\<close>

definition jobs_done :: "(job \<Rightarrow> int option) \<Rightarrow> job multiset \<Rightarrow> sched \<Rightarrow> sched \<Rightarrow> bool" where
  "jobs_done exit J s s' \<longleftrightarrow> ts_num_run s' = ts_num_run s + size J \<and>
     mset (ts_failed s') = mset (ts_failed s) + image_mset
       (\<lambda>j. (jb_target j)\<lparr>t_data := (t_data (jb_target j))\<lparr>d_test_exit_code := exit j\<rparr>\<rparr>)
       (filter_mset (\<lambda>j. exit j \<noteq> Some 0) J) \<and>
     results_ok exit (set_mset J) (ts_run_map s) (ts_run_map s')"

lemma account_done:
  assumes "account proc r e J s0 J s {#}" and "\<forall>j \<in># J. exit j = exit_of proc r j"
  shows "jobs_done exit J s0 s"
proof -
  have "filter_mset (\<lambda>j. exit j \<noteq> Some 0) J = filter_mset (failing proc r) J"
    using assms(2) by (intro filter_mset_cong refl) (auto simp: failing_def)
  moreover have "image_mset (failed_target proc r) (filter_mset (failing proc r) J) =
      image_mset (\<lambda>j. (jb_target j)\<lparr>t_data := (t_data (jb_target j))\<lparr>d_test_exit_code := exit j\<rparr>\<rparr>)
        (filter_mset (failing proc r) J)"
    using assms(2) by (intro image_mset_cong) (auto simp: failed_target_def)
  moreover have "results_ok exit (set_mset J) (ts_run_map s0) (ts_run_map s)"
    using map_ok_results [OF _ assms(2), of "ts_run_map s0" "ts_run_map s"] assms(1)
    by (simp add: account_def)
  ultimately show ?thesis using assms(1) by (simp add: account_def jobs_done_def)
qed

lemma jobs_done_trans: "jobs_done exit A s0 s1 \<Longrightarrow> jobs_done exit B s1 s2 \<Longrightarrow> jobs_done exit (A + B) s0 s2"
  unfolding jobs_done_def using results_ok_trans by (fastforce simp: set_mset_union)

lemma jobs_done_say [simp]:
  "jobs_done exit J (say ms s) s' = jobs_done exit J s s'"
  "jobs_done exit J s (say ms s') = jobs_done exit J s s'"
  by (simp_all add: jobs_done_def)

definition run_redirected :: "nat \<Rightarrow> int \<Rightarrow> job list \<Rightarrow> job \<Rightarrow> bool" where
  "run_redirected cpus jobs tests j \<longleftrightarrow>
     1 < get_workers_num cpus jobs (length tests) \<and> \<not> is_exclusive j"

lemma schedule_result:
  assumes run: "schedule_jobs proc cpus jobs tests s s'"
    and q: "ts_job_queue s = []" "ts_exclusive_queue s = []"
    and ok: "\<forall>j \<in> set tests. ''PWD'' \<in> set (keys (jb_env j))"
  shows "jobs_done (\<lambda>j. exit_of proc (run_redirected cpus jobs tests j) j) (mset tests) s s'"
proof -
  let ?n = "get_workers_num cpus jobs (length tests)"
  let ?exit = "\<lambda>j. exit_of proc (run_redirected cpus jobs tests j) j"
  let ?A = "mset (filter (\<lambda>j. \<not> is_exclusive j) tests)"
  let ?B = "mset (filter is_exclusive tests)"
  let ?s0 = "start_jobs tests ?n s"
  have AB: "?A + ?B = mset tests" by (induction tests) auto
  have ex: "exit_of proc r j \<noteq> None" if "j \<in> set tests" for r j
  proof (cases r)
    case False
    then show ?thesis using exit_of_direct [of j proc] ok that by simp
  qed (simp add: exit_of_redirect)
  have q0: "queue_of False ?s0 = filter (\<lambda>j. \<not> is_exclusive j) tests"
      "queue_of True ?s0 = filter is_exclusive tests"
    using q by (simp_all add: queue_of_def start_jobs_def start_jobs_fields)
  have shared: "jobs_done ?exit ?A s s1 \<and> ts_exclusive_queue s1 = filter is_exclusive tests"
    if "tests \<noteq> []" and p: "pool_run (worker_step proc (?n > 1) False) k
        (?s0, map Starting [0..<nat ?n]) (s1, ws)" and e: "list_all ended ws" for k s1 ws
  proof -
    have l: "[0..<nat ?n] \<noteq> []" using workers_num_bounds [OF that(1), of cpus jobs] by simp
    have "\<forall>j \<in> set (queue_of False ?s0). exit_of proc (?n > 1) j \<noteq> None" using q0 ex by simp
    note R = pool_result [OF p e l this]
    have "jobs_done ?exit ?A ?s0 s1"
      by (rule account_done [OF R(1) [unfolded q0]]) (auto simp: run_redirected_def)
    then show ?thesis
      using R(3) q0(2) by (simp add: jobs_done_def start_jobs_def start_jobs_fields queue_of_def)
  qed
  from run show ?thesis
  proof cases
    case no_tests
    then show ?thesis by (simp add: jobs_done_def results_ok_def)
  next
    case (only_shared n k s1 ws)
    then have "jobs_done ?exit ?A s s1" "?B = {#}" using shared [of k s1 ws] by auto
    moreover from this(2) have "?A = mset tests" using AB by (simp only: add_0_right)
    ultimately show ?thesis using only_shared(1) by (simp only: print_summary_def jobs_done_say)
  next
    case (then_exclusive n k s1 ws k' s2 w)
    then have S: "jobs_done ?exit ?A s s1" "ts_exclusive_queue s1 = filter is_exclusive tests"
      using shared [of k s1 ws] by auto
    let ?t0 = "say [Info ''spawn 1 worker to run exclusive tests''] s1"
    have t0: "queue_of True ?t0 = filter is_exclusive tests" using S(2) by (simp add: queue_of_def)
    have p: "pool_run (worker_step proc False True) k' (?t0, map Starting [nat n]) (s2, [w])"
      and e: "list_all ended [w]" using then_exclusive by simp_all
    have "\<forall>j \<in> set (queue_of True ?t0). exit_of proc False j \<noteq> None" using t0 ex by simp
    note R = pool_result [OF p e _ this]
    have "jobs_done ?exit ?B ?t0 s2"
      by (rule account_done [OF R(1) [unfolded t0]]) (auto simp: run_redirected_def)
    then have "jobs_done ?exit ?B s1 s2" by (simp only: jobs_done_say)
    from jobs_done_trans [OF S(1) this] show ?thesis
      unfolding AB then_exclusive(1) by (simp only: print_summary_def jobs_done_say)
  qed
qed

section \<open>Two tests\<close>

definition demo_job :: "string \<Rightarrow> job" where
  "demo_job n = \<lparr>jb_target = \<lparr>t_class = CcTest, t_key = (''t'', n), t_fullname = ''t:'' @ n, t_name = n,
     t_path = ''t'', t_type = ''cc_test'', t_srcs = [], t_deps = [], t_expanded_deps = [],
     t_data = empty_data, t_rules = [], t_var_name = None, t_file_and_link = None\<rparr>,
     jb_run_dir = ''r'', jb_env = [(''PWD'', ''/'')], jb_cmd = [''x'']\<rparr>"

definition demo_proc :: "job \<Rightarrow> process" where
  "demo_proc j = (if t_name (jb_target j) = ''bad'' then Exited 1 [] else Exited 0 [])"

section \<open>The properties\<close>

text \<open>C23: When \<open>schedule_jobs\<close> returns, the queues were empty before, and every test
  has its working directory, \<open>PWD\<close>, in its environment, every test has been run exactly once: the counter has grown by their number,
  the failed targets are exactly those of the tests that ended with another code than 0 (255
  when no process could be started), each with its code, and the entry of a test in the map of
  runs says how it ended. The exclusive tests, and all tests when there is one worker, run
  without redirection.\<close>

theorem schedule_jobs_result:
  assumes "schedule_jobs proc cpus jobs tests s s'"
    and "ts_job_queue s = []" and "ts_exclusive_queue s = []"
    and "\<forall>j \<in> set tests. ''PWD'' \<in> set (keys (jb_env j))"
  shows "jobs_done (\<lambda>j. exit_of proc (run_redirected cpus jobs tests j) j) (mset tests) s s'"
  by (rule schedule_result [OF assms])

lemma demo_run:
  assumes "case pool_exec (worker_step demo_proc False False) ms
      (start_jobs [demo_job ''bad''] 1 (new_sched []), [Starting 0]) of
        None \<Rightarrow> False
      | Some (s, ws) \<Rightarrow> ws = [Finished] \<and> ts_exclusive_queue s = []"
  shows "\<exists>s. schedule_jobs demo_proc 4 1 [demo_job ''bad''] (new_sched []) s"
proof -
  obtain s where run: "pool_exec (worker_step demo_proc False False) ms
      (start_jobs [demo_job ''bad''] 1 (new_sched []), [Starting 0]) = Some (s, [Finished])"
    and q: "ts_exclusive_queue s = []" using assms by (auto split: option.splits)
  have n: "get_workers_num 4 1 (length [demo_job ''bad'']) = 1" by code_simp
  have "pool_run (worker_step demo_proc ((1 :: int) < 1) False) (length ms)
      (start_jobs [demo_job ''bad''] 1 (new_sched []), map Starting [0..<nat 1]) (s, [Finished])"
    using pool_exec_run [OF run] by simp
  from only_shared [OF _ n [symmetric] this _ q] show ?thesis by auto
qed

theorem schedule_jobs_result_witness:
  "\<exists>s. schedule_jobs demo_proc 4 1 [demo_job ''bad''] (new_sched []) s \<and> ts_num_run s = 1 \<and>
     map t_name (ts_failed s) = [''bad'']"
proof -
  have "case pool_exec (worker_step demo_proc False False) (replicate 8 (0, 3))
      (start_jobs [demo_job ''bad''] 1 (new_sched []), [Starting 0]) of
        None \<Rightarrow> False
      | Some (s, ws) \<Rightarrow> ws = [Finished] \<and> ts_exclusive_queue s = []" by code_simp
  from demo_run [OF this] obtain s
    where s: "schedule_jobs demo_proc 4 1 [demo_job ''bad''] (new_sched []) s" ..
  have pwd: "\<forall>j \<in> set [demo_job ''bad'']. ''PWD'' \<in> set (keys (jb_env j))" by code_simp
  have e: "exit_of demo_proc False (demo_job ''bad'') = Some 1" by code_simp
  have r: "run_redirected 4 1 [demo_job ''bad''] (demo_job ''bad'') = False" by code_simp
  have "jobs_done (\<lambda>j. exit_of demo_proc (run_redirected 4 1 [demo_job ''bad''] j) j)
      (mset [demo_job ''bad'']) (new_sched []) s"
    by (rule schedule_jobs_result [OF s _ _ pwd]) (simp_all add: new_sched_def)
  then have "ts_num_run s = 1 \<and> mset (ts_failed s) = {# (jb_target (demo_job ''bad''))\<lparr>t_data :=
      (t_data (jb_target (demo_job ''bad'')))\<lparr>d_test_exit_code := Some 1\<rparr>\<rparr> #}"
    by (simp add: jobs_done_def r e new_sched_def)
  then show ?thesis using s by (auto simp: demo_job_def)
qed

lemma scheduler_other_queue:
  assumes "pool_run (worker_step proc redirect excl) k (s0, map Starting l) (s, ws)"
  shows "queue_of (\<not> excl) s = queue_of (\<not> excl) s0"
  using pool_inv [OF assms] by (auto simp: sched_inv_def account_def)

text \<open>C25: In every state a pool of workers can reach, nothing is lost and nothing is run twice:
  the tests that were queued are those still queued, those a worker has in hand (or died on)
  and those counted as run.\<close>

theorem scheduler_conserves_tests:
  assumes "pool_run (worker_step proc redirect excl) k (s0, map Starting l) (s, ws)"
  shows "\<exists>fin. mset (queue_of excl s0) =
      mset (queue_of excl s) + sum_mset (image_mset held (mset ws)) + fin \<and>
    ts_num_run s = ts_num_run s0 + size fin \<and>
    queue_of (\<not> excl) s = queue_of (\<not> excl) s0"
  using pool_inv [OF assms] by (auto simp: sched_inv_def account_def)

theorem scheduler_conserves_tests_witness:
  "\<exists>k s ws (fin :: job multiset). pool_run (worker_step demo_proc True False) k
      (start_jobs [demo_job ''a'', demo_job ''bad''] 2 (new_sched []), map Starting [0, 1]) (s, ws) \<and>
     ts_num_run s = ts_num_run (start_jobs [demo_job ''a'', demo_job ''bad''] 2 (new_sched [])) + size fin"
proof -
  have "pool_exec (worker_step demo_proc True False) [(0,0),(1,0),(0,0),(1,0),(0,0),(1,0),(1,0),(0,0)]
      (start_jobs [demo_job ''a'', demo_job ''bad''] 2 (new_sched []), map Starting [0, 1]) \<noteq> None"
    by code_simp
  then obtain s ws where "pool_exec (worker_step demo_proc True False) [(0,0),(1,0),(0,0),(1,0),(0,0),(1,0),(1,0),(0,0)]
      (start_jobs [demo_job ''a'', demo_job ''bad''] 2 (new_sched []), map Starting [0, 1]) = Some (s, ws)"
    by auto
  note run = pool_exec_run [OF this]
  from scheduler_conserves_tests [OF run] run show ?thesis by blast
qed

text \<open>C29: Every run of a pool ends: it has at most six steps for each queued test and three for
  each worker.\<close>

theorem scheduler_run_bounded:
  assumes "pool_run (worker_step proc redirect excl) k (s0, map Starting l) p"
  shows "k \<le> 6 * length (queue_of excl s0) + 3 * length l"
  using tests.run_bounded [OF assms]
  by (simp add: pool_rank_def queue_rank_def comp_def sum_list_triv)

theorem scheduler_run_bounded_witness:
  "8 \<le> 6 * length (queue_of False (start_jobs [demo_job ''bad''] 1 (new_sched []))) + 3 * length [0 :: nat]"
proof -
  have "pool_exec (worker_step demo_proc False False) (replicate 8 (0, 3))
      (start_jobs [demo_job ''bad''] 1 (new_sched []), map Starting [0]) \<noteq> None" by code_simp
  then obtain p where "pool_exec (worker_step demo_proc False False) (replicate 8 (0, 3))
      (start_jobs [demo_job ''bad''] 1 (new_sched []), map Starting [0]) = Some p" by auto
  from scheduler_run_bounded [OF pool_exec_run [OF this]] show ?thesis by simp
qed

text \<open>C28: A single worker always gets to its end: every run of it can be continued to one that
  cannot be continued, and there the worker has ended, never waiting for a test.\<close>

theorem single_worker_ends:
  assumes "pool_run (worker_step proc redirect excl) k (s0, [Starting i]) p"
  shows "(\<exists>n q. pool_run (worker_step proc redirect excl) n p q \<and>
      pool_stuck (worker_step proc redirect excl) q) \<and>
    (pool_stuck (worker_step proc redirect excl) p \<longrightarrow> list_all ended (snd p))"
proof (intro conjI impI)
  show "\<exists>n q. pool_run (worker_step proc redirect excl) n p q \<and> pool_stuck (worker_step proc redirect excl) q"
    by (rule tests.run_to_stuck)
  assume "pool_stuck (worker_step proc redirect excl) p"
  with single_fetching [OF assms] pool_stuck_workers [of proc redirect excl "fst p" "snd p"]
  show "list_all ended (snd p)" by auto
qed

theorem single_worker_ends_witness:
  "\<exists>n q. pool_run (worker_step demo_proc False False) n
       (start_jobs [demo_job ''bad''] 1 (new_sched []), [Starting 0]) q \<and>
     pool_stuck (worker_step demo_proc False False) q"
  using single_worker_ends [OF pool_stop] by blast

text \<open>C38: Two workers can block for ever: each sees the queue non-empty, the first takes the
  last test, and the second waits in \<open>get\<close>, which nobody will ever serve; \<open>schedule_jobs\<close>
  then waits for it for ever.\<close>

theorem two_workers_can_block:
  "\<exists>k s. pool_run (worker_step demo_proc True False) k
      (start_jobs [demo_job ''a'', demo_job ''b''] 2 (new_sched []), map Starting [0, 1])
      (s, [Finished, Fetching]) \<and>
    pool_stuck (worker_step demo_proc True False) (s, [Finished, Fetching]) \<and> ts_num_run s = 2"
proof -
  let ?ms = "map (\<lambda>i. (i, 0)) ([0, 1] @ replicate 7 0 @ [1] @ replicate 6 0)"
  have "case pool_exec (worker_step demo_proc True False) ?ms
      (start_jobs [demo_job ''a'', demo_job ''b''] 2 (new_sched []), map Starting [0, 1]) of
        None \<Rightarrow> False
      | Some (s, ws) \<Rightarrow> ws = [Finished, Fetching] \<and> ts_job_queue s = [] \<and> ts_num_run s = 2"
    by code_simp
  then obtain s where run: "pool_exec (worker_step demo_proc True False) ?ms
      (start_jobs [demo_job ''a'', demo_job ''b''] 2 (new_sched []), map Starting [0, 1]) =
        Some (s, [Finished, Fetching])" and s: "ts_job_queue s = []" "ts_num_run s = 2"
    unfolding option.case_eq_if case_prod_beta by (metis option.collapse prod.collapse)
  have "pool_stuck (worker_step demo_proc True False) (s, [Finished, Fetching])"
    using s(1) by (simp add: pool_stuck_workers queue_of_def)
  with pool_exec_run [OF run] s(2) show ?thesis by blast
qed

text \<open>C40: With at least one test there is at least one worker, and never more workers than
  tests, than jobs asked for (when two or more are asked for) or than the larger of 16 and the
  number of processors.\<close>

theorem get_workers_num_bounds:
  assumes "0 < num_of_tests"
  shows "1 \<le> get_workers_num cpus jobs num_of_tests \<and>
    get_workers_num cpus jobs num_of_tests \<le> int num_of_tests \<and>
    get_workers_num cpus jobs num_of_tests \<le> max 1 jobs \<and>
    get_workers_num cpus jobs num_of_tests \<le> max (int cpus) 16"
  using assms by (auto simp: get_workers_num_def Let_def)

theorem get_workers_num_bounds_witness: "get_workers_num 4 100 40 \<le> 16 \<and> 1 \<le> get_workers_num 4 100 40"
  using get_workers_num_bounds [of 40 4 100] by simp

end
