(* ===== verification/SchedulerRefinement.thy ===== *)
theory SchedulerRefinement
  imports SchedulerProperties
begin

text \<open>
  What the scheduler promises, without threads: a bag of tests that wait, a bag of tests that
  are being run, and the number of those that are done; a test is taken, or one that is being
  run is done. Every step of the pool is such a step or changes none of the three.
\<close>

declare split_paired_All [simp del] split_paired_Ex [simp del]

section \<open>The abstract scheduler\<close>

record board =
  waiting :: "job multiset"
  in_hand :: "job multiset"
  done_count :: nat

inductive board_step :: "board \<Rightarrow> board \<Rightarrow> bool" where
  take: "j \<in># waiting b \<Longrightarrow>
    board_step b (b\<lparr>waiting := waiting b - {#j#}, in_hand := add_mset j (in_hand b)\<rparr>)"
| finish: "j \<in># in_hand b \<Longrightarrow>
    board_step b (b\<lparr>in_hand := in_hand b - {#j#}, done_count := done_count b + 1\<rparr>)"

inductive_cases board_stepE: "board_step b b'"

definition board_of :: "bool \<Rightarrow> sched \<times> worker list \<Rightarrow> board" where
  "board_of excl p = \<lparr>waiting = mset (queue_of excl (fst p)),
     in_hand = sum_mset (image_mset held (mset (snd p))), done_count = ts_num_run (fst p)\<rparr>"

lemma held_update:
  assumes "i < length ws"
  shows "\<exists>R. sum_mset (image_mset held (mset ws)) = held (ws ! i) + R \<and>
    sum_mset (image_mset held (mset (ws[i := w']))) = held w' + R"
proof -
  have "mset ws = add_mset (ws ! i) (mset ws - {#ws ! i#})" using assms by simp
  then have "sum_mset (image_mset held (mset ws)) =
      held (ws ! i) + sum_mset (image_mset held (mset ws - {#ws ! i#}))"
    by (metis image_mset_add_mset sum_mset.add_mset)
  moreover have "sum_mset (image_mset held (mset (ws[i := w']))) =
      held w' + sum_mset (image_mset held (mset ws - {#ws ! i#}))"
    using assms by (simp add: mset_update)
  ultimately show ?thesis by blast
qed

text \<open>One action of a worker: what it takes from the queue, holds and counts\<close>

lemma worker_step_board:
  assumes "worker_step proc redirect excl c w s = Some (w', s')"
  shows "(queue_of excl s' = queue_of excl s \<and> held w' = held w \<and> ts_num_run s' = ts_num_run s) \<or>
    (\<exists>j. queue_of excl s = j # queue_of excl s' \<and> held w = {#} \<and> held w' = {#j#} \<and>
       ts_num_run s' = ts_num_run s) \<or>
    (\<exists>j. queue_of excl s' = queue_of excl s \<and> held w = {#j#} \<and> held w' = {#} \<and>
       ts_num_run s' = ts_num_run s + 1)"
  using assms
  by (cases w) (auto split: if_splits list.splits prod.splits sum.splits option.splits)

lemma pool_step_board:
  assumes "pool_step (worker_step proc redirect excl) p q"
  shows "board_of excl p = board_of excl q \<or> board_step (board_of excl p) (board_of excl q)"
  using assms
proof cases
  case (worker_moves i ws c s w' s')
  obtain R where R: "sum_mset (image_mset held (mset ws)) = held (ws ! i) + R"
    "sum_mset (image_mset held (mset (ws[i := w']))) = held w' + R"
    using held_update [OF worker_moves(3), of w'] by blast
  have p: "board_of excl p = \<lparr>waiting = mset (queue_of excl s), in_hand = held (ws ! i) + R,
      done_count = ts_num_run s\<rparr>"
    and q: "board_of excl q = \<lparr>waiting = mset (queue_of excl s'), in_hand = held w' + R,
      done_count = ts_num_run s'\<rparr>"
    using worker_moves(1,2) R by (simp_all add: board_of_def)
  from worker_step_board [OF worker_moves(4)] show ?thesis
  proof (elim disjE conjE exE)
    fix j assume "queue_of excl s = j # queue_of excl s'" "held (ws ! i) = {#}" "held w' = {#j#}"
      "ts_num_run s' = ts_num_run s"
    then show ?thesis using take [of j "board_of excl p"] by (simp add: p q)
  next
    fix j assume "queue_of excl s' = queue_of excl s" "held (ws ! i) = {#j#}" "held w' = {#}"
      "ts_num_run s' = ts_num_run s + 1"
    then show ?thesis using finish [of j "board_of excl p"] by (simp add: p q)
  qed (simp add: p q)
qed

text \<open>The recorded result of a test is determined by its key.\<close>

lemma results_lookup:
  assumes "results_ok exit A rm0 rm" and "inj_on job_key A"
  shows "map_option ri_result (map_of rm k) =
    (if k \<notin> set (keys rm0) then None
     else if k \<in> job_key ` A
     then Some (get_result (the (exit (the_inv_into A job_key k))))
     else map_option ri_result (map_of rm0 k))"
proof (cases "map_of rm k")
  case None
  have "keys rm = keys rm0" using assms(1) by (simp only: results_ok_def)
  moreover have "k \<notin> set (keys rm)" using None unfolding map_of_None_iff set_map .
  ultimately have "k \<notin> set (keys rm0)" by simp
  then show ?thesis using None by simp
next
  case (Some item)
  have "keys rm = keys rm0" using assms(1) by (simp only: results_ok_def)
  moreover have "k \<in> set (keys rm)" using map_of_key [OF Some] by (simp only: set_map)
  ultimately have k: "k \<in> set (keys rm0)" by simp
  show ?thesis
  proof (cases "k \<in> job_key ` A")
    case True
    then obtain j rc where j: "j \<in> A" "job_key j = k" "exit j = Some rc" "ri_result item = get_result rc"
      using assms(1) Some unfolding results_ok_def by metis
    have "the_inv_into A job_key k = j" using the_inv_into_f_f [OF assms(2) j(1)] j(2) by simp
    then show ?thesis using Some k True j by simp
  next
    case False
    then have "map_of rm0 k = Some item" using assms(1) Some unfolding results_ok_def by metis
    then show ?thesis using Some k False by simp
  qed
qed

lemma results_agree:
  assumes "results_ok exit A rm0 rm1" and "results_ok exit A rm0 rm2" and "inj_on job_key A"
  shows "map_option ri_result (map_of rm1 k) = map_option ri_result (map_of rm2 k)"
  unfolding results_lookup [OF assms(1,3)] results_lookup [OF assms(2,3)] ..

section \<open>The properties\<close>

text \<open>C24: The pool of worker threads refines the abstract scheduler: every run of the pool is,
  step by step, a run of the abstract one with the steps that show nothing left out.\<close>

theorem scheduler_refines_board:
  assumes "pool_run (worker_step proc redirect excl) k p q"
  shows "board_step\<^sup>*\<^sup>* (board_of excl p) (board_of excl q)"
  using assms
proof (induction rule: pool_run.induct)
  case (pool_more n p q r)
  from pool_step_board [OF pool_more(2)] show ?case
    using pool_more(3) by (metis rtranclp.rtrancl_into_rtrancl)
qed simp

theorem scheduler_refines_board_witness:
  "\<exists>q. board_step\<^sup>*\<^sup>* (board_of False (start_jobs [demo_job ''bad''] 1 (new_sched []), [Starting 0]))
     (board_of False q) \<and> ts_num_run (fst q) = 1"
proof -
  have "case pool_exec (worker_step demo_proc False False) (replicate 8 (0, 3))
      (start_jobs [demo_job ''bad''] 1 (new_sched []), [Starting 0]) of
        None \<Rightarrow> False | Some q \<Rightarrow> ts_num_run (fst q) = 1" by code_simp
  then obtain q where "pool_exec (worker_step demo_proc False False) (replicate 8 (0, 3))
      (start_jobs [demo_job ''bad''] 1 (new_sched []), [Starting 0]) = Some q" "ts_num_run (fst q) = 1"
    by (auto split: option.splits)
  with scheduler_refines_board [OF pool_exec_run [OF this(1)]] show ?thesis by blast
qed

text \<open>C22: The interleaving does not matter for the results: two complete runs of the same tests
  run the same number of tests, report the same failed targets with the same codes, and record
  the same result for every test. The tests have different keys and \<open>PWD\<close> in their environments.\<close>

theorem schedule_jobs_deterministic:
  assumes one: "schedule_jobs proc cpus jobs tests (new_sched rm) s1"
    and two: "schedule_jobs proc cpus jobs tests (new_sched rm) s2"
    and pwd: "\<forall>j \<in> set tests. ''PWD'' \<in> set (keys (jb_env j))" and keys: "inj_on job_key (set tests)"
  shows "ts_num_run s1 = ts_num_run s2 \<and> mset (ts_failed s1) = mset (ts_failed s2) \<and>
    (\<forall>k. map_option ri_result (map_of (ts_run_map s1) k) = map_option ri_result (map_of (ts_run_map s2) k))"
proof -
  let ?exit = "\<lambda>j. exit_of proc (run_redirected cpus jobs tests j) j"
  have d: "jobs_done ?exit (mset tests) (new_sched rm) s1" "jobs_done ?exit (mset tests) (new_sched rm) s2"
    using schedule_result [OF one _ _ pwd] schedule_result [OF two _ _ pwd] by (simp_all add: new_sched_def)
  then have r: "results_ok ?exit (set tests) rm (ts_run_map s1)" "results_ok ?exit (set tests) rm (ts_run_map s2)"
    by (simp_all add: jobs_done_def new_sched_def)
  have "map_option ri_result (map_of (ts_run_map s1) k) = map_option ri_result (map_of (ts_run_map s2) k)" for k
    by (rule results_agree [OF r keys])
  then show ?thesis using d by (simp add: jobs_done_def)
qed

theorem schedule_jobs_deterministic_witness:
  "\<exists>s1. schedule_jobs demo_proc 4 1 [demo_job ''bad''] (new_sched []) s1 \<and>
     (\<forall>s2. schedule_jobs demo_proc 4 1 [demo_job ''bad''] (new_sched []) s2 \<longrightarrow>
        mset (ts_failed s1) = mset (ts_failed s2))"
proof -
  have "case pool_exec (worker_step demo_proc False False) (replicate 8 (0, 3))
      (start_jobs [demo_job ''bad''] 1 (new_sched []), [Starting 0]) of
        None \<Rightarrow> False
      | Some (s, ws) \<Rightarrow> ws = [Finished] \<and> ts_exclusive_queue s = []" by code_simp
  from demo_run [OF this] obtain s
    where s: "schedule_jobs demo_proc 4 1 [demo_job ''bad''] (new_sched []) s" ..
  have pwd: "\<forall>j \<in> set [demo_job ''bad'']. ''PWD'' \<in> set (keys (jb_env j))" by code_simp
  have "inj_on job_key (set [demo_job ''bad''])" by simp
  from schedule_jobs_deterministic [OF s _ pwd this] s show ?thesis by blast
qed

end
