(* ===== verification/FileSystem.thy ===== *)
theory FileSystem
  imports BladeUtil "HOL-Library.Sublist"
begin

text \<open>
  The part of the file system that the runners and the build change: directories, files with
  their contents, and symbolic links. A path that a call is given is walked one component at a
  time, through links wherever they stand in it, to the place it names: the components from the
  root, none of them a link. \<open>os.path.exists\<close> and opening a file follow a link at the end too;
  \<open>os.path.lexists\<close> and the calls that make, remove or rename do not.
\<close>

datatype fs_entry = FDir | FFile string | FLink string

type_synonym fs = "string list \<Rightarrow> fs_entry option"

section \<open>Walking a path\<close>

text \<open>
  The components of a path, from the root or the working directory. A slash at the end asks for
  a directory, as a last component \<open>.\<close> does, except where a directory is made.
\<close>

definition dir_segs :: "string \<Rightarrow> string \<Rightarrow> string list" where
  "dir_segs cwd p = (if isabs p then [] else segs cwd) @ segs p"

definition end_slash :: "string \<Rightarrow> string list" where
  "end_slash p = (if endswith p [slash] then [''.''] else [])"

definition os_segs :: "string \<Rightarrow> string \<Rightarrow> string list" where
  "os_segs cwd p = dir_segs cwd p @ end_slash p"

text \<open>
  \<open>fs_walk n follow fs q cs\<close> walks \<open>cs\<close> from the directory at \<open>q\<close> and gives the place it ends at,
  where the last name may be free. It fails where a name in the middle is free or a file, and
  after \<open>n\<close> links. A link at the end is only followed if \<open>follow\<close>.
\<close>

fun fs_walk :: "nat \<Rightarrow> bool \<Rightarrow> fs \<Rightarrow> string list \<Rightarrow> string list \<Rightarrow> string list option" where
  "fs_walk n follow fs q [] = Some q"
| "fs_walk n follow fs q (c # cs) =
     (if c = ''.'' then fs_walk n follow fs q cs
      else if c = ''..'' then fs_walk n follow fs (butlast q) cs
      else case fs (q @ [c]) of
          Some FDir \<Rightarrow> fs_walk n follow fs (q @ [c]) cs
        | Some (FLink d) \<Rightarrow>
            if cs = [] \<and> \<not> follow then Some (q @ [c])
            else (case n of
                    0 \<Rightarrow> None
                  | Suc m \<Rightarrow> fs_walk m follow fs (if isabs d then [] else q) (segs d @ end_slash d @ cs))
        | _ \<Rightarrow> if cs = [] then Some (q @ [c]) else None)"

declare fs_walk.simps(2) [simp del]

text \<open>The system gives up after forty links.\<close>

definition fs_real :: "fs \<Rightarrow> string list \<Rightarrow> string list option" where
  "fs_real fs p = fs_walk 40 True fs [] p"

definition fs_place :: "fs \<Rightarrow> string list \<Rightarrow> string list option" where
  "fs_place fs p = fs_walk 40 False fs [] p"

definition fs_stat :: "fs \<Rightarrow> string list \<Rightarrow> fs_entry option" where
  "fs_stat fs p = (case fs_real fs p of None \<Rightarrow> None | Some q \<Rightarrow> fs q)"

definition fs_lstat :: "fs \<Rightarrow> string list \<Rightarrow> fs_entry option" where
  "fs_lstat fs p = (case fs_place fs p of None \<Rightarrow> None | Some q \<Rightarrow> fs q)"

definition fs_exists :: "fs \<Rightarrow> string list \<Rightarrow> bool" where
  "fs_exists fs p \<longleftrightarrow> fs_stat fs p \<noteq> None"

definition fs_lexists :: "fs \<Rightarrow> string list \<Rightarrow> bool" where
  "fs_lexists fs p \<longleftrightarrow> fs_lstat fs p \<noteq> None"

definition fs_isdir :: "fs \<Rightarrow> string list \<Rightarrow> bool" where
  "fs_isdir fs p \<longleftrightarrow> fs_stat fs p = Some FDir"

section \<open>The calls\<close>

text \<open>A new entry at a free place of a directory\<close>

definition fs_make :: "fs_entry \<Rightarrow> string list \<Rightarrow> fs \<Rightarrow> fs res" where
  "fs_make e p fs =
     (case fs_place fs p of
        None \<Rightarrow> Inl OSError
      | Some q \<Rightarrow> if fs q \<noteq> None \<or> q = [] then Inl OSError else Inr (fs(q := Some e)))"

definition fs_mkdir :: "string list \<Rightarrow> fs \<Rightarrow> fs res" where
  "fs_mkdir = fs_make FDir"

definition fs_symlink :: "string \<Rightarrow> string list \<Rightarrow> fs \<Rightarrow> fs res" where
  "fs_symlink dest = fs_make (FLink dest)"

definition fs_remove :: "string list \<Rightarrow> fs \<Rightarrow> fs res" where
  "fs_remove p fs =
     (case fs_place fs p of
        None \<Rightarrow> Inl OSError
      | Some q \<Rightarrow> if fs q = None \<or> fs q = Some FDir then Inl OSError else Inr (fs(q := None)))"

text \<open>Opening a file for reading, and for writing: an old file loses what it held.\<close>

definition fs_read :: "string list \<Rightarrow> fs \<Rightarrow> string res" where
  "fs_read p fs = (case fs_stat fs p of Some (FFile content) \<Rightarrow> Inr content | _ \<Rightarrow> Inl OSError)"

definition fs_write :: "string \<Rightarrow> string list \<Rightarrow> fs \<Rightarrow> fs res" where
  "fs_write content p fs =
     (case fs_real fs p of
        None \<Rightarrow> Inl OSError
      | Some q \<Rightarrow> if fs q = Some FDir \<or> q = [] then Inl OSError else Inr (fs(q := Some (FFile content))))"

text \<open>
  \<open>shutil.copyfile\<close> through links, and \<open>os.rename\<close> of what is not a directory. \<open>shutil.move\<close>
  renames, and where that fails, as between file systems, copies and removes.
\<close>

definition fs_copyfile :: "string list \<Rightarrow> string list \<Rightarrow> fs \<Rightarrow> fs res" where
  "fs_copyfile src dst fs =
     (if fs_real fs src = fs_real fs dst then Inl OSError
      else bind_res (fs_read src fs) (\<lambda>content. fs_write content dst fs))"

definition fs_rename :: "string list \<Rightarrow> string list \<Rightarrow> fs \<Rightarrow> fs res" where
  "fs_rename src dst fs =
     (case fs_place fs src of
        None \<Rightarrow> Inl OSError
      | Some p \<Rightarrow>
          (case fs_place fs dst of
             None \<Rightarrow> Inl OSError
           | Some q \<Rightarrow>
               if fs p = None \<or> fs p = Some FDir \<or> fs q = Some FDir \<or> q = [] then Inl OSError
               else if p = q then Inr fs
               else Inr (fs(q := fs p, p := None))))"

definition fs_move_file :: "bool \<Rightarrow> string list \<Rightarrow> string list \<Rightarrow> fs \<Rightarrow> fs res" where
  "fs_move_file same_fs src dst fs =
     (if fs_isdir fs dst \<and> fs_exists fs (dst @ [last src]) then Inl OSError
      else
        let real_dst = (if fs_isdir fs dst then dst @ [last src] else dst)
        in case (if same_fs then fs_rename src real_dst fs else Inl OSError) of
             Inr fs' \<Rightarrow> Inr fs'
           | Inl _ \<Rightarrow> bind_res (fs_copyfile src real_dst fs) (fs_remove src))"

text \<open>\<open>shutil.rmtree(p, ignore_errors=True)\<close>: a directory and everything below it, no link followed\<close>

definition below :: "string list \<Rightarrow> string list \<Rightarrow> bool" where
  "below r p \<longleftrightarrow> take (length r) p = r"

definition fs_rmtree :: "string list \<Rightarrow> fs \<Rightarrow> fs" where
  "fs_rmtree p fs =
     (case fs_place fs p of
        None \<Rightarrow> fs
      | Some r \<Rightarrow> if fs r = Some FDir then (\<lambda>q. if below r q then None else fs q) else fs)"

text \<open>
  \<open>os.makedirs\<close> on a path given in reverse: the missing parents first, where it is no error that
  the parent is there after all, and a last component \<open>.\<close> is not made. The flag says whether it
  ended without \<open>OSError\<close>; what was made before the error stays.
\<close>

fun fs_makedirs :: "string list \<Rightarrow> fs \<Rightarrow> fs \<times> bool" where
  "fs_makedirs [] fs = (fs, False)"
| "fs_makedirs (c # rs) fs =
     (case (if fs_exists fs (rev rs) then (fs, True) else fs_makedirs rs fs) of
        (fs1, ok) \<Rightarrow>
          if \<not> ok \<and> \<not> fs_lexists fs1 (rev rs) then (fs1, False)
          else if c = ''.'' \<and> \<not> fs_exists fs (rev rs) then (fs1, True)
          else (case fs_mkdir (rev (c # rs)) fs1 of Inl _ \<Rightarrow> (fs1, False) | Inr fs2 \<Rightarrow> (fs2, True)))"

declare fs_makedirs.simps(2) [simp del]

text \<open>A tree: everything is in a directory.\<close>

definition fs_tree :: "fs \<Rightarrow> bool" where
  "fs_tree fs \<longleftrightarrow> fs [] = Some FDir \<and> (\<forall>p c. fs (p @ [c]) \<noteq> None \<longrightarrow> fs p = Some FDir)"

section \<open>Walks\<close>

lemma walk_dot [simp]: "fs_walk n follow fs q (''.'' # cs) = fs_walk n follow fs q cs"
  by (simp add: fs_walk.simps(2))

lemma walk_dotdot [simp]: "fs_walk n follow fs q (''..'' # cs) = fs_walk n follow fs (butlast q) cs"
  by (simp add: fs_walk.simps(2))

lemma walk_dir:
  "c \<noteq> ''.'' \<Longrightarrow> c \<noteq> ''..'' \<Longrightarrow> fs (q @ [c]) = Some FDir \<Longrightarrow>
     fs_walk n follow fs q (c # cs) = fs_walk n follow fs (q @ [c]) cs"
  by (simp add: fs_walk.simps(2))

text \<open>A walk sees directories and links; what a file holds, and whether it is there, plays no part.\<close>

fun fs_kind :: "fs_entry option \<Rightarrow> fs_entry option" where
  "fs_kind (Some (FFile _)) = None"
| "fs_kind e = e"

lemma fs_walk_kinds:
  assumes "\<forall>q. fs_kind (fs q) = fs_kind (fs' q)"
  shows "fs_walk n follow fs q cs = fs_walk n follow fs' q cs"
proof (induction n arbitrary: q cs rule: less_induct)
  case (less n)
  show ?case
  proof (induction cs arbitrary: q)
    case (Cons c cs)
    have "(case n of 0 \<Rightarrow> None | Suc m \<Rightarrow> fs_walk m follow fs p ds) =
        (case n of 0 \<Rightarrow> None | Suc m \<Rightarrow> fs_walk m follow fs' p ds)" for p ds
      using less by (simp split: nat.split)
    moreover have "fs_kind (fs (q @ [c])) = fs_kind (fs' (q @ [c]))" using assms by blast
    ultimately show ?case
      using Cons.IH
      by (cases "fs (q @ [c])" rule: fs_kind.cases; cases "fs' (q @ [c])" rule: fs_kind.cases)
        (simp_all add: fs_walk.simps(2) [of _ _ _ _ c])
  qed simp
qed

lemma fs_kinds_upd_file:
  assumes "\<not> (\<exists>d. fs p = Some (FLink d)) \<and> fs p \<noteq> Some FDir"
    and "\<not> (\<exists>d. e = Some (FLink d)) \<and> e \<noteq> Some FDir"
  shows "\<forall>q. fs_kind ((fs(p := e)) q) = fs_kind (fs q)"
  using assms by (cases e rule: fs_kind.cases; cases "fs p" rule: fs_kind.cases) auto

lemma walk_unlinked:
  "fs_walk n False fs q cs = Some r \<Longrightarrow> \<forall>d. fs r \<noteq> Some (FLink d) \<Longrightarrow> fs_walk n True fs q cs = Some r"
proof (induction n arbitrary: q cs rule: less_induct)
  case (less n)
  have deeper: "(case n of 0 \<Rightarrow> None | Suc m \<Rightarrow> fs_walk m False fs p ds) = Some r \<Longrightarrow>
      (case n of 0 \<Rightarrow> None | Suc m \<Rightarrow> fs_walk m True fs p ds) = Some r" for p ds
    using less by (simp split: nat.splits)
  show ?case
    using less.prems(1)
  proof (induction cs arbitrary: q)
    case (Cons c cs)
    then show ?case
      using deeper less.prems(2)
      by (auto simp: fs_walk.simps(2) [of _ _ _ _ c] split: if_splits option.splits fs_entry.splits)
  qed simp
qed

lemma real_of_place:
  "fs_place fs p = Some q \<Longrightarrow> \<forall>d. fs q \<noteq> Some (FLink d) \<Longrightarrow> fs_real fs p = Some q"
  unfolding fs_place_def fs_real_def by (rule walk_unlinked)

text \<open>The components without the dots that stand for the directory itself\<close>

definition no_dots :: "string list \<Rightarrow> string list" where
  "no_dots cs = filter (\<lambda>c. c \<noteq> ''.'') cs"

lemma no_dots_simps [simp]:
  "no_dots [] = []"
  "no_dots (c # cs) = (if c = ''.'' then no_dots cs else c # no_dots cs)"
  "no_dots (cs @ ds) = no_dots cs @ no_dots ds"
  "no_dots (no_dots cs) = no_dots cs"
  by (simp_all add: no_dots_def)

lemma set_no_dots [simp]: "set (no_dots cs) = set cs - {''.''}"
  by (auto simp: no_dots_def)

lemma no_dots_end_slash [simp]: "no_dots (end_slash p) = []"
  by (simp add: end_slash_def)

lemma dotdot_end_slash [simp]: "''..'' \<notin> set (end_slash p)"
  by (simp add: end_slash_def)

lemma prefix_no_dots: "prefix cs ds \<Longrightarrow> prefix (no_dots cs) (no_dots ds)"
  by (auto simp: prefix_def)

text \<open>A path along directories only, none of them a link\<close>

definition solid :: "fs \<Rightarrow> string list \<Rightarrow> bool" where
  "solid fs p \<longleftrightarrow> (\<forall>q. prefix q p \<longrightarrow> fs q = Some FDir)"

lemma solid_dir: "solid fs p \<Longrightarrow> fs p = Some FDir"
  by (simp add: solid_def)

lemma solid_prefix: "solid fs p \<Longrightarrow> prefix q p \<Longrightarrow> solid fs q"
  unfolding solid_def using prefix_order.trans by blast

lemma walk_solid:
  "''..'' \<notin> set cs \<Longrightarrow> solid fs (q @ no_dots cs) \<Longrightarrow>
     fs_walk n follow fs q (cs @ ds) = fs_walk n follow fs (q @ no_dots cs) ds"
proof (induction cs arbitrary: q)
  case (Cons c cs)
  show ?case
  proof (cases "c = ''.''")
    case True
    then show ?thesis using Cons by simp
  next
    case False
    then have "fs (q @ [c]) = Some FDir"
      using Cons.prems(2) by (auto simp: solid_def)
    with False show ?thesis using Cons walk_dir [of c fs q n follow "cs @ ds"] by fastforce
  qed
qed simp

text \<open>
  A directory \<open>R\<close> reached without links, where every link below it is at one of the places \<open>Ls\<close>:
  a walk below \<open>R\<close> that meets none of them ends below \<open>R\<close>, where its names say.
\<close>

definition inside :: "string list \<Rightarrow> string list set \<Rightarrow> fs \<Rightarrow> bool" where
  "inside R Ls fs \<longleftrightarrow> solid fs R \<and> (\<forall>q d. q \<noteq> [] \<longrightarrow> fs (R @ q) = Some (FLink d) \<longrightarrow> q \<in> Ls)"

definition meets_none :: "string list set \<Rightarrow> string list \<Rightarrow> bool" where
  "meets_none Ls cs \<longleftrightarrow> (\<forall>l \<in> Ls. l \<noteq> [] \<longrightarrow> \<not> prefix l cs)"

lemma meets_none_prefix: "meets_none Ls cs \<Longrightarrow> prefix ds cs \<Longrightarrow> meets_none Ls ds"
  unfolding meets_none_def using prefix_order.trans by blast

lemma walk_inside:
  assumes "inside R Ls fs" and "''..'' \<notin> set cs" and "meets_none Ls (u @ no_dots cs)"
  shows "fs_walk n follow fs (R @ u) cs \<in> {None, Some (R @ u @ no_dots cs)}"
  using assms(2,3)
proof (induction cs arbitrary: u)
  case (Cons c cs)
  show ?case
  proof (cases "c = ''.''")
    case True
    then show ?thesis using Cons by simp
  next
    case False
    then have "prefix (u @ [c]) (u @ no_dots (c # cs))" by simp
    then have "meets_none Ls (u @ [c])" by (rule meets_none_prefix [OF Cons.prems(2)])
    then have "fs (R @ u @ [c]) \<noteq> Some (FLink d)" for d
      using assms(1) by (auto simp: inside_def meets_none_def)
    with False show ?thesis
      using Cons.IH [of "u @ [c]"] Cons.prems
      by (auto simp: fs_walk.simps(2) [of _ _ _ _ c] split: option.splits fs_entry.splits)
  qed
qed simp

section \<open>What an operation leaves alone\<close>

definition same_outside :: "string list \<Rightarrow> fs \<Rightarrow> fs \<Rightarrow> bool" where
  "same_outside r fs fs' \<longleftrightarrow> (\<forall>p. \<not> below r p \<longrightarrow> fs' p = fs p)"

lemma below_refl [simp]: "below r r"
  by (simp add: below_def)

lemma below_append [simp]: "below r (r @ p)"
  by (simp add: below_def)

lemma below_iff: "below r p \<longleftrightarrow> (\<exists>q. p = r @ q)"
  by (auto simp: below_def) (metis append_take_drop_id)

lemma same_outside_refl [simp]: "same_outside r fs fs"
  by (simp add: same_outside_def)

lemma same_outside_trans: "same_outside r a b \<Longrightarrow> same_outside r b c \<Longrightarrow> same_outside r a c"
  by (simp add: same_outside_def)

lemma same_outside_upd [simp]: "same_outside r fs (fs(r @ p := e))" "same_outside r fs (fs(r := e))"
  by (auto simp: same_outside_def)

lemma no_dots_split:
  "no_dots p = r @ v \<Longrightarrow> \<exists>a b. p = a @ b \<and> no_dots a = r \<and> no_dots b = v"
proof (induction p arbitrary: r)
  case (Cons c p)
  show ?case
  proof (cases "c = ''.'' \<or> r = []")
    case True
    then show ?thesis
    proof
      assume c: "c = ''.''"
      with Cons.prems have "no_dots p = r @ v" by simp
      then obtain a b where "p = a @ b" "no_dots a = r" "no_dots b = v" using Cons.IH by blast
      with c show ?thesis by (intro exI [of _ "c # a"] exI [of _ b]) simp
    next
      assume "r = []"
      with Cons.prems show ?thesis by (intro exI [of _ "[]"] exI [of _ "c # p"]) simp
    qed
  next
    case False
    then obtain r' where r: "r = c # r'" "no_dots p = r' @ v" using Cons.prems by (cases r) auto
    then obtain a b where "p = a @ b" "no_dots a = r'" "no_dots b = v" using Cons.IH by blast
    with r False show ?thesis by (intro exI [of _ "c # a"] exI [of _ b]) simp
  qed
qed simp

lemma walk_below:
  assumes "inside R Ls fs" and "''..'' \<notin> set p" and "no_dots p = R @ v" and "meets_none Ls v"
  shows "fs_walk n follow fs [] p \<in> {None, Some (R @ v)}"
proof -
  obtain a b where p: "p = a @ b" "no_dots a = R" "no_dots b = v" using no_dots_split [OF assms(3)] by blast
  have "fs_walk n follow fs [] (a @ b) = fs_walk n follow fs R b"
    using walk_solid [of a fs "[]"] assms(1,2) p by (simp add: inside_def)
  with walk_inside [OF assms(1), of b "[]"] assms(2,4) p show ?thesis by simp
qed

lemma inside_dir: "inside R Ls fs \<Longrightarrow> fs R = Some FDir"
  by (simp add: inside_def solid_dir)

lemma inside_upd:
  assumes "inside R Ls fs" and "v \<noteq> []" and "\<And>d. e = Some (FLink d) \<Longrightarrow> v \<in> Ls'" and "Ls \<subseteq> Ls'"
  shows "inside R Ls' (fs(R @ v := e))"
  using assms by (auto simp: inside_def solid_def prefix_def)

lemma make_inside:
  assumes "fs_make e p fs = Inr fs'" and "inside R Ls fs" and "''..'' \<notin> set p" and "no_dots p = R @ v"
    and "meets_none Ls v"
  shows "v \<noteq> []" and "fs' = fs(R @ v := Some e)"
  using assms(1) walk_below [OF assms(2-5), of 40 False] inside_dir [OF assms(2)]
  by (auto simp: fs_make_def fs_place_def split: option.splits if_splits)

lemma remove_inside:
  assumes "fs_remove p fs = Inr fs'" and "inside R Ls fs" and "''..'' \<notin> set p" and "no_dots p = R @ v"
    and "meets_none Ls v"
  shows "inside R Ls fs' \<and> same_outside R fs fs'"
proof -
  have "v \<noteq> [] \<and> fs' = fs(R @ v := None)"
    using assms(1) walk_below [OF assms(2-5), of 40 False] inside_dir [OF assms(2)]
    by (auto simp: fs_remove_def fs_place_def split: option.splits if_splits)
  with inside_upd [OF assms(2), of v None Ls] show ?thesis by simp
qed

lemma exists_solid: "solid fs (no_dots p) \<Longrightarrow> ''..'' \<notin> set p \<Longrightarrow> fs_exists fs p"
  using walk_solid [of p fs "[]" 40 True "[]"] solid_dir [of fs "no_dots p"]
  by (simp add: fs_exists_def fs_stat_def fs_real_def)

lemma makedirs_inside:
  assumes "fs_makedirs (rev p) fs = (fs', ok)" and "inside R Ls fs" and "''..'' \<notin> set p"
    and "no_dots p = R @ v" and "meets_none Ls v"
  shows "inside R Ls fs' \<and> same_outside R fs fs'"
  using assms
proof (induction p arbitrary: v fs' ok rule: rev_induct)
  case (snoc c p)
  obtain fs1 ok1 where s1: "(if fs_exists fs p then (fs, True) else fs_makedirs (rev p) fs) = (fs1, ok1)"
    by fastforce
  have F: "inside R Ls fs1 \<and> same_outside R fs fs1"
  proof (cases "fs_exists fs p")
    case True
    then show ?thesis using s1 snoc.prems(2) by simp
  next
    case False
    have "\<not> prefix (no_dots p) R"
      using False exists_solid [of fs p] solid_prefix [of fs R] snoc.prems(2,3) by (auto simp: inside_def)
    moreover have "prefix (no_dots p) (R @ v)" unfolding snoc.prems(4) [symmetric] by (rule prefix_no_dots) simp
    ultimately obtain u where u: "no_dots p = R @ u" "prefix u v"
      by (auto simp: prefix_append)
    then show ?thesis
      using snoc.IH [OF _ snoc.prems(2) _ u(1) meets_none_prefix [OF snoc.prems(5)]] s1 False snoc.prems(3)
      by simp
  qed
  have "(if \<not> ok1 \<and> \<not> fs_lexists fs1 p then (fs1, False)
          else if c = ''.'' \<and> \<not> fs_exists fs p then (fs1, True)
          else (case fs_mkdir (p @ [c]) fs1 of Inl _ \<Rightarrow> (fs1, False) | Inr fs2 \<Rightarrow> (fs2, True))) = (fs', ok)"
    using snoc.prems(1)
    unfolding rev_append rev_singleton_conv fs_makedirs.simps(2) append_Cons append_Nil rev.simps rev_rev_ident s1
      prod.case .
  then consider "fs' = fs1" | "fs_make FDir (p @ [c]) fs1 = Inr fs'"
    by (auto simp: fs_mkdir_def split: if_splits sum.splits)
  then show ?case
  proof cases
    case 2
    note m = make_inside [OF 2 conjunct1 [OF F] snoc.prems(3-5)]
    have "inside R Ls (fs1(R @ v := Some FDir))"
      by (rule inside_upd [OF conjunct1 [OF F] m(1)]) simp_all
    then show ?thesis unfolding m(2) using same_outside_trans [OF conjunct2 [OF F] same_outside_upd(1)] by blast
  qed (use F in simp)
qed simp

lemma rmtree_outside: "fs_place fs p = Some r \<Longrightarrow> same_outside r fs (fs_rmtree p fs)"
  by (simp add: fs_rmtree_def same_outside_def)

text \<open>The place of a path whose directory is reached without links\<close>

lemma place_solid:
  assumes "solid fs (butlast (no_dots p))" and "''..'' \<notin> set p" and "p \<noteq> []" and "last p \<noteq> ''.''"
  shows "fs_place fs p = Some (no_dots p)"
proof -
  obtain b c where p: "p = b @ [c]" using assms(3) by (metis append_butlast_last_id)
  have c: "c \<noteq> ''.''" "c \<noteq> ''..''" using assms(2,4) p by auto
  then have "fs_walk 40 False fs [] p = fs_walk 40 False fs (no_dots b) [c]"
    using walk_solid [of b fs "[]" 40 False "[c]"] assms(1,2) p by (simp add: butlast_append)
  then show ?thesis
    using c p by (simp add: fs_place_def fs_walk.simps(2) [of _ _ _ _ c] split: option.split fs_entry.split)
qed

section \<open>Replacing a file by another\<close>

lemma move_file_replaces:
  assumes move: "fs_move_file same_fs src dst fs = Inr fs'"
    and places: "fs_place fs src = Some p" "fs_place fs dst = Some q" "p \<noteq> q"
    and files: "fs p = Some (FFile content)" "fs q = None \<or> (\<exists>old. fs q = Some (FFile old))"
  shows "fs' = fs(q := Some (FFile content), p := None)"
proof -
  have real: "fs_real fs src = Some p" "fs_real fs dst = Some q"
    using files by (auto intro!: real_of_place places)
  have "\<not> fs_isdir fs dst" using files(2) by (auto simp: fs_isdir_def fs_stat_def real(2))
  then consider "fs_rename src dst fs = Inr fs'" | "bind_res (fs_copyfile src dst fs) (fs_remove src) = Inr fs'"
    using move by (auto simp: fs_move_file_def Let_def split: if_splits sum.splits)
  then show ?thesis
  proof cases
    case 1
    then show ?thesis using places files by (auto simp: fs_rename_def split: if_splits)
  next
    case 2
    let ?fs1 = "fs(q := Some (FFile content))"
    have copy: "fs_copyfile src dst fs = Inr ?fs1 \<or> (\<exists>e. fs_copyfile src dst fs = Inl e)"
      using places(3) files by (auto simp: fs_copyfile_def fs_read_def fs_stat_def real fs_write_def)
    have "fs_place ?fs1 src = fs_place fs src"
      unfolding fs_place_def by (rule fs_walk_kinds) (use files(2) in \<open>intro fs_kinds_upd_file; auto\<close>)
    with 2 copy show ?thesis using places files by (auto simp: fs_remove_def split: if_splits)
  qed
qed

end
