(* ===== verification/BinaryRunner.thy ===== *)
theory BinaryRunner
  imports FileSystem TestScheduler
begin

text \<open>
  \<open>binary_runner.py\<close>: the directory \<open><program>.runfiles\<close> a program runs in, with links to the
  build directory, to prebuilt libraries and to test data, and the run of one program. What
  the runner object knows is the record \<open>runner\<close>; what it changes, the file system and the
  console, is \<open>run_state\<close>. \<open>r_realpath\<close> is \<open>os.path.realpath\<close>, used in a message only.
\<close>

record runner =
  r_targets :: targets
  r_build_dir :: string
  r_options :: options
  r_database :: targets
  r_cwd :: string
  r_realpath :: "fs \<Rightarrow> string \<Rightarrow> string"

record run_state =
  rs_fs :: fs
  rs_console :: "msg list"

definition rs_say :: "msg \<Rightarrow> run_state \<Rightarrow> run_state" where
  "rs_say m s = s\<lparr>rs_console := rs_console s @ [m]\<rparr>"

definition rs_do :: "(fs \<Rightarrow> fs res) \<Rightarrow> run_state \<Rightarrow> run_state res" where
  "rs_do f s = bind_res (f (rs_fs s)) (\<lambda>fs'. Inr (s\<lparr>rs_fs := fs'\<rparr>))"

definition run_list :: "string list" where
  "run_list = [''cc_binary'', ''cc_test'']"

definition executable :: "runner \<Rightarrow> target \<Rightarrow> string" where
  "executable r t = r_build_dir r @ [slash] @ t_path t @ [slash] @ t_name t"

definition runfiles_dir :: "runner \<Rightarrow> target \<Rightarrow> string" where
  "runfiles_dir r t = ''./'' @ executable r t @ ''.runfiles''"

definition path_at :: "runner \<Rightarrow> string \<Rightarrow> string list" where
  "path_at r p = os_segs (r_cwd r) p"

definition prepare_run_env :: "runner \<Rightarrow> target \<Rightarrow> run_state \<Rightarrow> run_state res" where
  "prepare_run_env r t s =
     (let lib_link = path_at r (path_join (dirname (executable r t)) (basename (r_build_dir r))) in
      bind_res (if fs_exists (rs_fs s) lib_link then rs_do (fs_remove lib_link) s else Inr s)
        (rs_do (fs_symlink (abspath (r_cwd r) (r_build_dir r)) lib_link)))"

definition prebuilt_file :: "runner \<Rightarrow> tkey \<Rightarrow> (string \<times> string) list res" where
  "prebuilt_file r dep =
     bind_res (dict_index (r_database r) dep) (\<lambda>dep_target.
     Inr (if t_type dep_target = ''prebuilt_cc_library''
          then (case t_file_and_link dep_target of None \<Rightarrow> [] | Some f \<Rightarrow> [f]) else []))"

definition get_prebuilt_files :: "runner \<Rightarrow> target \<Rightarrow> (string \<times> string) list res" where
  "get_prebuilt_files r t = bind_res (map_res (prebuilt_file r) (t_expanded_deps t)) (\<lambda>l. Inr (concat l))"

section \<open>Test data\<close>

datatype link_check = Ambiguous | Incompatible string | ValidLink

text \<open>The loop of \<open>__check_link_name\<close>; the indexing raises when the two paths are equal.\<close>

fun check_link_items :: "string \<Rightarrow> string list \<Rightarrow> link_check res" where
  "check_link_items norm [] = Inr ValidLink"
| "check_link_items norm (item # items) =
     (let item_norm = normpath item;
          (long_path, short_path) =
            (if length norm \<ge> length item_norm then (norm, item_norm) else (item_norm, norm))
      in if startswith long_path short_path then
           (case drop (length short_path) long_path of
              [] \<Rightarrow> Inl IndexError
            | c # _ \<Rightarrow> if c = slash then Inr (Incompatible item) else check_link_items norm items)
         else check_link_items norm items)"

definition check_link_name :: "string \<Rightarrow> string list \<Rightarrow> link_check res" where
  "check_link_name link_name link_name_list =
     (if link_name \<in> set link_name_list then Inr Ambiguous
      else check_link_items (normpath link_name) link_name_list)"

fun data_target :: "testdata_item \<Rightarrow> string" where
  "data_target (DataFile d) = d"
| "data_target (DataLink d l) = d"

fun data_link :: "testdata_item \<Rightarrow> string" where
  "data_link (DataFile d) = d"
| "data_link (DataLink d l) = l"

definition strip_root :: "string \<Rightarrow> string" where
  "strip_root p = (if startswith p ''//'' then drop 2 p else p)"

definition in_runfiles :: "runner \<Rightarrow> target \<Rightarrow> string \<Rightarrow> string" where
  "in_runfiles r t link_name = runfiles_dir r t @ [slash] @ link_name"

text \<open>Making the link of one test file, after its name was accepted\<close>

definition make_parent :: "runner \<Rightarrow> target \<Rightarrow> string \<Rightarrow> run_state \<Rightarrow> run_state" where
  "make_parent r t link_name s =
     s\<lparr>rs_fs := fst (fs_makedirs (rev (dir_segs (r_cwd r) (dirname (in_runfiles r t link_name)))) (rs_fs s))\<rparr>"

definition link_data :: "runner \<Rightarrow> target \<Rightarrow> string \<Rightarrow> string \<Rightarrow> run_state \<Rightarrow> run_state res" where
  "link_data r t dest link_name s0 =
     (let s = make_parent r t link_name s0;
          symlink_name = path_at r (abspath (r_cwd r) (in_runfiles r t link_name));
          new_link = path_at r (in_runfiles r t link_name);
          dest_data_file = abspath (r_cwd r)
            (if startswith dest ''//'' then drop 2 dest else t_path t @ [slash] @ dest)
      in if fs_lexists (rs_fs s) symlink_name then
           if fs_exists (rs_fs s) symlink_name then
             Inr (rs_say (Warning (link_name @ '' already existed, could not prepare testdata for '' @
               label (t_path t) (t_name t))) s)
           else
             bind_res (rs_do (fs_remove symlink_name) s) (\<lambda>s1.
             rs_do (fs_symlink dest_data_file new_link)
               (rs_say (Warning (link_name @ '' already existed, but it is a broken symbolic link, '' @
                  ''blade will remove it and make a new one.'')) s1))
         else rs_do (fs_symlink dest_data_file new_link) s)"

text \<open>One round of \<open>_prepare_test_data\<close>, with \<open>link_name_list\<close>\<close>

definition prepare_item ::
  "runner \<Rightarrow> target \<Rightarrow> testdata_item \<Rightarrow> string list \<times> run_state \<Rightarrow> (string list \<times> run_state) res" where
  "prepare_item r t item st =
     (case st of (link_name_list, s) \<Rightarrow>
      if has_sub ''..'' (data_target item) then Inr st
      else
        let link_name = strip_root (data_link item) in
        bind_res (check_link_name link_name link_name_list) (\<lambda>check.
        case check of
          Ambiguous \<Rightarrow> error_exit (''Ambiguous testdata of '' @ label (t_path t) (t_name t) @ '': '' @
            link_name @ '', exit...'')
        | Incompatible other \<Rightarrow> error_exit (link_name @ '' could not exist with '' @ other @
            '' in testdata of '' @ label (t_path t) (t_name t))
        | ValidLink \<Rightarrow>
            bind_res (link_data r t (data_target item) link_name s) (\<lambda>s'.
            Inr (link_name_list @ [link_name], s'))))"

definition prepare_test_data :: "runner \<Rightarrow> target \<Rightarrow> run_state \<Rightarrow> run_state res" where
  "prepare_test_data r t s =
     (case d_testdata (t_data t) of
        None \<Rightarrow> Inr s
      | Some items \<Rightarrow> bind_res (fold_res (prepare_item r t) items ([], s)) (\<lambda>(_, s'). Inr s'))"

section \<open>The runfiles directory\<close>

definition prebuilt_link :: "runner \<Rightarrow> target \<Rightarrow> string \<times> string \<Rightarrow> run_state \<Rightarrow> run_state res" where
  "prebuilt_link r t prebuilt s =
     (let src = abspath (r_cwd r) (fst prebuilt);
          dst = path_join (runfiles_dir r t) (snd prebuilt)
      in if fs_lexists (rs_fs s) (path_at r dst) then
           Inr (rs_say (Warning (''trying to make duplicate prebuilt symlink:'' @ newline @
             dst @ '' -> '' @ src @ newline @ dst @ '' -> '' @ r_realpath r (rs_fs s) dst @
             '' already exists'' @ newline @ ''skipped, should check duplicate prebuilt libraries'')) s)
         else rs_do (fs_symlink src (path_at r dst)) s)"

definition prepare_env :: "runner \<Rightarrow> target \<Rightarrow> run_state \<Rightarrow> run_state res" where
  "prepare_env r t s =
     (let dir = path_at r (runfiles_dir r t);
          s1 = s\<lparr>rs_fs := fs_rmtree dir (rs_fs s)\<rparr>
      in bind_res (rs_do (fs_mkdir dir) s1) (\<lambda>s2.
         bind_res (rs_do (fs_symlink (abspath (r_cwd r) (r_build_dir r))
             (path_at r (path_join (runfiles_dir r t) (basename (r_build_dir r))))) s2) (\<lambda>s3.
         bind_res (get_prebuilt_files r t) (\<lambda>files.
         bind_res (fold_res (prebuilt_link r t) files s3) (\<lambda>s4.
         prepare_test_data r t s4)))))"

definition clean_target :: "runner \<Rightarrow> target \<Rightarrow> run_state \<Rightarrow> run_state res" where
  "clean_target r t s =
     (let link = path_at r (path_join (runfiles_dir r t) (basename (r_build_dir r)))
      in if fs_exists (rs_fs s) link then rs_do (fs_remove link) s else Inr s)"

definition clean_env :: "runner \<Rightarrow> run_state \<Rightarrow> run_state res" where
  "clean_env r s =
     fold_res (\<lambda>t s. if t_type t \<noteq> ''cc_test'' then Inr s else clean_target r t s)
       (map snd (r_targets r)) s"

section \<open>Running a program\<close>

text \<open>
  \<open>environ\<close> is the environment of Blade; \<open>proc\<close> is what the process of a command does in an
  environment.
\<close>

definition run_target ::
  "(string list \<Rightarrow> (string, string) dict \<Rightarrow> process) \<Rightarrow> (string, string) dict \<Rightarrow> runner \<Rightarrow> tkey \<Rightarrow>
   run_state \<Rightarrow> (int \<times> run_state) res" where
  "run_target proc environ r target_key s =
     bind_res (dict_index (r_targets r) target_key) (\<lambda>t.
     if t_type t \<notin> set run_list
     then error_exit (''target '' @ colon_name target_key @ '' is not a target that could run'')
     else
       bind_res (prepare_env r t s) (\<lambda>s1.
       let cmd = abspath (r_cwd r) (executable r t) # o_args (r_options r);
           s2 = rs_say (Info (quote1 # repr_strs cmd @ [quote1] @ '' will be ran'')) s1;
           run_env = environ_add_path environ ''LD_LIBRARY_PATH'' (runfiles_dir r t)
       in case proc cmd run_env of
            NoProcess _ \<Rightarrow> Inl OSError
          | Exited returncode _ \<Rightarrow>
              bind_res (clean_env r s2) (\<lambda>s3. Inr (returncode, s3))))"

end
