(* ===== verification/RunnerCorrect.thy ===== *)
theory RunnerCorrect
  imports BinaryRunner
begin

text \<open>
  Correctness of the runfiles directory: the names accepted for test data never clash, and
  preparing the directory changes nothing outside it.
\<close>

section \<open>Names of links\<close>

text \<open>Two normal paths that cannot both be links: equal, or one inside the other\<close>

definition clash :: "string \<Rightarrow> string \<Rightarrow> bool" where
  "clash a b \<longleftrightarrow> a = b \<or> startswith a (b @ [slash]) \<or> startswith b (a @ [slash])"

lemma clash_sym: "clash a b = clash b a"
  by (auto simp: clash_def)

lemma clash_longer: "length a \<ge> length b \<Longrightarrow>
    clash a b \<longleftrightarrow> startswith a b \<and> (case drop (length b) a of [] \<Rightarrow> True | c # _ \<Rightarrow> c = slash)"
proof -
  assume len: "length a \<ge> length b"
  have no: "\<not> startswith b (a @ [slash])"
  proof
    assume "startswith b (a @ [slash])"
    then obtain t where "b = (a @ [slash]) @ t" unfolding startswith_iff by blast
    with len show False by simp
  qed
  show ?thesis
  proof (cases "startswith a b")
    case True
    then obtain t where a: "a = b @ t" unfolding startswith_iff by blast
    then show ?thesis using no by (cases t) (auto simp: clash_def startswith_iff)
  next
    case False
    then have "a \<noteq> b" and "\<not> startswith a (b @ [slash])"
      unfolding startswith_iff by (auto simp only: append_assoc append_Nil2)
    then show ?thesis using no False by (simp add: clash_def)
  qed
qed

lemma check_link_items_valid:
  "check_link_items norm items = Inr ValidLink \<longleftrightarrow> (\<forall>item \<in> set items. \<not> clash norm (normpath item))"
proof (induction items)
  case (Cons item items)
  define l where "l = (if length norm \<ge> length (normpath item) then norm else normpath item)"
  define h where "h = (if length norm \<ge> length (normpath item) then normpath item else norm)"
  have c: "clash norm (normpath item) \<longleftrightarrow>
      startswith l h \<and> (case drop (length h) l of [] \<Rightarrow> True | c # _ \<Rightarrow> c = slash)"
    using clash_longer [of "normpath item" norm] clash_longer [of norm "normpath item"] clash_sym
    by (auto simp: l_def h_def)
  have "check_link_items norm (item # items) =
      (if startswith l h then
         (case drop (length h) l of [] \<Rightarrow> Inl IndexError
          | c # _ \<Rightarrow> if c = slash then Inr (Incompatible item) else check_link_items norm items)
       else check_link_items norm items)"
    by (simp add: l_def h_def Let_def)
  with c Cons.IH show ?case by (auto split: list.splits)
qed simp

definition independent :: "string list \<Rightarrow> bool" where
  "independent names \<longleftrightarrow> sorted_wrt (\<lambda>a b. \<not> clash (normpath a) (normpath b)) names"

lemma check_link_independent:
  assumes "check_link_name name names = Inr ValidLink" and "independent names"
  shows "independent (names @ [name])"
  using assms clash_sym
  by (auto simp: check_link_name_def check_link_items_valid independent_def sorted_wrt_append split: if_splits)

lemma prepare_item_Inr:
  assumes "prepare_item r t item (names, s) = Inr (names', s')"
  shows "(names', s') = (names, s) \<and> has_sub ''..'' (data_target item) \<or>
    (let name = strip_root (data_link item)
     in check_link_name name names = Inr ValidLink \<and> names' = names @ [name] \<and>
        link_data r t (data_target item) name s = Inr s')"
proof (cases "has_sub ''..'' (data_target item)")
  case False
  show ?thesis
  proof (cases "check_link_name (strip_root (data_link item)) names")
    case (Inl e)
    then show ?thesis using assms False by (simp add: prepare_item_def)
  next
    case (Inr check)
    then show ?thesis using assms False by (cases check) (auto simp: prepare_item_def Let_def bind_res_eq_Inr)
  qed
qed (use assms in \<open>simp add: prepare_item_def\<close>)

lemma prepare_items_independent:
  assumes "fold_res (prepare_item r t) items ([], s) = Inr (names, s')"
  shows "independent names"
proof -
  have "independent (fst (names, s'))"
  proof (rule fold_res_invariant [where P = "\<lambda>st. independent (fst st)", OF _ _ assms])
    fix item st st' assume "independent (fst st)" "prepare_item r t item st = Inr st'"
    then show "independent (fst st')"
      using prepare_item_Inr [of r t item "fst st" "snd st" "fst st'" "snd st'"] check_link_independent
      by (auto simp: Let_def)
  qed (simp add: independent_def)
  then show ?thesis by simp
qed

section \<open>Paths below the runfiles directory\<close>

lemma takeWhile_rev_split: "\<exists>h. p = h @ basename p \<and> (h = [] \<or> last h = slash)"
proof -
  let ?P = "\<lambda>c. c \<noteq> slash"
  have "rev p = takeWhile ?P (rev p) @ dropWhile ?P (rev p)" by simp
  then have p: "p = rev (dropWhile ?P (rev p)) @ basename p"
    unfolding basename_def by (metis rev_append rev_rev_ident)
  have "rev (dropWhile ?P (rev p)) = [] \<or> last (rev (dropWhile ?P (rev p))) = slash"
    using hd_dropWhile [of ?P "rev p"] by (auto simp: last_rev)
  with p show ?thesis by blast
qed

lemma segs_slashes: "\<forall>c \<in> set h. c = slash \<Longrightarrow> segs h = []"
proof -
  assume "\<forall>c \<in> set h. c = slash"
  then have "h = replicate (length h) slash @ []" by (simp add: replicate_length_same)
  then show ?thesis using segs_replicate [of "length h" "[]"] by (metis segs_Nil)
qed

lemma segs_rstrip: "segs (rstrip_chars [slash] h) = segs h"
proof -
  have "h = rstrip_chars [slash] h @ rev (takeWhile (\<lambda>c. c \<in> set [slash]) (rev h))"
    unfolding rstrip_chars_def by (metis rev_append rev_rev_ident takeWhile_dropWhile_id)
  moreover have "segs (a @ replicate n slash) = segs a" for a n
  proof (induction n)
    case (Suc n)
    have "segs (a @ replicate (Suc n) slash) = segs (a @ replicate n slash @ [slash])"
      by (simp add: replicate_append_same)
    then show ?case using Suc segs_sep [of "a @ replicate n slash" "[]"] by simp
  qed simp
  moreover have "rev (takeWhile (\<lambda>c. c \<in> set [slash]) (rev h)) =
      replicate (length (takeWhile (\<lambda>c. c \<in> set [slash]) (rev h))) slash"
    by (metis (mono_tags, lifting) rev_replicate replicate_length_same set_takeWhileD list.set(1) list.set(2)
        singletonD)
  ultimately show ?thesis by metis
qed

lemma take_head: "p = h @ b \<Longrightarrow> take (length p - length b) p = h"
  by simp

lemma segs_dirname: "segs (dirname p) = (if basename p = [] then segs p else butlast (segs p))"
proof -
  obtain h where h: "p = h @ basename p" "h = [] \<or> last h = slash" using takeWhile_rev_split by blast
  have len: "take (length p - length (basename p)) p = h"
    by (rule take_head [OF h(1)])
  have d: "segs (dirname p) = segs h"
    unfolding dirname_def len Let_def using segs_rstrip by simp
  have "segs p = segs h @ segs (basename p)"
  proof (cases h rule: rev_cases)
    case (snoc h' c)
    then have "c = slash" using h(2) by simp
    then show ?thesis using h(1) snoc segs_sep [of h' "basename p"] segs_sep [of h' "[]"] by simp
  qed (use h in simp)
  moreover have "segs (basename p) = (if basename p = [] then [] else [basename p])"
    using segs_single [OF basename_no_slash] by simp
  ultimately show ?thesis using d by simp
qed

lemma concat_split_char: "concat (split_char c p) = filter (\<lambda>x. x \<noteq> c) p"
proof (induction p)
  case (Cons a p)
  obtain x xs where "split_char c p = x # xs" using split_char_not_Nil [of c p] by (cases "split_char c p") auto
  with Cons show ?case by auto
qed simp

lemma segs_Nil_slashes: "segs p = [] \<Longrightarrow> set p \<subseteq> {slash}"
proof -
  assume "segs p = []"
  then have "concat (split_char slash p) = []" by (auto simp: segs_def filter_empty_conv)
  then show ?thesis unfolding concat_split_char by (auto simp: filter_empty_conv)
qed

lemma segs_basename: "basename p \<noteq> [] \<Longrightarrow> last (segs p) = basename p \<and> segs p \<noteq> []"
proof -
  assume b: "basename p \<noteq> []"
  obtain h where h: "p = h @ basename p" "h = [] \<or> last h = slash" using takeWhile_rev_split by blast
  have "segs (basename p) = [basename p]" using segs_single [OF basename_no_slash b] .
  moreover have "segs p = segs h @ segs (basename p)"
  proof (cases h rule: rev_cases)
    case (snoc h' c)
    then have "c = slash" using h(2) by simp
    then show ?thesis using h(1) snoc segs_sep [of h' "basename p"] segs_sep [of h' "[]"] by simp
  qed (use h in simp)
  ultimately show ?thesis by simp
qed

lemma basename_last_slash: "p \<noteq> [] \<Longrightarrow> last p = slash \<Longrightarrow> basename p = []"
  by (cases p rule: rev_cases) (auto simp: basename_def)

lemma dirname_prefix: "\<exists>w. p = dirname p @ w"
proof -
  obtain h where h: "p = h @ basename p" using takeWhile_rev_split by blast
  have d: "dirname p = (if \<forall>c \<in> set h. c = slash then h else rstrip_chars [slash] h)"
    unfolding dirname_def take_head [OF h] Let_def ..
  obtain w where "h = rstrip_chars [slash] h @ w"
    unfolding rstrip_chars_def by (metis rev_append rev_rev_ident takeWhile_dropWhile_id)
  then have "\<exists>w. h = dirname p @ w" using d by (cases "\<forall>c \<in> set h. c = slash") auto
  then obtain v where "h = dirname p @ v" ..
  then have "p = dirname p @ v @ basename p" using h by (metis append_assoc)
  then show ?thesis ..
qed

lemma norm_comps_no_dots: "''..'' \<notin> set cs \<Longrightarrow> [] \<notin> set cs \<Longrightarrow> norm_comps ab cs = no_dots cs"
proof -
  assume "''..'' \<notin> set cs" and "[] \<notin> set cs"
  then have "foldl (norm_step ab) st cs = rev (no_dots cs) @ st" for st
    by (induction cs arbitrary: st) (auto simp: norm_step_def)
  then show ?thesis by (simp add: norm_comps_def)
qed

lemma segs_no_dots_join: "segs (join_str [slash] (no_dots (segs p))) = no_dots (segs p)"
  by (rule segs_join_str) (auto simp: no_dots_def dest: segs_no_slash)

lemma abspath_segs:
  assumes "isabs cwd" and "''..'' \<notin> set (dir_segs cwd p)"
  shows "dir_segs cwd (abspath cwd p) = no_dots (dir_segs cwd p)"
proof -
  define q where "q = (if isabs p then p else path_join cwd p)"
  have "segs q = dir_segs cwd p" by (simp add: q_def dir_segs_def segs_path_join)
  moreover have "isabs q" using assms(1) by (auto simp: q_def path_join_def isabs_def startswith_iff)
  ultimately have q: "segs q = dir_segs cwd p" "isabs q" "q \<noteq> []" by (auto simp: isabs_def)
  then have k: "0 < initial_slashes q" by (simp add: initial_slashes_def isabs_def)
  then obtain k' where k': "initial_slashes q = Suc k'" by (cases "initial_slashes q") auto
  have "[] \<notin> set (segs q)" by (auto dest: segs_no_slash)
  then have "norm_comps True (segs q) = no_dots (segs q)"
    using assms(2) q(1) by (simp add: norm_comps_no_dots)
  then have n: "normpath q = replicate (Suc k') slash @ join_str [slash] (no_dots (segs q))"
    using q(3) k k' by (simp add: normpath_def norm_comps_segs)
  then have "isabs (normpath q)" by (simp add: isabs_def)
  then have "isabs (abspath cwd p)" unfolding abspath_def q_def [symmetric] .
  moreover have "segs (abspath cwd p) = no_dots (segs q)"
    unfolding abspath_def q_def [symmetric] n segs_replicate segs_no_dots_join ..
  ultimately show ?thesis using q(1) by (simp add: dir_segs_def)
qed

section \<open>Names of links\<close>

definition link_names :: "testdata_item list \<Rightarrow> string list" where
  "link_names items =
     map (\<lambda>i. strip_root (data_link i)) (filter (\<lambda>i. \<not> has_sub ''..'' (data_target i)) items)"

text \<open>A relative name that does not climb, and a name of one component\<close>

definition plain_name :: "string \<Rightarrow> bool" where
  "plain_name n \<longleftrightarrow> \<not> isabs n \<and> ''..'' \<notin> set (segs n)"

definition single_name :: "string \<Rightarrow> bool" where
  "single_name n \<longleftrightarrow> segs n = [n] \<and> n \<noteq> ''.'' \<and> n \<noteq> ''..''"

lemma normpath_plain:
  assumes "plain_name n" and "no_dots (segs n) \<noteq> []"
  shows "normpath n = join_str [slash] (no_dots (segs n))"
proof -
  have "[] \<notin> set (segs n)" by (auto dest: segs_no_slash)
  then have "norm_comps False (segs n) = no_dots (segs n)"
    using assms(1) by (simp add: norm_comps_no_dots plain_name_def)
  moreover have "initial_slashes n = 0" using assms(1) by (simp add: initial_slashes_def plain_name_def isabs_def)
  moreover have "\<forall>c \<in> set (no_dots (segs n)). c \<noteq> []" by (auto simp: no_dots_def dest: segs_no_slash)
  ultimately show ?thesis
    using assms(2) join_str_Nil_iff [of "no_dots (segs n)" "[slash]"]
    by (auto simp: normpath_def norm_comps_segs)
qed

lemma clash_prefix:
  assumes "plain_name m" and "plain_name n" and "no_dots (segs m) \<noteq> []"
    and "prefix (no_dots (segs m)) (no_dots (segs n))"
  shows "clash (normpath n) (normpath m)"
proof -
  obtain t where t: "no_dots (segs n) = no_dots (segs m) @ t" using assms(4) by (auto simp: prefix_def)
  then have n: "no_dots (segs n) \<noteq> []" using assms(3) by simp
  note norm = normpath_plain [OF assms(1,3)] normpath_plain [OF assms(2) n]
  show ?thesis
  proof (cases "t = []")
    case False
    then have "normpath n = (normpath m @ [slash]) @ join_str [slash] t"
      unfolding norm t using join_str_append [OF assms(3) False] by simp
    then show ?thesis unfolding clash_def startswith_iff by blast
  qed (use norm t in \<open>simp add: clash_def\<close>)
qed

section \<open>Nothing outside changes\<close>

text \<open>The place of the runfiles directory, and that no link leads there\<close>

definition runfiles_at :: "runner \<Rightarrow> target \<Rightarrow> string list" where
  "runfiles_at r t = no_dots (path_at r (runfiles_dir r t))"

definition plain_runfiles :: "runner \<Rightarrow> target \<Rightarrow> fs \<Rightarrow> bool" where
  "plain_runfiles r t fs \<longleftrightarrow> isabs (r_cwd r) \<and> ''..'' \<notin> set (path_at r (runfiles_dir r t)) \<and>
     fs_tree fs \<and> solid fs (butlast (runfiles_at r t))"

lemma runfiles_relative: "\<not> isabs (runfiles_dir r t @ p)"
  by (simp add: isabs_def runfiles_dir_def slash_def)

lemma runfiles_end: "\<not> endswith (runfiles_dir r t) [slash]"
  by (simp add: endswith_iff runfiles_dir_def slash_def)

lemma runfiles_path: "path_at r (runfiles_dir r t) = segs (r_cwd r) @ segs (runfiles_dir r t)"
  using runfiles_relative [of r t "[]"] runfiles_end
  by (simp add: path_at_def os_segs_def dir_segs_def end_slash_def)

lemma runfiles_last: "last (path_at r (runfiles_dir r t)) \<noteq> ''.'' \<and> path_at r (runfiles_dir r t) \<noteq> []"
proof -
  let ?x = "''./'' @ executable r t"
  have "\<forall>c \<in> set (rev ''.runfiles''). c \<noteq> slash" by (simp add: slash_def)
  then have "takeWhile (\<lambda>c. c \<noteq> slash) (rev ''.runfiles'' @ rev ?x) =
      rev ''.runfiles'' @ takeWhile (\<lambda>c. c \<noteq> slash) (rev ?x)"
    by (intro takeWhile_append2) blast
  moreover have "rev (runfiles_dir r t) = rev ''.runfiles'' @ rev ?x"
    unfolding runfiles_dir_def by (simp only: rev_append append_assoc)
  ultimately have b: "basename (runfiles_dir r t) = rev (takeWhile (\<lambda>c. c \<noteq> slash) (rev ?x)) @ ''.runfiles''"
    unfolding basename_def by (simp only: rev_append rev_rev_ident)
  then have "basename (runfiles_dir r t) \<noteq> []" by simp
  then have "last (path_at r (runfiles_dir r t)) = basename (runfiles_dir r t)"
    "path_at r (runfiles_dir r t) \<noteq> []"
    using segs_basename [of "runfiles_dir r t"] by (simp_all add: runfiles_path)
  moreover have "length (basename (runfiles_dir r t)) \<noteq> length ''.''" unfolding b by simp
  ultimately show ?thesis by metis
qed

lemma in_runfiles_dirs: "dir_segs (r_cwd r) (in_runfiles r t n) = path_at r (runfiles_dir r t) @ segs n"
  using runfiles_relative [of r t "slash # n"]
  by (simp add: runfiles_path in_runfiles_def dir_segs_def segs_sep)

lemma in_runfiles_segs:
  "path_at r (in_runfiles r t n) = path_at r (runfiles_dir r t) @ segs n @ end_slash (in_runfiles r t n)"
  unfolding path_at_def [of r "in_runfiles r t n"] os_segs_def in_runfiles_dirs by simp

lemma join_runfiles: "\<not> isabs n \<Longrightarrow> path_join (runfiles_dir r t) n = in_runfiles r t n"
  using runfiles_end [of r t] by (simp add: path_join_def in_runfiles_def runfiles_dir_def)

lemma parent_dirs:
  "\<exists>q. dir_segs (r_cwd r) (dirname (in_runfiles r t n)) = path_at r (runfiles_dir r t) @ q \<and> prefix q (segs n)"
proof -
  let ?R = "runfiles_dir r t" and ?p = "in_runfiles r t n"
  obtain w where w: "?p = dirname ?p @ w" using dirname_prefix by blast
  have "\<not> isabs (dirname ?p @ w)"
    unfolding w [symmetric] unfolding in_runfiles_def by (rule runfiles_relative)
  then have rel: "\<not> isabs (dirname ?p)" unfolding isabs_def startswith_iff by (metis append_assoc)
  have seg: "segs ?p = segs ?R @ segs n" by (simp add: in_runfiles_def segs_sep)
  have "segs n \<noteq> []" if b: "basename ?p \<noteq> []"
  proof
    assume "segs n = []"
    then have "set n \<subseteq> {slash}" by (rule segs_Nil_slashes)
    then have "last ?p = slash" by (cases n rule: rev_cases) (auto simp: in_runfiles_def)
    then show False using b basename_last_slash [of ?p] by (simp add: in_runfiles_def)
  qed
  then obtain q where "segs (dirname ?p) = segs ?R @ q" "prefix q (segs n)"
    unfolding segs_dirname seg by (cases "basename ?p = []") (auto simp: butlast_append prefixeq_butlast)
  then show ?thesis using rel by (auto simp: dir_segs_def runfiles_path)
qed

lemma rs_do_Inr: "rs_do f s = Inr s' \<longleftrightarrow> (\<exists>fs'. f (rs_fs s) = Inr fs' \<and> s' = s\<lparr>rs_fs := fs'\<rparr>)"
  by (auto simp: rs_do_def bind_res_eq_Inr)

lemma rs_say_fs [simp]: "rs_fs (rs_say m s) = rs_fs s"
  by (simp add: rs_say_def)

text \<open>What the steps keep: no change outside \<open>R\<close>, and the links below \<open>R\<close> are at \<open>Ls\<close>.\<close>

definition kept_inside :: "string list \<Rightarrow> string list set \<Rightarrow> fs \<Rightarrow> fs \<Rightarrow> bool" where
  "kept_inside R Ls fs fs' \<longleftrightarrow> inside R Ls fs' \<and> same_outside R fs fs'"

lemma kept_inside_trans:
  "kept_inside R Ls a b \<Longrightarrow> kept_inside R Ls' b c \<Longrightarrow> kept_inside R Ls' a c"
  unfolding kept_inside_def using same_outside_trans by blast

lemma kept_inside_mono: "kept_inside R Ls a b \<Longrightarrow> Ls \<subseteq> Ls' \<Longrightarrow> kept_inside R Ls' a b"
  by (auto simp: kept_inside_def inside_def)

lemma symlink_inside:
  assumes "rs_do (fs_symlink d p) s = Inr s'" and "inside R Ls (rs_fs s)" and "''..'' \<notin> set p"
    and "no_dots p = R @ v" and "meets_none Ls v"
  shows "kept_inside R (insert v Ls) (rs_fs s) (rs_fs s')"
proof -
  have m: "fs_make (FLink d) p (rs_fs s) = Inr (rs_fs s')"
    using assms(1) by (auto simp: rs_do_Inr fs_symlink_def)
  note m = make_inside [OF m assms(2-5)]
  have "inside R (insert v Ls) ((rs_fs s)(R @ v := Some (FLink d)))"
    by (rule inside_upd [OF assms(2) m(1)]) auto
  then show ?thesis unfolding kept_inside_def m(2) by simp
qed

text \<open>A link of one component is put where its name says, whatever is there.\<close>

lemma meets_none_single: "meets_none Ls [c] \<longleftrightarrow> [c] \<notin> Ls"
  by (auto simp: meets_none_def prefix_Cons)

lemma single_symlink_inside:
  assumes "rs_do (fs_symlink d (path_at r (path_join (runfiles_dir r t) n))) s = Inr s'" and "single_name n"
    and "inside (runfiles_at r t) Ls (rs_fs s)" and "''..'' \<notin> set (path_at r (runfiles_dir r t))"
  shows "kept_inside (runfiles_at r t) (insert [n] Ls) (rs_fs s) (rs_fs s')"
proof -
  have n: "slash \<notin> set n" "n \<noteq> []" using assms(2) segs_no_slash [of n n] by (auto simp: single_name_def)
  then have "\<not> isabs n" by (cases n) (auto simp: isabs_def)
  then have j: "path_join (runfiles_dir r t) n = in_runfiles r t n" by (rule join_runfiles)
  have "\<not> endswith (in_runfiles r t n) [slash]"
  proof
    assume "endswith (in_runfiles r t n) [slash]"
    then obtain h where "(runfiles_dir r t @ [slash]) @ n = h @ [slash]"
      by (auto simp: endswith_iff in_runfiles_def)
    then have "last n = slash" using n(2) by (metis last_appendR last_snoc)
    then show False using n last_in_set [OF n(2)] by simp
  qed
  then have p: "path_at r (in_runfiles r t n) = path_at r (runfiles_dir r t) @ [n]"
    using assms(2) by (simp add: in_runfiles_segs end_slash_def single_name_def)
  have "fs_make (FLink d) (path_at r (runfiles_dir r t) @ [n]) (rs_fs s) = Inr (rs_fs s')"
    using assms(1) unfolding j p by (auto simp: rs_do_Inr fs_symlink_def)
  moreover have "solid (rs_fs s) (butlast (no_dots (path_at r (runfiles_dir r t) @ [n])))"
    using assms(2,3) by (simp add: inside_def runfiles_at_def single_name_def butlast_append)
  then have "fs_place (rs_fs s) (path_at r (runfiles_dir r t) @ [n]) = Some (runfiles_at r t @ [n])"
    using place_solid [of "rs_fs s" "path_at r (runfiles_dir r t) @ [n]"] assms(2,4)
    by (auto simp: runfiles_at_def single_name_def)
  ultimately have "rs_fs s' = (rs_fs s)(runfiles_at r t @ [n] := Some (FLink d))"
    by (auto simp: fs_make_def split: if_splits)
  moreover have "inside (runfiles_at r t) (insert [n] Ls) ((rs_fs s)(runfiles_at r t @ [n] := Some (FLink d)))"
    by (rule inside_upd [OF assms(3)]) auto
  ultimately show ?thesis by (simp add: kept_inside_def)
qed

lemma link_data_inside:
  assumes run: "link_data r t dest n s = Inr s'" and n: "plain_name n"
    and cwd: "isabs (r_cwd r)" "''..'' \<notin> set (path_at r (runfiles_dir r t))"
    and ins: "inside (runfiles_at r t) Ls (rs_fs s)" and none: "meets_none Ls (no_dots (segs n))"
  shows "kept_inside (runfiles_at r t) (insert (no_dots (segs n)) Ls) (rs_fs s) (rs_fs s')"
proof -
  let ?R = "runfiles_at r t" and ?v = "no_dots (segs n)" and ?s1 = "make_parent r t n s"
  let ?p = "path_at r (in_runfiles r t n)" and ?a = "path_at r (abspath (r_cwd r) (in_runfiles r t n))"
  have dd: "''..'' \<notin> set (dir_segs (r_cwd r) (in_runfiles r t n))"
    using n cwd(2) by (simp add: in_runfiles_dirs plain_name_def)
  have p: "''..'' \<notin> set ?p" "no_dots ?p = ?R @ ?v"
    using n cwd(2) by (simp_all add: in_runfiles_segs runfiles_at_def plain_name_def)
  have a: "''..'' \<notin> set ?a" "no_dots ?a = ?R @ ?v"
    using dd unfolding path_at_def [of r "abspath _ _"] os_segs_def abspath_segs [OF cwd(1) dd] in_runfiles_dirs
      runfiles_at_def by simp_all
  obtain q where q: "dir_segs (r_cwd r) (dirname (in_runfiles r t n)) = path_at r (runfiles_dir r t) @ q"
    "prefix q (segs n)" using parent_dirs by blast
  have "''..'' \<notin> set (path_at r (runfiles_dir r t) @ q)"
    using n cwd(2) set_mono_prefix [OF q(2)] by (auto simp: plain_name_def)
  then have k1: "kept_inside ?R Ls (rs_fs s) (rs_fs ?s1)"
    using makedirs_inside [OF _ ins, of "path_at r (runfiles_dir r t) @ q" _ _ "no_dots q"]
      meets_none_prefix [OF none prefix_no_dots [OF q(2)]]
    by (simp add: make_parent_def kept_inside_def q(1) runfiles_at_def prod_eq_iff)
  then have ins1: "inside ?R Ls (rs_fs ?s1)" by (simp add: kept_inside_def)
  have "kept_inside ?R (insert ?v Ls) (rs_fs ?s1) (rs_fs s')"
  proof (cases "fs_lexists (rs_fs ?s1) ?a")
    case False
    then show ?thesis using run symlink_inside [OF _ ins1 p none] by (simp add: link_data_def Let_def)
  next
    case lex: True
    show ?thesis
    proof (cases "fs_exists (rs_fs ?s1) ?a")
      case True
      then have "rs_fs s' = rs_fs ?s1" using run lex by (auto simp: link_data_def Let_def)
      then show ?thesis using ins1 by (auto simp: kept_inside_def inside_def)
    next
      case False
      obtain s2 dd m where s2: "rs_do (fs_remove ?a) ?s1 = Inr s2"
        and l: "rs_do (fs_symlink dd ?p) (rs_say m s2) = Inr s'"
        using run lex False by (auto simp: link_data_def Let_def bind_res_eq_Inr)
      have k2: "kept_inside ?R Ls (rs_fs ?s1) (rs_fs s2)"
        using s2 remove_inside [OF _ ins1 a none] by (auto simp: rs_do_Inr kept_inside_def)
      then have "inside ?R Ls (rs_fs (rs_say m s2))" by (simp add: kept_inside_def)
      from symlink_inside [OF l this p none] k2 show ?thesis using kept_inside_trans by simp
    qed
  qed
  with k1 show ?thesis by (rule kept_inside_trans)
qed

text \<open>
  The target asks for no link that climbs or is absolute. Test data is not put under the name of
  the build directory or of a prebuilt library: those are links already, and lead outside.
\<close>

definition own_links :: "runner \<Rightarrow> (string \<times> string) list \<Rightarrow> string list set" where
  "own_links r files = insert [basename (r_build_dir r)] ((\<lambda>f. [snd f]) ` set files)"

definition plain_links :: "runner \<Rightarrow> target \<Rightarrow> bool" where
  "plain_links r t \<longleftrightarrow> single_name (basename (r_build_dir r)) \<and>
     (\<forall>files. get_prebuilt_files r t = Inr files \<longrightarrow>
        (\<forall>f \<in> set files. single_name (snd f)) \<and>
        (\<forall>items. d_testdata (t_data t) = Some items \<longrightarrow>
           (\<forall>n \<in> set (link_names items). plain_name n \<and> meets_none (own_links r files) (no_dots (segs n)))))"

lemma prebuilt_link_inside:
  assumes "prebuilt_link r t f s = Inr s'" and "single_name (snd f)"
    and "inside (runfiles_at r t) Ls (rs_fs s)" and "''..'' \<notin> set (path_at r (runfiles_dir r t))"
  shows "kept_inside (runfiles_at r t) (insert [snd f] Ls) (rs_fs s) (rs_fs s')"
proof -
  have "rs_fs s' = rs_fs s \<or> (\<exists>d. rs_do (fs_symlink d (path_at r (path_join (runfiles_dir r t) (snd f)))) s = Inr s')"
    using assms(1) by (auto simp: prebuilt_link_def Let_def split: if_splits)
  then show ?thesis
    using single_symlink_inside [OF _ assms(2-4)] assms(3) by (auto simp: kept_inside_def inside_def)
qed

text \<open>The places of the links made for test data so far\<close>

definition data_links :: "string list \<Rightarrow> string list set" where
  "data_links names = (\<lambda>n. no_dots (segs n)) ` set names"

lemma valid_meets_none:
  assumes "check_link_name n names = Inr ValidLink" and "plain_name n" and "\<forall>m \<in> set names. plain_name m"
  shows "meets_none (data_links names) (no_dots (segs n))"
  using assms clash_prefix [of _ n]
  by (auto simp: meets_none_def data_links_def check_link_name_def check_link_items_valid split: if_splits)

lemma prepare_item_inside:
  assumes run: "prepare_item r t item (names, s) = Inr (names', s')"
    and n: "\<not> has_sub ''..'' (data_target item) \<Longrightarrow> plain_name (strip_root (data_link item)) \<and>
        meets_none own (no_dots (segs (strip_root (data_link item))))"
    and cwd: "isabs (r_cwd r)" "''..'' \<notin> set (path_at r (runfiles_dir r t))"
    and names: "\<forall>m \<in> set names. plain_name m"
    and ins: "inside (runfiles_at r t) (own \<union> data_links names) (rs_fs s)"
  shows "kept_inside (runfiles_at r t) (own \<union> data_links names') (rs_fs s) (rs_fs s') \<and>
    (\<forall>m \<in> set names'. plain_name m)"
proof (cases "has_sub ''..'' (data_target item)")
  case True
  then have "(names', s') = (names, s)" using run by (simp add: prepare_item_def)
  then show ?thesis using ins names by (simp add: kept_inside_def)
next
  case False
  let ?n = "strip_root (data_link item)"
  have c: "check_link_name ?n names = Inr ValidLink" "names' = names @ [?n]"
    "link_data r t (data_target item) ?n s = Inr s'"
    using prepare_item_Inr [OF run] False by (auto simp: Let_def)
  have none: "meets_none (own \<union> data_links names) (no_dots (segs ?n))"
    using valid_meets_none [OF c(1) _ names] n [OF False] by (auto simp: meets_none_def)
  have "kept_inside (runfiles_at r t) (insert (no_dots (segs ?n)) (own \<union> data_links names)) (rs_fs s) (rs_fs s')"
    using link_data_inside [OF c(3) _ cwd ins none] n [OF False] by simp
  then show ?thesis using names n [OF False] by (simp add: c(2) data_links_def)
qed

lemma prepare_test_data_inside:
  assumes run: "prepare_test_data r t s = Inr s'"
    and n: "\<And>items n. d_testdata (t_data t) = Some items \<Longrightarrow> n \<in> set (link_names items) \<Longrightarrow>
        plain_name n \<and> meets_none own (no_dots (segs n))"
    and cwd: "isabs (r_cwd r)" "''..'' \<notin> set (path_at r (runfiles_dir r t))"
    and ins: "inside (runfiles_at r t) own (rs_fs s)"
  shows "same_outside (runfiles_at r t) (rs_fs s) (rs_fs s')"
proof (cases "d_testdata (t_data t)")
  case (Some items)
  then obtain names where f: "fold_res (prepare_item r t) items ([], s) = Inr (names, s')"
    using run by (auto simp: prepare_test_data_def bind_res_eq_Inr)
  let ?P = "\<lambda>st. kept_inside (runfiles_at r t) (own \<union> data_links (fst st)) (rs_fs s) (rs_fs (snd st)) \<and>
      (\<forall>m \<in> set (fst st). plain_name m)"
  have "?P (names, s')"
  proof (rule fold_res_invariant [where P = ?P, OF _ _ f])
    show "?P ([], s)" using ins by (simp add: kept_inside_def data_links_def)
  next
    fix item st st' assume item: "item \<in> set items" and P: "?P st" and step: "prepare_item r t item st = Inr st'"
    have m: "\<not> has_sub ''..'' (data_target item) \<Longrightarrow> plain_name (strip_root (data_link item)) \<and>
        meets_none own (no_dots (segs (strip_root (data_link item))))"
      using n [OF Some] item by (auto simp: link_names_def)
    have "prepare_item r t item (fst st, snd st) = Inr (fst st', snd st')" using step by simp
    from prepare_item_inside [OF this m cwd] P show "?P st'"
      using kept_inside_trans unfolding kept_inside_def by blast
  qed
  then show ?thesis by (simp add: kept_inside_def)
qed (use run in \<open>simp add: prepare_test_data_def\<close>)

text \<open>The directory is new: nothing is below it.\<close>

lemma tree_free_below: "fs_tree fs \<Longrightarrow> fs r = None \<Longrightarrow> fs (r @ q) = None"
proof (induction q rule: rev_induct)
  case (snoc c q)
  then have "fs (r @ q) = None" by simp
  with snoc.prems(1) show ?case
    unfolding fs_tree_def by (metis append_assoc option.distinct(1))
qed simp

lemma fresh_runfiles:
  assumes plain: "plain_runfiles r t fs"
    and mk: "fs_make FDir (path_at r (runfiles_dir r t)) (fs_rmtree (path_at r (runfiles_dir r t)) fs) = Inr fs'"
  shows "inside (runfiles_at r t) {} fs' \<and> same_outside (runfiles_at r t) fs fs'"
proof -
  let ?p = "path_at r (runfiles_dir r t)" and ?R = "runfiles_at r t"
  let ?fs1 = "fs_rmtree ?p fs"
  have p: "''..'' \<notin> set ?p" "solid fs (butlast (no_dots ?p))" "fs_tree fs"
    using plain by (simp_all add: plain_runfiles_def runfiles_at_def)
  have R: "?R \<noteq> []" using runfiles_last [of r t]
    by (auto simp: runfiles_at_def no_dots_def filter_empty_conv dest: last_in_set)
  have place: "fs_place fs ?p = Some ?R"
    using place_solid [OF p(2,1)] runfiles_last [of r t] by (simp add: runfiles_at_def)
  note out = rmtree_outside [OF place]
  have "\<not> below ?R q" if "prefix q (butlast ?R)" for q
  proof
    assume "below ?R q"
    then have "length ?R \<le> length q" by (auto simp: below_iff)
    moreover have "length q \<le> length ?R - 1" using prefix_length_le [OF that] by simp
    ultimately show False using R by (cases ?R) auto
  qed
  then have solid1: "solid ?fs1 (butlast ?R)"
    using p(2) out by (simp add: solid_def same_outside_def runfiles_at_def)
  then have place1: "fs_place ?fs1 ?p = Some ?R"
    using place_solid [of ?fs1 ?p] p(1) runfiles_last [of r t] by (simp add: runfiles_at_def)
  then have fs': "?fs1 ?R = None" "fs' = ?fs1(?R := Some FDir)"
    using mk by (auto simp: fs_make_def split: if_splits)
  have free: "?fs1 (?R @ q) = None" for q
    using fs'(1) tree_free_below [OF p(3), of ?R q] place
    by (auto simp: fs_rmtree_def split: if_splits)
  have "solid fs' ?R"
  proof -
    have "prefix q ?R \<longleftrightarrow> q = ?R \<or> prefix q (butlast ?R)" for q
      using prefix_snoc [of q "butlast ?R" "last ?R"] R by simp
    then show ?thesis using solid1 by (simp add: solid_def fs'(2))
  qed
  then have "inside ?R {} fs'" using free by (auto simp: inside_def fs'(2))
  moreover have "same_outside ?R fs fs'"
    unfolding fs'(2) using out same_outside_upd(2) by (rule same_outside_trans)
  ultimately show ?thesis by simp
qed

lemma prebuilt_links_inside:
  assumes "fold_res (prebuilt_link r t) files s = Inr s'" and "\<forall>f \<in> set files. single_name (snd f)"
    and "inside (runfiles_at r t) {[b]} (rs_fs s)" and "''..'' \<notin> set (path_at r (runfiles_dir r t))"
  shows "kept_inside (runfiles_at r t) (insert [b] ((\<lambda>f. [snd f]) ` set files)) (rs_fs s) (rs_fs s')"
  using assms(1-3)
proof -
  let ?Ls = "insert [b] ((\<lambda>f. [snd f]) ` set files)"
  show ?thesis
  proof (rule fold_res_invariant [where P = "\<lambda>u. kept_inside (runfiles_at r t) ?Ls (rs_fs s) (rs_fs u)", OF _ _ assms(1)])
    show "kept_inside (runfiles_at r t) ?Ls (rs_fs s) (rs_fs s)"
      using assms(3) by (auto simp: kept_inside_def inside_def)
  next
    fix f u u' assume f: "f \<in> set files" and P: "kept_inside (runfiles_at r t) ?Ls (rs_fs s) (rs_fs u)"
      and step: "prebuilt_link r t f u = Inr u'"
    have "kept_inside (runfiles_at r t) (insert [snd f] ?Ls) (rs_fs u) (rs_fs u')"
      using prebuilt_link_inside [OF step _ _ assms(4), of ?Ls] assms(2) f P by (simp add: kept_inside_def)
    moreover have "insert [snd f] ?Ls = ?Ls" using f by auto
    ultimately show "kept_inside (runfiles_at r t) ?Ls (rs_fs s) (rs_fs u')"
      using kept_inside_trans [OF P] by simp
  qed
qed

lemma prepare_env_stays:
  assumes run: "prepare_env r t s = Inr s'" and plain: "plain_links r t" and dir: "plain_runfiles r t (rs_fs s)"
  shows "same_outside (runfiles_at r t) (rs_fs s) (rs_fs s')"
proof -
  let ?p = "path_at r (runfiles_dir r t)" and ?R = "runfiles_at r t" and ?b = "basename (r_build_dir r)"
  obtain s2 s3 files s4 where mk: "rs_do (fs_mkdir ?p) (s\<lparr>rs_fs := fs_rmtree ?p (rs_fs s)\<rparr>) = Inr s2"
    and link: "rs_do (fs_symlink (abspath (r_cwd r) (r_build_dir r))
             (path_at r (path_join (runfiles_dir r t) ?b))) s2 = Inr s3"
    and files: "get_prebuilt_files r t = Inr files" and pre: "fold_res (prebuilt_link r t) files s3 = Inr s4"
    and data: "prepare_test_data r t s4 = Inr s'"
    using run unfolding prepare_env_def Let_def bind_res_eq_Inr by blast
  have names: "single_name ?b" "\<forall>f \<in> set files. single_name (snd f)"
    using plain files by (simp_all add: plain_links_def)
  have cwd: "isabs (r_cwd r)" "''..'' \<notin> set ?p" using dir by (simp_all add: plain_runfiles_def)
  have "fs_make FDir ?p (fs_rmtree ?p (rs_fs s)) = Inr (rs_fs s2)"
    using mk by (auto simp: rs_do_Inr fs_mkdir_def)
  then have i2: "kept_inside ?R {} (rs_fs s) (rs_fs s2)"
    using fresh_runfiles [OF dir] by (simp add: kept_inside_def)
  then have i3: "kept_inside ?R {[?b]} (rs_fs s2) (rs_fs s3)"
    using single_symlink_inside [OF link names(1) _ cwd(2), of "{}"] by (simp add: kept_inside_def)
  then have i4: "kept_inside ?R (own_links r files) (rs_fs s3) (rs_fs s4)"
    using prebuilt_links_inside [OF pre names(2) _ cwd(2), of ?b] by (simp add: kept_inside_def own_links_def)
  then have "same_outside ?R (rs_fs s4) (rs_fs s')"
    using prepare_test_data_inside [OF data _ cwd] plain files
    by (auto simp: kept_inside_def plain_links_def)
  with i2 i3 i4 show ?thesis unfolding kept_inside_def using same_outside_trans by blast
qed

end
