(* ===== verification/RunDemo.thy ===== *)
theory RunDemo
  imports BinaryRunner TargetBase DemoOptions
begin

text \<open>A build with one test, \<open>//t:n\<close>, and a small file system to run it in.\<close>

definition demo_test :: "string \<Rightarrow> target" where
  "demo_test n = (new_target CcTest ''t'' n ''cc_test'' [])\<lparr>t_data := empty_data\<lparr>d_testdata := Some []\<rparr>\<rparr>"

definition demo_runner :: "string \<Rightarrow> runner" where
  "demo_runner n = \<lparr>r_targets = [((''t'', n), demo_test n)], r_build_dir = ''b'', r_options = demo_options,
     r_database = [((''t'', n), demo_test n)], r_cwd = ''/'', r_realpath = (\<lambda>_ p. p)\<rparr>"

text \<open>Every path of at most two components is a directory, those of three with a short name are files.\<close>

definition demo_fs :: fs where
  "demo_fs p = (if length p \<le> 2 then Some FDir
     else if length p = 3 \<and> length (last p) = 1 then Some (FFile []) else None)"

definition demo_start :: run_state where
  "demo_start = \<lparr>rs_fs = demo_fs, rs_console = []\<rparr>"

lemma demo_start_fs: "rs_fs demo_start = demo_fs"
  by (simp add: demo_start_def)

end
