(* ===== verification/RunnerProperties.thy ===== *)
theory RunnerProperties
  imports RunnerCorrect RunDemo
begin

text \<open>The properties of the runfiles directory, and what its checks let through.\<close>

section \<open>The accepted names\<close>

lemma prepare_items_names:
  assumes "fold_res (prepare_item r t) items ([], s) = Inr (names, s')"
  shows "names = link_names items"
proof -
  have "fst (names, s') = link_names items"
  proof (rule fold_res_prefix [where I = "\<lambda>ys st. fst st = link_names ys", OF _ _ assms])
    fix ys x zs st st' assume "fst st = link_names ys" "prepare_item r t x st = Inr st'"
    note I = this(1) and step = this(2)
    show "fst st' = link_names (ys @ [x])"
    proof (cases "has_sub ''..'' (data_target x)")
      case True
      then have "st' = st" using step by (cases st) (simp add: prepare_item_def)
      then show ?thesis using I True by (simp add: link_names_def)
    next
      case False
      have "prepare_item r t x (fst st, snd st) = Inr (fst st', snd st')" using step by simp
      from prepare_item_Inr [OF this] False I show ?thesis by (simp add: link_names_def Let_def)
    qed
  qed (simp add: link_names_def)
  then show ?thesis by simp
qed

definition with_data :: "testdata_item list \<Rightarrow> target \<Rightarrow> target" where
  "with_data items t = t\<lparr>t_data := (t_data t)\<lparr>d_testdata := Some items\<rparr>\<rparr>"

section \<open>The properties\<close>

text \<open>C27: When the test data of a target has been prepared, the names of its links are pairwise
  independent: normalised, no two are equal and none begins with another and a slash. (So \<open>.\<close>
  and an absolute name are taken for names beside the relative ones.)\<close>

theorem testdata_links_independent:
  assumes "prepare_test_data r t s = Inr s'" and "d_testdata (t_data t) = Some items"
  shows "independent (link_names items)"
proof -
  from assms obtain names where
    f: "fold_res (prepare_item r t) items ([], s) = Inr (names, s')"
    by (auto simp: prepare_test_data_def res_simps)
  show ?thesis using prepare_items_independent [OF f] unfolding prepare_items_names [OF f] .
qed

theorem testdata_links_independent_witness: "independent [''a'', ''b'']"
proof -
  let ?t = "with_data [DataFile ''a'', DataFile ''b''] (demo_test ''x'')"
  have "is_ok (prepare_test_data (demo_runner ''x'') ?t \<lparr>rs_fs = (\<lambda>p. if length p \<le> 3 then Some FDir else None),
      rs_console = []\<rparr>)" by code_simp
  then obtain s' where "prepare_test_data (demo_runner ''x'') ?t
      \<lparr>rs_fs = (\<lambda>p. if length p \<le> 3 then Some FDir else None), rs_console = []\<rparr> = Inr s'"
    by (auto simp: is_ok_iff)
  from testdata_links_independent [OF this, of "[DataFile ''a'', DataFile ''b'']"] show ?thesis
    by (simp add: with_data_def link_names_def strip_root_def startswith_def has_sub_def)
qed

text \<open>C39: A name is accepted exactly when it is not in the list and, normalised, neither equals
  nor contains nor lies inside a normalised name of the list.\<close>

theorem check_link_name_valid:
  "check_link_name name names = Inr ValidLink \<longleftrightarrow>
     name \<notin> set names \<and> \<not> (\<exists>item \<in> set names. clash (normpath name) (normpath item))"
  by (auto simp: check_link_name_def check_link_items_valid)

text \<open>C26: Preparing the directory of a target changes nothing outside that directory, links in
  the middle of a path followed, whatever was in it before. The directory is reached without
  links. No name of a link is absolute or has a \<open>..\<close> component, those of the build directory and
  of prebuilt libraries are single names, and no test data is put under one of them.\<close>

theorem prepare_env_inside:
  assumes "prepare_env r t s = Inr s'" and "plain_links r t" and "plain_runfiles r t (rs_fs s)"
  shows "same_outside (runfiles_at r t) (rs_fs s) (rs_fs s')"
  by (rule prepare_env_stays [OF assms])

lemma demo_fs_tree: "fs_tree demo_fs"
  by (auto simp: fs_tree_def demo_fs_def)

lemma demo_runfiles:
  "path_at (demo_runner ''x'') (runfiles_dir (demo_runner ''x'') (with_data items (demo_test ''x''))) =
     [''.'', ''b'', ''t'', ''x.runfiles'']"
proof -
  have "runfiles_dir (demo_runner ''x'') (with_data items (demo_test ''x'')) =
      runfiles_dir (demo_runner ''x'') (demo_test ''x'')"
    by (simp add: runfiles_dir_def executable_def with_data_def)
  moreover have "path_at (demo_runner ''x'') (runfiles_dir (demo_runner ''x'') (demo_test ''x'')) =
      [''.'', ''b'', ''t'', ''x.runfiles'']" by code_simp
  ultimately show ?thesis by simp
qed

theorem prepare_env_inside_witness:
  "\<exists>s'. prepare_env (demo_runner ''x'') (with_data [DataLink ''f'' ''d/g''] (demo_test ''x'')) demo_start = Inr s' \<and>
     same_outside [''b'', ''t'', ''x.runfiles''] demo_fs (rs_fs s')"
proof -
  let ?t = "with_data [DataLink ''f'' ''d/g''] (demo_test ''x'')"
  have "is_ok (prepare_env (demo_runner ''x'') ?t demo_start)" by code_simp
  then obtain s' where s': "prepare_env (demo_runner ''x'') ?t demo_start = Inr s'" by (auto simp: is_ok_iff)
  have at: "runfiles_at (demo_runner ''x'') ?t = [''b'', ''t'', ''x.runfiles'']"
    by (simp add: runfiles_at_def demo_runfiles)
  have names: "single_name (basename (r_build_dir (demo_runner ''x'')))" "plain_name ''d/g''"
    "basename (r_build_dir (demo_runner ''x'')) = ''b''" "no_dots (segs ''d/g'') = [''d'', ''g'']" by code_simp+
  have link: "link_names [DataLink ''f'' ''d/g''] = [''d/g'']" by code_simp
  have "get_prebuilt_files (demo_runner ''x'') ?t = Inr []" by code_simp
  then have plain: "plain_links (demo_runner ''x'') ?t"
    using names link by (simp add: plain_links_def own_links_def meets_none_def with_data_def)
  have "isabs (r_cwd (demo_runner ''x''))" by code_simp
  then have dir: "plain_runfiles (demo_runner ''x'') ?t (rs_fs demo_start)"
    using demo_fs_tree
    by (auto simp: plain_runfiles_def at demo_runfiles demo_start_fs solid_def demo_fs_def dest: prefix_length_le)
  from prepare_env_inside [OF s' plain dir] s' show ?thesis unfolding demo_start_fs at by blast
qed

text \<open>Test data under the name of the build directory: the runner has made that a link, and the
  new link is made in the build directory itself.\<close>

lemma build_link_escapes:
  "case prepare_env (demo_runner ''x'') (with_data [DataLink ''f'' ''b/t/zz''] (demo_test ''x'')) demo_start of
     Inl e \<Rightarrow> False
   | Inr s \<Rightarrow> rs_fs s [''b'', ''t'', ''zz''] = Some (FLink ''/t/f'')"
  by code_simp

text \<open>An absolute name is taken for another name than the relative one: the second link is made
  through the first, in the package of the target.\<close>

lemma absolute_name_escapes:
  "case prepare_env (demo_runner ''x'')
      (with_data [DataLink ''f'' ''/a'', DataLink ''g'' ''a/zz''] (demo_test ''x'')) demo_start of
     Inl e \<Rightarrow> False
   | Inr s \<Rightarrow> rs_fs s [''t'', ''f'', ''zz''] = Some (FLink ''/t/g'')"
  by code_simp

text \<open>Only the file a link leads to is checked for \<open>..\<close>, not the name of the link: a test can
  make links outside its directory.\<close>

lemma link_escapes:
  "case prepare_env (demo_runner ''x'') (with_data [DataLink ''f'' ''../zz''] (demo_test ''x'')) demo_start of
     Inl e \<Rightarrow> False
   | Inr s \<Rightarrow> rs_fs s [''b'', ''t'', ''zz''] = Some (FLink ''/t/f'')"
  by code_simp

text \<open>Two link names that differ but are equal once normalised are not reported: the check
  indexes past the end of the string and raises.\<close>

lemma equal_links_raise:
  assumes "name \<noteq> name'" and "normpath name = normpath name'"
  shows "check_link_name name [name'] = Inl IndexError"
  using assms by (simp add: check_link_name_def Let_def startswith_def)

lemma equal_links_raise_demo: "check_link_name ''./a'' [''a''] = Inl IndexError"
proof -
  have "''./a'' \<noteq> ''a''" by simp
  moreover have "normpath ''./a'' = normpath ''a''" by code_simp
  ultimately show ?thesis by (rule equal_links_raise)
qed

end
