(* ===== verification/TestRunner.thy ===== *)
theory TestRunner
  imports RunnerCorrect TargetBase
    "HOL-Library.List_Lexorder" "HOL-Library.Char_ord" "HOL-Library.Product_Lexorder"
begin

text \<open>
  \<open>test_runner.py\<close>: which tests an incremental run selects, from the stamp file the last run
  left, and what the run reports and writes. The checksum, the times of a file, the clock, the
  environment and the length of the written file come from outside; the record \<open>surroundings\<close>
  holds them. A written stamp is kept as the value it denotes.
\<close>

section \<open>Stamps\<close>

text \<open>
  A checksum of the last run is a pair, the mark \<open>(0, 0)\<close> of a failed test, or the single value
  older versions wrote.
\<close>

datatype md5_val = Md5 string string | FailedMark | OldMark

datatype env_val = EnvDict "(string, string) dict" | EnvStr string

record stamp =
  st_md5 :: "(string, md5_val) dict"
  st_testarg :: "string option"
  st_env :: "env_val option"
  st_time :: "int option"

definition empty_stamp :: stamp where
  "empty_stamp = \<lparr>st_md5 = [], st_testarg = None, st_env = None, st_time = None\<rparr>"

text \<open>Reading the stamp file: there is none, it cannot be read, or it gives a stamp.\<close>

datatype history = NoHistory | BadHistory | History stamp

record surroundings =
  u_md5sum :: "string \<Rightarrow> string"
  u_times :: "string \<Rightarrow> string"
  u_now :: int
  u_environ :: "(string, string) dict"
  u_color :: bool
  u_stamp_size :: "stamp \<Rightarrow> int"
  u_seconds :: "int \<Rightarrow> string"

datatype test_line = Say msg | Plain string | Print string

definition get_ignore_set :: "string list" where
  "get_ignore_set =
     [''PWD'', ''OLDPWD'', ''SHLVL'', ''LC_ALL'', ''TST_HACK_BASH_SESSION_ID'',
      ''BUILD_URL'', ''BUILD_TAG'', ''SVN_REVISION'', ''BUILD_ID'', ''EXECUTOR_NUMBER'',
      ''START_USER'', ''EXECUTOR_NUMBER'', ''NODE_NAME'', ''NODE_LABELS'', ''IF_PKG'',
      ''BUILD_NUMBER'', ''HUDSON_COOKIE'', ''SSH_CLIENT'', ''SSH2_CLIENT'', ''VIM'',
      ''MYVIMRC'', ''VIMRUNTIME''] @
     map (\<lambda>i. ''SVN_REVISION_'' @ dec_nat i) [0..<30]"

definition diff_env ::
  "(string, string) dict \<Rightarrow> (string, string) dict \<Rightarrow> (string, string) dict \<times> (string, string) dict" where
  "diff_env a b = (filter (\<lambda>kv. kv \<notin> set b) a, filter (\<lambda>kv. kv \<notin> set a) b)"

definition repr_env :: "(string, string) dict \<Rightarrow> string" where
  "repr_env e = repr_kwargs (map (\<lambda>kv. (fst kv, PStr (snd kv))) e)"

section \<open>Why all tests run\<close>

record test_state =
  tr_last :: stamp
  tr_stamp :: stamp
  tr_reason :: string
  tr_run_list :: "tkey list"
  tr_run_map :: "(tkey, run_item) dict"
  tr_skipped :: "tkey list"
  tr_lines :: "test_line list"

definition tr_say :: "test_line list \<Rightarrow> test_state \<Rightarrow> test_state" where
  "tr_say ls s = s\<lparr>tr_lines := tr_lines s @ ls\<rparr>"

definition stamp_env :: "surroundings \<Rightarrow> (string, string) dict" where
  "stamp_env u = sort (filter (\<lambda>kv. fst kv \<notin> set get_ignore_set) (u_environ u))"

definition load_history :: "bool \<Rightarrow> history \<Rightarrow> stamp \<times> string \<times> test_line list" where
  "load_history fulltest h =
     (if fulltest then (empty_stamp, [], [])
      else case h of
             NoHistory \<Rightarrow> (empty_stamp, [], [])
           | History st \<Rightarrow> (st, [], [])
           | BadHistory \<Rightarrow> (empty_stamp, ''NO_HISTORY'',
               [Say (Warning ''error loading incremental test history, will run full test'')]))"

definition old_env :: "stamp \<Rightarrow> (string, string) dict" where
  "old_env st = (case st_env st of Some (EnvDict e) \<Rightarrow> e | _ \<Rightarrow> [])"

definition env_lines :: "(string, string) dict \<Rightarrow> (string, string) dict \<Rightarrow> test_line list" where
  "env_lines new_env old =
     (case diff_env new_env old of (new, gone) \<Rightarrow>
        [Say (Info ''all tests will run due to test environments changed:'')] @
        (if new \<noteq> [] then [Say (Info (''new environments: '' @ repr_env new))] else []) @
        (if gone \<noteq> [] then [Say (Info (''old environments: '' @ repr_env gone))] else []))"

definition valid_interval :: "int" where
  "valid_interval = 86400"

text \<open>The checks of the constructor, each of which can replace the reason\<close>

definition check_args :: "test_state \<Rightarrow> test_state" where
  "check_args s =
     (if st_testarg (tr_stamp s) \<noteq> st_testarg (tr_last s)
      then tr_say [Say (Info ''all tests will run due to test arguments changed'')] (s\<lparr>tr_reason := ''ARGUMENT''\<rparr>)
      else s)"

definition check_env :: "surroundings \<Rightarrow> test_state \<Rightarrow> test_state" where
  "check_env u s =
     (if set (stamp_env u) \<noteq> set (old_env (tr_last s))
      then tr_say (env_lines (stamp_env u) (old_env (tr_last s))) (s\<lparr>tr_reason := ''ENVIRONMENT''\<rparr>)
      else s)"

definition check_time :: "surroundings \<Rightarrow> test_state \<Rightarrow> test_state" where
  "check_time u s =
     (let interval = u_now u - (case st_time (tr_last s) of None \<Rightarrow> 0 | Some t \<Rightarrow> t)
      in if interval \<ge> valid_interval \<or> interval < 0
         then tr_say [Say (Info ''all tests will run due to all passed tests are invalid now'')]
                (s\<lparr>tr_reason := ''STALE''\<rparr>)
         else s)"

definition new_test_state :: "surroundings \<Rightarrow> options \<Rightarrow> history \<Rightarrow> test_state" where
  "new_test_state u opts h =
     (case load_history (o_fulltest opts) h of (prev, reason, ls) \<Rightarrow>
      let s = \<lparr>tr_last = prev,
               tr_stamp = \<lparr>st_md5 = [], st_testarg = Some (u_md5sum u (repr_strs (o_args opts))),
                           st_env = Some (EnvDict (stamp_env u)), st_time = Some (u_now u)\<rparr>,
               tr_reason = reason, tr_run_list = [], tr_run_map = [], tr_skipped = [], tr_lines = ls\<rparr>
      in if o_fulltest opts then s\<lparr>tr_reason := ''FULLTEST''\<rparr>
         else check_time u (check_env u (check_args s)))"

section \<open>Checksums\<close>

definition file_exists :: "runner \<Rightarrow> fs \<Rightarrow> string \<Rightarrow> bool" where
  "file_exists r fs p = fs_exists fs (path_at r p)"

definition test_file_name :: "runner \<Rightarrow> target \<Rightarrow> string" where
  "test_file_name r t = abspath (r_cwd r) (executable r t)"

definition dynamic_lib :: "runner \<Rightarrow> fs \<Rightarrow> tkey \<Rightarrow> string list res" where
  "dynamic_lib r fs dep =
     bind_res (dict_index (r_database r) dep) (\<lambda>d.
     let lib = abspath (r_cwd r) (path_joins (r_build_dir r) [t_path d, ''lib'' @ t_name d @ ''.so''])
     in Inr (if has_sub ''cc_library'' (t_type d) \<and> file_exists r fs lib then [lib] else []))"

definition data_file :: "runner \<Rightarrow> fs \<Rightarrow> target \<Rightarrow> testdata_item \<Rightarrow> string list" where
  "data_file r fs t i =
     (let d = data_target i;
          p = abspath (r_cwd r) (if startswith d ''//'' then drop 2 d else t_path t @ [slash] @ d)
      in if has_sub ''..'' d then [] else if file_exists r fs p then [p] else [])"

definition get_test_target_md5sum :: "surroundings \<Rightarrow> runner \<Rightarrow> fs \<Rightarrow> target \<Rightarrow> md5_val res" where
  "get_test_target_md5sum u r fs t =
     (let exe = test_file_name r t;
          own = (if file_exists r fs exe then [exe] else [])
      in bind_res (if d_dynamic_link (t_data t)
                   then bind_res (dict_index (r_database r) (t_path t, t_name t)) (\<lambda>self.
                          map_res (dynamic_lib r fs) (t_expanded_deps self))
                   else Inr []) (\<lambda>libs.
         case d_testdata (t_data t) of
           None \<Rightarrow> Inl KeyError
         | Some items \<Rightarrow>
             Inr (Md5 (u_md5sum u (concat (map (u_times u) (sort (own @ concat libs)))))
                      (u_md5sum u (concat (map (u_times u) (sort (concat (map (data_file r fs t) items)))))))))"

section \<open>Selecting the tests\<close>

definition run_entry :: "string \<Rightarrow> string \<Rightarrow> run_item" where
  "run_entry file reason = \<lparr>ri_runfile = file, ri_result = [], ri_reason = reason, ri_costtime = 0\<rparr>"

fun change_reason :: "md5_val \<Rightarrow> md5_val option \<Rightarrow> string" where
  "change_reason new (Some FailedMark) = ''LAST_FAILED''"
| "change_reason (Md5 a b) (Some (Md5 c d)) = (if a \<noteq> c then ''BINARY'' else ''TESTDATA'')"
| "change_reason new (Some (Md5 c d)) = ''TESTDATA''"
| "change_reason new (Some OldMark) = ''STALE''"
| "change_reason new None = ''STALE''"

definition set_md5 :: "string \<Rightarrow> md5_val \<Rightarrow> test_state \<Rightarrow> test_state" where
  "set_md5 file v s = s\<lparr>tr_stamp := (tr_stamp s)\<lparr>st_md5 := dict_set file v (st_md5 (tr_stamp s))\<rparr>\<rparr>"

text \<open>One round of \<open>_generate_inctest_run_list\<close>\<close>

definition select_test ::
  "surroundings \<Rightarrow> runner \<Rightarrow> fs \<Rightarrow> tkey list \<Rightarrow> target \<Rightarrow> test_state \<Rightarrow> test_state res" where
  "select_test u r fs direct t s0 =
     (if t_type t \<noteq> ''cc_test'' then Inr s0
      else
        let key = (t_path t, t_name t);
            file = test_file_name r t
        in bind_res (get_test_target_md5sum u r fs t) (\<lambda>new.
           let s = set_md5 file new s0;
               entry = (\<lambda>reason. dict_set key (run_entry file reason) (tr_run_map s))
           in Inr
             (if tr_reason s \<noteq> [] then s\<lparr>tr_run_map := entry (tr_reason s)\<rparr>
              else if key \<in> set direct then
                s\<lparr>tr_run_list := tr_run_list s @ [t_key t], tr_run_map := entry ''EXPLICIT''\<rparr>
              else
                let old = map_of (st_md5 (tr_last s)) file
                in if old \<noteq> Some new then
                     s\<lparr>tr_run_list := tr_run_list s @ [t_key t],
                       tr_run_map := entry (change_reason new old)\<rparr>
                   else s)))"

definition keep_old_md5 :: "test_state \<Rightarrow> test_state" where
  "keep_old_md5 s =
     fold (\<lambda>kv. set_md5 (fst kv) (snd kv))
       (filter (\<lambda>kv. fst kv \<notin> set (keys (st_md5 (tr_stamp s)))) (st_md5 (tr_last s))) s"

definition generate_inctest_run_list ::
  "surroundings \<Rightarrow> runner \<Rightarrow> fs \<Rightarrow> tkey list \<Rightarrow> test_state \<Rightarrow> test_state res" where
  "generate_inctest_run_list u r fs direct s =
     bind_res (fold_res (select_test u r fs direct) (map snd (r_targets r)) s) (\<lambda>s'. Inr (keep_old_md5 s'))"

section \<open>The jobs\<close>

definition test_env :: "surroundings \<Rightarrow> runner \<Rightarrow> target \<Rightarrow> (string, string) dict" where
  "test_env u r t =
     dict_set ''HEAPCHECK'' (d_heap_check (t_data t))
       (dict_set ''GTEST_OUTPUT'' ''xml''
         (dict_set ''GTEST_COLOR'' (if u_color u then ''yes'' else ''no'')
           (environ_add_path (u_environ u) ''LD_LIBRARY_PATH'' (runfiles_dir r t))))"

definition test_job :: "surroundings \<Rightarrow> runner \<Rightarrow> target \<Rightarrow> job" where
  "test_job u r t = \<lparr>jb_target = t, jb_run_dir = runfiles_dir r t, jb_env = test_env u r t,
     jb_cmd = test_file_name r t # o_args (r_options r)\<rparr>"

text \<open>One round of the loop of \<open>run\<close>: skip the test, or prepare its directory and add its job\<close>

definition prepare_test ::
  "surroundings \<Rightarrow> runner \<Rightarrow> target \<Rightarrow> test_state \<times> run_state \<times> job list \<Rightarrow>
   (test_state \<times> run_state \<times> job list) res" where
  "prepare_test u r t st =
     (case st of (s, rs, jobs) \<Rightarrow>
      if t_type t \<noteq> ''cc_test'' then Inr st
      else if tr_reason s = [] \<and> t_key t \<notin> set (tr_run_list s) \<and> \<not> d_always_run (t_data t)
      then Inr (s\<lparr>tr_skipped := tr_skipped s @ [(t_path t, t_name t)]\<rparr>, rs, jobs)
      else bind_res (prepare_env r t rs) (\<lambda>rs'. Inr (s, rs', jobs @ [test_job u r t])))"

section \<open>What a run reports and writes\<close>

definition title_str :: string where
  "title_str = replicate 13 CHR ''=''"

definition fail_line :: "target \<Rightarrow> test_line" where
  "fail_line t = Print (t_path t @ '':'' @ t_name t @ '', exit code: '' @
     (case d_test_exit_code (t_data t) of None \<Rightarrow> [] | Some c \<Rightarrow> dec_int c))"

definition mark_failed :: "runner \<Rightarrow> target \<Rightarrow> test_state \<Rightarrow> test_state" where
  "mark_failed r t s =
     (let file = test_file_name r t
      in if file \<in> set (keys (st_md5 (tr_stamp s))) then set_md5 file FailedMark s else s)"

definition detail_line :: "surroundings \<Rightarrow> tkey \<times> run_item \<Rightarrow> test_line" where
  "detail_line u ki =
     (let key = fst ki; item = snd ki;
          result = (if has_sub ''SIG'' (ri_result item) then ''with '' @ ri_result item else ri_result item)
      in Plain (fst key @ '':'' @ snd key @ '' triggered by '' @ ri_reason item @ '', exit('' @ result @
           ''), cost '' @ u_seconds u (ri_costtime item) @ '' s''))"

definition show_tests_detail :: "surroundings \<Rightarrow> test_state \<Rightarrow> test_state" where
  "show_tests_detail u s =
     tr_say ((if tr_run_map s \<noteq> []
              then [Say (Info (title_str @ '' Testing detail '' @ title_str))] else []) @
             map (detail_line u) (sort_key (\<lambda>ki. ri_costtime (snd ki)) (tr_run_map s))) s"

definition show_skipped_tests_detail :: "test_state \<Rightarrow> test_state" where
  "show_skipped_tests_detail s =
     (if tr_skipped s = [] then s
      else let s' = s\<lparr>tr_skipped := sort (tr_skipped s)\<rparr>
           in tr_say (Say (Info ''skipped tests'') #
                map (\<lambda>k. Print (fst k @ '':'' @ snd k)) (tr_skipped s')) s')"

definition show_skipped_tests_summary :: "test_state \<Rightarrow> test_state" where
  "show_skipped_tests_summary s =
     tr_say [Say (Info (dec_nat (length (tr_skipped s)) @ '' tests skipped when doing incremental test'')),
             Say (Info ''to run all tests, please specify --full-test argument'')] s"

text \<open>The files a run leaves: the stamp, unless it is oversized, and the details\<close>

record written =
  w_stamp :: "stamp option"
  w_detail :: "(tkey, run_item) dict option"

definition write_test_history :: "surroundings \<Rightarrow> test_state \<Rightarrow> written \<times> test_state" where
  "write_test_history u s =
     (if u_stamp_size u (tr_stamp s) > 2 * 1024 * 1024 * 1024
      then (\<lparr>w_stamp = None, w_detail = None\<rparr>,
            tr_say [Say (Warning ''Will remove the md5sum file for incremental test for it is oversized'')] s)
      else (\<lparr>w_stamp = Some (tr_stamp s), w_detail = None\<rparr>, s))"

definition finish_tests :: "surroundings \<Rightarrow> options \<Rightarrow> test_state \<Rightarrow> written \<times> test_state" where
  "finish_tests u opts s =
     (case write_test_history u s of (w, s1) \<Rightarrow>
      if o_show_details opts
      then (w\<lparr>w_detail := Some (tr_run_map s1)\<rparr>,
            show_tests_detail u
              (if tr_reason s1 = []
               then show_skipped_tests_summary (show_skipped_tests_detail s1) else s1))
      else (w, if tr_reason s1 = [] then show_skipped_tests_summary s1 else s1))"

text \<open>The end of \<open>run\<close>, once the scheduler has returned\<close>

definition report :: "surroundings \<Rightarrow> runner \<Rightarrow> sched \<Rightarrow> test_state \<Rightarrow> int \<times> written \<times> test_state" where
  "report u r sch s0 =
     (let n = ts_num_run sch; failed = ts_failed sch;
          s = tr_say [Say (Info (title_str @ '' Testing Summary '' @ title_str)),
                      Say (Info (''Run '' @ dec_nat n @ '' test targets''))]
                (s0\<lparr>tr_run_map := ts_run_map sch\<rparr>)
      in if failed \<noteq> []
         then (1, finish_tests u (r_options r)
                (tr_say [Say (Info (dec_int (int n - int (length failed)) @ '' tests passed''))]
                  (fold (mark_failed r) failed
                    (tr_say (Say (Error (dec_nat (length failed) @ '' tests failed:'')) #
                       map fail_line failed) s))))
         else (0, finish_tests u (r_options r) (tr_say [Say (Info ''All tests passed!'')] s)))"

text \<open>
  \<open>run\<close>. The scheduler may never return (\<open>two_workers_can_block\<close>), so it is a relation; the
  processes of the tests may change the file system in any way.
\<close>

inductive test_run ::
  "(job \<Rightarrow> process) \<Rightarrow> nat \<Rightarrow> surroundings \<Rightarrow> runner \<Rightarrow> tkey list \<Rightarrow> test_state \<Rightarrow> run_state \<Rightarrow>
   (int \<times> written \<times> test_state) res \<Rightarrow> bool"
  for proc cpus u r direct s rs where
  no_list: "generate_inctest_run_list u r (rs_fs rs) direct s = Inl e \<Longrightarrow>
    test_run proc cpus u r direct s rs (Inl e)"
| no_env: "generate_inctest_run_list u r (rs_fs rs) direct s = Inr s1 \<Longrightarrow>
    fold_res (prepare_test u r) (map snd (r_targets r)) (s1, rs, []) = Inl e \<Longrightarrow>
    test_run proc cpus u r direct s rs (Inl e)"
| no_clean: "generate_inctest_run_list u r (rs_fs rs) direct s = Inr s1 \<Longrightarrow>
    fold_res (prepare_test u r) (map snd (r_targets r)) (s1, rs, []) = Inr (s2, rs2, jobs) \<Longrightarrow>
    schedule_jobs proc cpus (o_test_jobs (r_options r)) jobs (new_sched (tr_run_map s2)) sch \<Longrightarrow>
    clean_env r (rs2\<lparr>rs_fs := fs'\<rparr>) = Inl e \<Longrightarrow>
    test_run proc cpus u r direct s rs (Inl e)"
| returned: "generate_inctest_run_list u r (rs_fs rs) direct s = Inr s1 \<Longrightarrow>
    fold_res (prepare_test u r) (map snd (r_targets r)) (s1, rs, []) = Inr (s2, rs2, jobs) \<Longrightarrow>
    schedule_jobs proc cpus (o_test_jobs (r_options r)) jobs (new_sched (tr_run_map s2)) sch \<Longrightarrow>
    clean_env r (rs2\<lparr>rs_fs := fs'\<rparr>) = Inr rs3 \<Longrightarrow>
    test_run proc cpus u r direct s rs
      (Inr (report u r sch (tr_say (map Say (rs_console rs3 @ ts_console sch)) s2)))"

inductive_cases test_run_InrE: "test_run proc cpus u r direct s rs (Inr out)"

text \<open>\<open>Blade.test\<close>: a new runner, then its \<open>run\<close>\<close>

definition run_tests ::
  "(job \<Rightarrow> process) \<Rightarrow> nat \<Rightarrow> surroundings \<Rightarrow> runner \<Rightarrow> tkey list \<Rightarrow> history \<Rightarrow> run_state \<Rightarrow>
   (int \<times> written \<times> test_state) res \<Rightarrow> bool" where
  "run_tests proc cpus u r direct h rs out \<longleftrightarrow>
     test_run proc cpus u r direct (new_test_state u (r_options r) h) rs out"

end
