(* ===== verification/TestRunnerCorrect.thy ===== *)
theory TestRunnerCorrect
  imports TestRunner SchedulerProperties
begin

text \<open>What a run of the tests selects, skips, records and returns.\<close>

declare split_paired_All [simp del] split_paired_Ex [simp del]

section \<open>Selection\<close>

definition md5_changed :: "surroundings \<Rightarrow> runner \<Rightarrow> fs \<Rightarrow> stamp \<Rightarrow> target \<Rightarrow> bool" where
  "md5_changed u r fs prev t =
     (case get_test_target_md5sum u r fs t of
        Inl _ \<Rightarrow> False
      | Inr new \<Rightarrow> map_of (st_md5 prev) (test_file_name r t) \<noteq> Some new)"

definition needs_run :: "surroundings \<Rightarrow> runner \<Rightarrow> fs \<Rightarrow> tkey list \<Rightarrow> stamp \<Rightarrow> target \<Rightarrow> bool" where
  "needs_run u r fs direct prev t \<longleftrightarrow> t_type t = ''cc_test'' \<and>
     ((t_path t, t_name t) \<in> set direct \<or> md5_changed u r fs prev t)"

definition is_test :: "target \<Rightarrow> bool" where
  "is_test t \<longleftrightarrow> t_type t = ''cc_test''"

lemma set_md5_simps [simp]:
  "tr_last (set_md5 f v s) = tr_last s" "tr_reason (set_md5 f v s) = tr_reason s"
  "tr_run_list (set_md5 f v s) = tr_run_list s" "tr_run_map (set_md5 f v s) = tr_run_map s"
  "tr_skipped (set_md5 f v s) = tr_skipped s" "tr_lines (set_md5 f v s) = tr_lines s"
  "st_md5 (tr_stamp (set_md5 f v s)) = dict_set f v (st_md5 (tr_stamp s))"
  "st_testarg (tr_stamp (set_md5 f v s)) = st_testarg (tr_stamp s)"
  "st_env (tr_stamp (set_md5 f v s)) = st_env (tr_stamp s)"
  "st_time (tr_stamp (set_md5 f v s)) = st_time (tr_stamp s)"
  by (simp_all add: set_md5_def)

lemma tr_say_simps [simp]:
  "tr_last (tr_say l s) = tr_last s" "tr_reason (tr_say l s) = tr_reason s"
  "tr_run_list (tr_say l s) = tr_run_list s" "tr_run_map (tr_say l s) = tr_run_map s"
  "tr_skipped (tr_say l s) = tr_skipped s" "tr_stamp (tr_say l s) = tr_stamp s"
  by (simp_all add: tr_say_def)

lemma md5sum_Md5: "get_test_target_md5sum u r fs t = Inr new \<Longrightarrow> \<exists>a b. new = Md5 a b"
  by (auto simp: get_test_target_md5sum_def Let_def res_simps split: option.splits if_splits)

lemma select_not_test: "\<not> is_test t \<Longrightarrow> select_test u r fs direct t s = Inr s"
  by (simp add: select_test_def is_test_def)

lemma select_test_Inr:
  assumes "select_test u r fs direct t s = Inr s'" and "is_test t"
  obtains new where "get_test_target_md5sum u r fs t = Inr new"
    and "st_md5 (tr_stamp s') = dict_set (test_file_name r t) new (st_md5 (tr_stamp s))"
    and "tr_run_list s' = tr_run_list s @
      (if tr_reason s = [] \<and> needs_run u r fs direct (tr_last s) t then [t_key t] else [])"
    and "tr_last s' = tr_last s" "tr_reason s' = tr_reason s" "tr_skipped s' = tr_skipped s"
proof -
  from assms obtain new where n: "get_test_target_md5sum u r fs t = Inr new"
    by (auto simp: select_test_def is_test_def Let_def res_simps)
  show thesis
    by (rule that [OF n])
      (use assms n in \<open>auto simp: select_test_def is_test_def Let_def needs_run_def md5_changed_def
        split: if_splits\<close>)
qed

lemma select_test_keeps:
  assumes "select_test u r fs direct t s = Inr s'"
  shows "tr_last s' = tr_last s \<and> tr_reason s' = tr_reason s \<and> tr_skipped s' = tr_skipped s \<and>
    tr_run_list s' = tr_run_list s @
      (if tr_reason s = [] \<and> needs_run u r fs direct (tr_last s) t then [t_key t] else [])"
proof (cases "is_test t")
  case True
  from select_test_Inr [OF assms True] show ?thesis by metis
next
  case False
  then show ?thesis using assms by (simp add: select_not_test needs_run_def is_test_def)
qed

lemma select_tests:
  assumes "fold_res (select_test u r fs direct) ts s = Inr s'"
  shows "tr_last s' = tr_last s \<and> tr_reason s' = tr_reason s \<and> tr_skipped s' = tr_skipped s \<and>
    tr_run_list s' = tr_run_list s @
      (if tr_reason s = [] then map t_key (filter (needs_run u r fs direct (tr_last s)) ts) else [])"
proof (rule fold_res_prefix [where I = "\<lambda>ys s'. tr_last s' = tr_last s \<and> tr_reason s' = tr_reason s \<and>
    tr_skipped s' = tr_skipped s \<and> tr_run_list s' = tr_run_list s @
      (if tr_reason s = [] then map t_key (filter (needs_run u r fs direct (tr_last s)) ys) else [])",
    OF _ _ assms])
  fix ys x zs q q' assume "select_test u r fs direct x q = Inr q'"
    and "tr_last q = tr_last s \<and> tr_reason q = tr_reason s \<and> tr_skipped q = tr_skipped s \<and>
      tr_run_list q = tr_run_list s @
        (if tr_reason s = [] then map t_key (filter (needs_run u r fs direct (tr_last s)) ys) else [])"
  with select_test_keeps [of u r fs direct x q q']
  show "tr_last q' = tr_last s \<and> tr_reason q' = tr_reason s \<and> tr_skipped q' = tr_skipped s \<and>
      tr_run_list q' = tr_run_list s @
        (if tr_reason s = [] then map t_key (filter (needs_run u r fs direct (tr_last s)) (ys @ [x])) else [])"
    by simp
qed simp

lemma fold_set_md5:
  "tr_last (fold (\<lambda>kv. set_md5 (fst kv) (snd kv)) l s) = tr_last s"
  "tr_reason (fold (\<lambda>kv. set_md5 (fst kv) (snd kv)) l s) = tr_reason s"
  "tr_run_list (fold (\<lambda>kv. set_md5 (fst kv) (snd kv)) l s) = tr_run_list s"
  "tr_skipped (fold (\<lambda>kv. set_md5 (fst kv) (snd kv)) l s) = tr_skipped s"
  "st_md5 (tr_stamp (fold (\<lambda>kv. set_md5 (fst kv) (snd kv)) l s)) =
     fold (\<lambda>kv. dict_set (fst kv) (snd kv)) l (st_md5 (tr_stamp s))"
  by (induction l arbitrary: s) simp_all

lemma keep_old_simps [simp]:
  "tr_last (keep_old_md5 s) = tr_last s" "tr_reason (keep_old_md5 s) = tr_reason s"
  "tr_run_list (keep_old_md5 s) = tr_run_list s" "tr_skipped (keep_old_md5 s) = tr_skipped s"
  by (simp_all add: keep_old_md5_def fold_set_md5)

lemma map_of_fold_dict_set:
  "distinct (keys l) \<Longrightarrow> map_of (fold (\<lambda>kv. dict_set (fst kv) (snd kv)) l d) = map_of d ++ map_of l"
proof (induction l arbitrary: d)
  case (Cons kv l)
  obtain a b where kv: "kv = (a, b)" by (cases kv)
  have n: "map_of l a = None" using Cons.prems by (simp add: map_of_None_iff kv)
  have "map_of (fold (\<lambda>kv. dict_set (fst kv) (snd kv)) l d') = map_of d' ++ map_of l" for d'
    using Cons by simp
  then show ?case using n by (simp add: kv fun_eq_iff map_add_def split: option.split)
qed simp

lemma map_of_filter_key: "map_of (filter (\<lambda>kv. P (fst kv)) d) k = (if P k then map_of d k else None)"
  by (induction d) auto

lemma keep_old_lookup:
  assumes "dict_wf (st_md5 (tr_last s))"
  shows "map_of (st_md5 (tr_stamp (keep_old_md5 s))) =
    map_of (st_md5 (tr_last s)) ++ map_of (st_md5 (tr_stamp s))"
proof
  fix f
  let ?new = "st_md5 (tr_stamp s)" and ?old = "st_md5 (tr_last s)"
  have d: "distinct (keys (filter (\<lambda>kv. fst kv \<notin> set (keys ?new)) ?old))"
    using assms by (auto simp: dict_wf_def distinct_map intro: inj_on_subset)
  have "map_of (filter (\<lambda>kv. fst kv \<notin> set (keys ?new)) ?old) f =
      (if f \<in> set (keys ?new) then None else map_of ?old f)"
    by (rule trans [OF map_of_filter_key [where P = "\<lambda>k. k \<notin> set (keys ?new)"]]) simp
  moreover have "f \<notin> set (keys ?new) \<longleftrightarrow> map_of ?new f = None" by (simp add: map_of_None_iff)
  ultimately show "map_of (st_md5 (tr_stamp (keep_old_md5 s))) f = (map_of ?old ++ map_of ?new) f"
    unfolding keep_old_md5_def fold_set_md5 map_of_fold_dict_set [OF d]
    by (auto simp: map_add_def split: option.splits)
qed

lemma generate_list:
  assumes "generate_inctest_run_list u r fs direct s = Inr s'"
  shows "tr_last s' = tr_last s \<and> tr_reason s' = tr_reason s \<and> tr_skipped s' = tr_skipped s \<and>
    tr_run_list s' = tr_run_list s @ (if tr_reason s = []
      then map t_key (filter (needs_run u r fs direct (tr_last s)) (map snd (r_targets r))) else [])"
  using assms select_tests by (auto simp: generate_inctest_run_list_def res_simps)

section \<open>Skipping\<close>

definition to_run :: "test_state \<Rightarrow> target \<Rightarrow> bool" where
  "to_run s t \<longleftrightarrow> is_test t \<and> (tr_reason s \<noteq> [] \<or> t_key t \<in> set (tr_run_list s) \<or> d_always_run (t_data t))"

lemma prepare_tests:
  assumes "fold_res (prepare_test u r) ts (s, rs, []) = Inr (s', rs', jobs)"
  shows "s' = s\<lparr>tr_skipped := tr_skipped s @
      map (\<lambda>t. (t_path t, t_name t)) (filter (\<lambda>t. is_test t \<and> \<not> to_run s t) ts)\<rparr> \<and>
    jobs = map (test_job u r) (filter (to_run s) ts)"
proof -
  let ?I = "\<lambda>ys st. fst st = s\<lparr>tr_skipped := tr_skipped s @
      map (\<lambda>t. (t_path t, t_name t)) (filter (\<lambda>t. is_test t \<and> \<not> to_run s t) ys)\<rparr> \<and>
    snd (snd st) = map (test_job u r) (filter (to_run s) ys)"
  have "?I ts (s', rs', jobs)"
  proof (rule fold_res_prefix [where I = ?I, OF _ _ assms])
    fix ys x zs st st' assume "?I ys st" "prepare_test u r x st = Inr st'"
    then show "?I (ys @ [x]) st'"
      by (cases st) (auto simp: prepare_test_def to_run_def is_test_def res_simps split: if_splits)
  qed simp
  then show ?thesis by simp
qed

text \<open>What the constructor leaves empty\<close>

definition fresh :: "test_state \<Rightarrow> bool" where
  "fresh s \<longleftrightarrow> tr_run_list s = [] \<and> tr_skipped s = [] \<and> st_md5 (tr_stamp s) = [] \<and> tr_run_map s = []"

lemma new_test_state_fresh: "fresh (new_test_state u opts h)"
  by (cases "load_history (o_fulltest opts) h")
    (auto simp: fresh_def new_test_state_def Let_def check_args_def check_env_def check_time_def)

lemma new_test_state_last:
  "o_fulltest opts = False \<Longrightarrow> tr_last (new_test_state u opts (History st)) = st"
  by (simp add: new_test_state_def load_history_def Let_def check_args_def check_env_def check_time_def)

text \<open>The tests a run has to run, from the state the run starts in\<close>

definition must_run ::
  "surroundings \<Rightarrow> runner \<Rightarrow> fs \<Rightarrow> tkey list \<Rightarrow> test_state \<Rightarrow> target \<Rightarrow> bool" where
  "must_run u r fs direct s t \<longleftrightarrow> is_test t \<and>
     (tr_reason s \<noteq> [] \<or> needs_run u r fs direct (tr_last s) t \<or> d_always_run (t_data t))"

definition keys_ok :: "runner \<Rightarrow> bool" where
  "keys_ok r \<longleftrightarrow> distinct (map t_key (map snd (r_targets r))) \<and>
     list_all (\<lambda>t. t_key t = (t_path t, t_name t)) (map snd (r_targets r))"

lemma to_run_must_run:
  assumes g: "generate_inctest_run_list u r fs direct s = Inr s1" and "fresh s" and k: "keys_ok r"
    and t: "t \<in> set (map snd (r_targets r))"
  shows "to_run s1 t = must_run u r fs direct s t"
proof -
  let ?N = "needs_run u r fs direct (tr_last s)"
  define ts where "ts = map snd (r_targets r)"
  have "t_key t \<in> set (map t_key (filter ?N ts)) \<longleftrightarrow> ?N t"
  proof
    assume "t_key t \<in> set (map t_key (filter ?N ts))"
    then obtain t' where t': "t' \<in> set ts" "?N t'" "t_key t' = t_key t" by auto
    have "distinct (map t_key ts)" using k by (simp only: keys_ok_def ts_def)
    then have "inj_on t_key (set ts)" by (simp only: distinct_map)
    with t' t have "t' = t" by (auto simp only: ts_def dest: inj_onD)
    then show "?N t" using t'(2) by simp
  qed (use t in \<open>auto simp only: ts_def set_map set_filter\<close>)
  then show ?thesis
    using generate_list [OF g] \<open>fresh s\<close> by (auto simp: to_run_def must_run_def fresh_def ts_def)
qed

section \<open>A whole run\<close>

lemma mark_failed_keeps:
  "tr_skipped (fold (mark_failed r) l s) = tr_skipped s" "tr_reason (fold (mark_failed r) l s) = tr_reason s"
  "tr_last (fold (mark_failed r) l s) = tr_last s" "tr_run_list (fold (mark_failed r) l s) = tr_run_list s"
  by (induction l arbitrary: s) (simp_all add: mark_failed_def Let_def)

lemma fold_mark_failed:
  "map_of (st_md5 (tr_stamp (fold (mark_failed r) l s))) f =
     (if f \<in> test_file_name r ` set l \<and> map_of (st_md5 (tr_stamp s)) f \<noteq> None then Some FailedMark
      else map_of (st_md5 (tr_stamp s)) f)"
  by (induction l arbitrary: s) (auto simp: mark_failed_def Let_def map_of_None_iff)

lemma show_fields:
  "tr_skipped (show_tests_detail u s) = tr_skipped s" "tr_stamp (show_tests_detail u s) = tr_stamp s"
  "tr_skipped (show_skipped_tests_summary s) = tr_skipped s"
  "mset (tr_skipped (show_skipped_tests_detail s)) = mset (tr_skipped s)"
  by (simp_all only: show_tests_detail_def show_skipped_tests_summary_def tr_say_simps)
    (simp add: show_skipped_tests_detail_def Let_def)

lemma write_fields:
  "tr_skipped (snd (write_test_history u s)) = tr_skipped s"
  "w_stamp (fst (write_test_history u s)) = None \<or> w_stamp (fst (write_test_history u s)) = Some (tr_stamp s)"
  unfolding write_test_history_def
  by (simp_all only: if_distrib [where f = fst] if_distrib [where f = snd] fst_conv snd_conv tr_say_simps
      if_distrib [where f = tr_skipped] if_distrib [where f = w_stamp] written.select_convs if_cancel split: if_split)
    blast

lemma finish_tests_fields:
  "mset (tr_skipped (snd (finish_tests u opts s))) = mset (tr_skipped s)"
  "w_stamp (fst (finish_tests u opts s)) \<in> {None, Some (tr_stamp s)}"
proof -
  obtain w1 s1 where h: "write_test_history u s = (w1, s1)" by (cases "write_test_history u s")
  have k: "tr_skipped s1 = tr_skipped s" "w_stamp w1 = None \<or> w_stamp w1 = Some (tr_stamp s)"
    using write_fields [of u s] by (simp_all only: h fst_conv snd_conv)
  have f: "finish_tests u opts s =
    (if o_show_details opts
     then (w1\<lparr>w_detail := Some (tr_run_map s1)\<rparr>, show_tests_detail u
       (if tr_reason s1 = [] then show_skipped_tests_summary (show_skipped_tests_detail s1) else s1))
     else (w1, if tr_reason s1 = [] then show_skipped_tests_summary s1 else s1))"
    unfolding finish_tests_def h prod.case ..
  show "mset (tr_skipped (snd (finish_tests u opts s))) = mset (tr_skipped s)"
    by (cases "o_show_details opts"; cases "tr_reason s1 = []") (simp_all add: f show_fields k)
  show "w_stamp (fst (finish_tests u opts s)) \<in> {None, Some (tr_stamp s)}"
    using k(2) by (cases "o_show_details opts") (simp_all add: f)
qed

lemma mark_failed_stamp:
  "tr_stamp q = tr_stamp q' \<Longrightarrow> tr_stamp (fold (mark_failed r) l q) = tr_stamp (fold (mark_failed r) l q')"
proof (induction l arbitrary: q q')
  case (Cons t l)
  have "tr_stamp (mark_failed r t q) = tr_stamp (mark_failed r t q')"
    by (simp only: mark_failed_def Let_def set_md5_def Cons.prems if_distrib [where f = tr_stamp]
        test_state.select_convs test_state.update_convs test_state.surjective)
      (simp add: Cons.prems)
  from Cons.IH [OF this] show ?case by simp
qed simp

lemma finished_fields:
  assumes "finish_tests u opts q = (w, s')"
  shows "mset (tr_skipped s') = mset (tr_skipped q)" "w_stamp w \<in> {None, Some (tr_stamp q)}"
  using finish_tests_fields [of u opts q] assms by simp_all

lemma report_fields:
  assumes "report u r sch s = (code, w, s')"
  shows "mset (tr_skipped s') = mset (tr_skipped s) \<and> code = (if ts_failed sch = [] then 0 else 1) \<and>
    w_stamp w \<in> {None, Some (tr_stamp (fold (mark_failed r) (ts_failed sch) s))}"
proof (cases "ts_failed sch = []")
  case True
  then have c: "code = 0" and fin: "\<exists>l l'. finish_tests u (r_options r)
      (tr_say l (tr_say l' (s\<lparr>tr_run_map := ts_run_map sch\<rparr>))) = (w, s')"
    using assms unfolding report_def Let_def by (simp, simp, blast)
  from fin obtain l l' where "finish_tests u (r_options r)
      (tr_say l (tr_say l' (s\<lparr>tr_run_map := ts_run_map sch\<rparr>))) = (w, s')" by blast
  from finished_fields [OF this] show ?thesis using True c by simp
next
  case False
  then have c: "code = 1" and fin: "\<exists>l l' l''. finish_tests u (r_options r)
      (tr_say l (fold (mark_failed r) (ts_failed sch)
        (tr_say l' (tr_say l'' (s\<lparr>tr_run_map := ts_run_map sch\<rparr>))))) = (w, s')"
    using assms unfolding report_def Let_def by (simp, simp, blast)
  from fin obtain l l' l'' where "finish_tests u (r_options r)
      (tr_say l (fold (mark_failed r) (ts_failed sch)
        (tr_say l' (tr_say l'' (s\<lparr>tr_run_map := ts_run_map sch\<rparr>))))) = (w, s')" by blast
  moreover have "tr_stamp (fold (mark_failed r) (ts_failed sch)
        (tr_say l' (tr_say l'' (s\<lparr>tr_run_map := ts_run_map sch\<rparr>)))) =
      tr_stamp (fold (mark_failed r) (ts_failed sch) s)" by (rule mark_failed_stamp) simp
  ultimately show ?thesis using finished_fields [of u] False c by (fastforce simp: mark_failed_keeps)
qed

text \<open>The jobs of a run, and whether a test of it failed\<close>

definition run_jobs :: "surroundings \<Rightarrow> runner \<Rightarrow> fs \<Rightarrow> tkey list \<Rightarrow> test_state \<Rightarrow> job list" where
  "run_jobs u r fs direct s =
     map (test_job u r) (filter (must_run u r fs direct s) (map snd (r_targets r)))"

definition test_exit ::
  "(job \<Rightarrow> process) \<Rightarrow> nat \<Rightarrow> surroundings \<Rightarrow> runner \<Rightarrow> fs \<Rightarrow> tkey list \<Rightarrow> test_state \<Rightarrow> target \<Rightarrow> int option" where
  "test_exit proc cpus u r fs direct s t =
     exit_of proc (run_redirected cpus (o_test_jobs (r_options r)) (run_jobs u r fs direct s) (test_job u r t))
       (test_job u r t)"

definition test_failed ::
  "(job \<Rightarrow> process) \<Rightarrow> nat \<Rightarrow> surroundings \<Rightarrow> runner \<Rightarrow> fs \<Rightarrow> tkey list \<Rightarrow> test_state \<Rightarrow> target \<Rightarrow> bool" where
  "test_failed proc cpus u r fs direct s t \<longleftrightarrow>
     must_run u r fs direct s t \<and> test_exit proc cpus u r fs direct s t \<noteq> Some 0"

lemma test_env_PWD: "''PWD'' \<in> set (keys (u_environ u)) \<Longrightarrow> ''PWD'' \<in> set (keys (test_env u r t))"
  by (auto simp: test_env_def environ_add_path_def split: option.splits)

lemma test_job_target [simp]: "jb_target (test_job u r t) = t"
  by (simp add: test_job_def)

lemma test_run_parts:
  assumes run: "test_run proc cpus u r direct s rs (Inr (code, w, s'))" and f: "fresh s" and k: "keys_ok r"
  obtains s1 sch where "generate_inctest_run_list u r (rs_fs rs) direct s = Inr s1"
    and "schedule_jobs proc cpus (o_test_jobs (r_options r)) (run_jobs u r (rs_fs rs) direct s)
      (new_sched (tr_run_map s1)) sch"
    and "mset (tr_skipped s') = mset (map t_key
      (filter (\<lambda>t. is_test t \<and> \<not> must_run u r (rs_fs rs) direct s t) (map snd (r_targets r))))"
    and "code = (if ts_failed sch = [] then 0 else 1)"
    and "w_stamp w \<in> {None, Some (tr_stamp (fold (mark_failed r) (ts_failed sch) s1))}"
proof -
  let ?ts = "map snd (r_targets r)"
  let ?M = "must_run u r (rs_fs rs) direct s"
  obtain s1 s2 rs2 jobs sch ls
    where g: "generate_inctest_run_list u r (rs_fs rs) direct s = Inr s1"
      and p: "fold_res (prepare_test u r) ?ts (s1, rs, []) = Inr (s2, rs2, jobs)"
      and sched: "schedule_jobs proc cpus (o_test_jobs (r_options r)) jobs (new_sched (tr_run_map s2)) sch"
      and rep: "report u r sch (tr_say ls s2) = (code, w, s')"
    using run by (rule test_run_InrE) metis
  note P = prepare_tests [OF p]
  have eq: "filter (to_run s1) ?ts = filter ?M ?ts"
    by (rule filter_cong [OF refl to_run_must_run [OF g f k]])
  have "filter (\<lambda>t. is_test t \<and> \<not> to_run s1 t) ?ts = filter (\<lambda>t. is_test t \<and> \<not> ?M t) ?ts"
    by (rule filter_cong [OF refl]) (simp only: to_run_must_run [OF g f k])
  moreover have "map (\<lambda>t. (t_path t, t_name t)) (filter Q ?ts) = map t_key (filter Q ?ts)" for Q
    using k unfolding keys_ok_def list_all_iff by (intro map_cong) (auto simp only: set_filter)
  moreover have "tr_skipped s1 = []" using generate_list [OF g] f by (simp add: fresh_def)
  ultimately have s2: "s2 = s1\<lparr>tr_skipped := map t_key (filter (\<lambda>t. is_test t \<and> \<not> ?M t) ?ts)\<rparr>"
    using P by simp
  have marks: "tr_stamp (fold (mark_failed r) l (tr_say ls s2)) = tr_stamp (fold (mark_failed r) l s1)" for l
    by (rule mark_failed_stamp) (simp add: s2)
  note R = report_fields [OF rep]
  show thesis
  proof (rule that [OF g])
    show "schedule_jobs proc cpus (o_test_jobs (r_options r)) (run_jobs u r (rs_fs rs) direct s)
      (new_sched (tr_run_map s1)) sch"
      using sched P eq by (simp add: s2 run_jobs_def)
    show "mset (tr_skipped s') = mset (map t_key (filter (\<lambda>t. is_test t \<and> \<not> ?M t) ?ts))"
      using R by (simp add: s2)
    show "w_stamp w \<in> {None, Some (tr_stamp (fold (mark_failed r) (ts_failed sch) s1))}"
      using R by (simp only: marks)
  qed (use R in simp)
qed

end
