(* ===== verification/TestRunnerProperties.thy ===== *)
theory TestRunnerProperties
  imports TestRunnerCorrect RunDemo
begin

text \<open>The properties of a run of the tests, and of two runs one after the other.\<close>

declare split_paired_All [simp del] split_paired_Ex [simp del]

section \<open>The failed tests and the stamp\<close>

definition files_ok :: "runner \<Rightarrow> bool" where
  "files_ok r \<longleftrightarrow> inj_on (test_file_name r) (set (filter is_test (map snd (r_targets r))))"

lemma test_file_data [simp]: "test_file_name r (t\<lparr>t_data := x\<rparr>) = test_file_name r t"
  by (simp add: test_file_name_def executable_def)

lemma run_jobs_set: "set (run_jobs u r fs direct s) =
    test_job u r ` {t \<in> set (map snd (r_targets r)). must_run u r fs direct s t}"
  by (simp only: run_jobs_def set_map set_filter)

lemma filter_image: "{j \<in> g ` A. P j} = g ` {t \<in> A. P (g t)}"
  by blast

lemma schedule_failed:
  assumes run: "schedule_jobs proc cpus (o_test_jobs (r_options r)) (run_jobs u r fs direct s)
      (new_sched m) sch" and pwd: "''PWD'' \<in> set (keys (u_environ u))"
  shows "set (ts_failed sch) = (\<lambda>t. t\<lparr>t_data := (t_data t)\<lparr>d_test_exit_code :=
      test_exit proc cpus u r fs direct s t\<rparr>\<rparr>) `
    {t \<in> set (map snd (r_targets r)). test_failed proc cpus u r fs direct s t}"
proof -
  let ?exit = "\<lambda>j. exit_of proc (run_redirected cpus (o_test_jobs (r_options r)) (run_jobs u r fs direct s) j) j"
  let ?f = "\<lambda>j. (jb_target j)\<lparr>t_data := (t_data (jb_target j))\<lparr>d_test_exit_code := ?exit j\<rparr>\<rparr>"
  have "\<forall>j \<in> set (run_jobs u r fs direct s). ''PWD'' \<in> set (keys (jb_env j))"
    using test_env_PWD [OF pwd] by (simp add: run_jobs_set test_job_def)
  then have "jobs_done ?exit (mset (run_jobs u r fs direct s)) (new_sched m) sch"
    using schedule_result [OF run] by (simp add: new_sched_def)
  then have "mset (ts_failed sch) = image_mset ?f (filter_mset (\<lambda>j. ?exit j \<noteq> Some 0) (mset (run_jobs u r fs direct s)))"
    by (simp add: jobs_done_def new_sched_def)
  from arg_cong [OF this, of set_mset]
  have "set (ts_failed sch) = ?f ` {j \<in> set (run_jobs u r fs direct s). ?exit j \<noteq> Some 0}"
    unfolding set_mset_mset set_image_mset set_mset_filter .
  also have "{j \<in> set (run_jobs u r fs direct s). ?exit j \<noteq> Some 0} =
      test_job u r ` {t \<in> set (map snd (r_targets r)). test_failed proc cpus u r fs direct s t}"
    unfolding run_jobs_set filter_image test_failed_def test_exit_def by (simp only: mem_Collect_eq conj_assoc)
  finally show ?thesis unfolding image_image test_job_target test_exit_def .
qed

lemma generate_stamp:
  assumes g: "generate_inctest_run_list u r fs direct s = Inr s1" and fr: "fresh s" and ok: "files_ok r"
    and wf: "dict_wf (st_md5 (tr_last s))" and t: "t \<in> set (map snd (r_targets r))" "is_test t"
  shows "\<exists>new. get_test_target_md5sum u r fs t = Inr new \<and>
    map_of (st_md5 (tr_stamp s1)) (test_file_name r t) = Some new"
proof -
  let ?ts = "map snd (r_targets r)"
  obtain q where q: "fold_res (select_test u r fs direct) ?ts s = Inr q" "s1 = keep_old_md5 q"
    using g by (auto simp only: generate_inctest_run_list_def res_simps sum.inject)
  let ?I = "\<lambda>ys q. \<forall>x \<in> set ys. is_test x \<longrightarrow> (\<exists>new. get_test_target_md5sum u r fs x = Inr new \<and>
    map_of (st_md5 (tr_stamp q)) (test_file_name r x) = Some new)"
  have "?I ?ts q"
  proof (rule fold_res_prefix [where I = ?I, OF _ _ q(1)])
    fix ys x zs p p' assume ts: "?ts = ys @ x # zs" and I: "?I ys p"
      and step: "select_test u r fs direct x p = Inr p'"
    show "?I (ys @ [x]) p'"
    proof (cases "is_test x")
      case True
      obtain new where n: "get_test_target_md5sum u r fs x = Inr new"
        "st_md5 (tr_stamp p') = dict_set (test_file_name r x) new (st_md5 (tr_stamp p))"
        using select_test_Inr [OF step True] by metis
      have same: "y = x" if "y \<in> set ys" "is_test y" "test_file_name r y = test_file_name r x" for y
      proof -
        have "inj_on (test_file_name r) {a \<in> set (ys @ x # zs). is_test a}"
          using ok by (simp only: files_ok_def ts set_filter)
        from inj_onD [OF this that(3)] that True show ?thesis by simp
      qed
      show ?thesis using n I same by auto
    next
      case False
      then show ?thesis using step I by (auto simp: select_not_test)
    qed
  qed simp
  then obtain new where n: "get_test_target_md5sum u r fs t = Inr new"
    "map_of (st_md5 (tr_stamp q)) (test_file_name r t) = Some new" using t by blast
  have "tr_last q = tr_last s" using select_tests [OF q(1)] by simp
  then show ?thesis using n keep_old_lookup [of q] wf by (simp add: q(2))
qed

lemma run_stamp:
  assumes run: "test_run proc cpus u r direct s rs (Inr (code, w, s'))" and f: "fresh s" and k: "keys_ok r"
    and ok: "files_ok r" and wf: "dict_wf (st_md5 (tr_last s))"
    and pwd: "''PWD'' \<in> set (keys (u_environ u))" and st: "w_stamp w = Some st"
    and t: "t \<in> set (map snd (r_targets r))" "is_test t"
  obtains new where "get_test_target_md5sum u r (rs_fs rs) t = Inr new"
    and "map_of (st_md5 st) (test_file_name r t) =
      Some (if test_failed proc cpus u r (rs_fs rs) direct s t then FailedMark else new)"
proof -
  obtain s1 sch where g: "generate_inctest_run_list u r (rs_fs rs) direct s = Inr s1"
    and sched: "schedule_jobs proc cpus (o_test_jobs (r_options r)) (run_jobs u r (rs_fs rs) direct s)
      (new_sched (tr_run_map s1)) sch"
    and w: "w_stamp w \<in> {None, Some (tr_stamp (fold (mark_failed r) (ts_failed sch) s1))}"
    using test_run_parts [OF run f k] by metis
  obtain new where n: "get_test_target_md5sum u r (rs_fs rs) t = Inr new"
    "map_of (st_md5 (tr_stamp s1)) (test_file_name r t) = Some new"
    using generate_stamp [OF g f ok wf t] by blast
  let ?F = "test_failed proc cpus u r (rs_fs rs) direct s"
  have "test_file_name r ` set (ts_failed sch) = test_file_name r ` {t \<in> set (map snd (r_targets r)). ?F t}"
    unfolding schedule_failed [OF sched pwd] image_image test_file_data ..
  moreover have "is_test x" if "?F x" for x using that by (simp add: test_failed_def must_run_def)
  ultimately have "test_file_name r t \<in> test_file_name r ` set (ts_failed sch) \<longleftrightarrow> ?F t"
    using t ok unfolding files_ok_def by (auto simp del: set_map dest: inj_onD)
  then have "map_of (st_md5 st) (test_file_name r t) = Some (if ?F t then FailedMark else new)"
    using w st n(2) by (simp add: fold_mark_failed)
  with n(1) show thesis by (rule that)
qed

section \<open>\<open>blade test\<close>\<close>

definition first_state :: "surroundings \<Rightarrow> runner \<Rightarrow> history \<Rightarrow> test_state" where
  "first_state u r h = new_test_state u (r_options r) h"

lemma first_state_fresh: "fresh (first_state u r h)"
  by (simp only: first_state_def new_test_state_fresh)

text \<open>A run with a single worker, computed: the processes leave the file system alone\<close>

definition run_alone ::
  "(job \<Rightarrow> process) \<Rightarrow> surroundings \<Rightarrow> runner \<Rightarrow> tkey list \<Rightarrow> history \<Rightarrow> run_state \<Rightarrow> nat \<Rightarrow>
   (int \<times> written \<times> test_state) option" where
  "run_alone proc u r direct h rs k =
     (case generate_inctest_run_list u r (rs_fs rs) direct (first_state u r h) of
        Inl e \<Rightarrow> None
      | Inr s1 \<Rightarrow>
          (case fold_res (prepare_test u r) (map snd (r_targets r)) (s1, rs, []) of
             Inl e \<Rightarrow> None
           | Inr (s2, rs2, jobs) \<Rightarrow>
               if \<exists>j \<in> set jobs. is_exclusive j then None
               else
                 (case (if jobs = [] then Some (new_sched (tr_run_map s2), [Finished])
                        else pool_exec (worker_step proc False False) (replicate k (0, 1))
                          (start_jobs jobs 1 (new_sched (tr_run_map s2)), [Starting 0])) of
                    Some (sch, [Finished]) \<Rightarrow>
                      (case clean_env r (rs2\<lparr>rs_fs := rs_fs rs2\<rparr>) of
                         Inl e \<Rightarrow> None
                       | Inr rs3 \<Rightarrow>
                           let sch' = (if jobs = [] then sch else print_summary jobs sch)
                           in Some (report u r sch'
                             (tr_say (map Say (rs_console rs3 @ ts_console sch')) s2)))
                  | _ \<Rightarrow> None)))"

lemma alone_scheduled:
  assumes run: "pool_exec (worker_step proc False False) (replicate k (0, 1))
      (start_jobs jobs 1 (new_sched m), [Starting 0]) = Some (sch, [Finished])"
    and ne: "jobs \<noteq> []" and ex: "\<not> (\<exists>j \<in> set jobs. is_exclusive j)" and one: "n \<le> 1"
  shows "schedule_jobs proc cpus n jobs (new_sched m) (print_summary jobs sch)"
proof -
  have n: "get_workers_num cpus n (length jobs) = 1" using one by (simp add: get_workers_num_def)
  have p: "pool_run (worker_step proc ((1 :: int) < 1) False) (length (replicate k (0 :: nat, 1 :: int)))
      (start_jobs jobs 1 (new_sched m), map Starting [0..<nat 1]) (sch, [Finished])"
    using pool_exec_run [OF run] by simp
  have "filter is_exclusive jobs = []" using ex by (auto simp: filter_empty_conv)
  then have "queue_of True (start_jobs jobs 1 (new_sched m)) = []"
    by (simp add: queue_of_def start_jobs_def start_jobs_fields new_sched_def)
  moreover have "queue_of True sch = queue_of True (start_jobs jobs 1 (new_sched m))"
    using scheduler_other_queue [OF p] by simp
  ultimately have "ts_exclusive_queue sch = []" by (simp add: queue_of_def)
  from only_shared [OF ne n [symmetric] p _ this] show ?thesis by simp
qed

lemma run_alone_run:
  assumes "run_alone proc u r direct h rs k = Some out" and "o_test_jobs (r_options r) \<le> 1"
  shows "run_tests proc cpus u r direct h rs (Inr out)"
proof -
  obtain s1 s2 rs2 jobs where
    g: "generate_inctest_run_list u r (rs_fs rs) direct (new_test_state u (r_options r) h) = Inr s1" and
    p: "fold_res (prepare_test u r) (map snd (r_targets r)) (s1, rs, []) = Inr (s2, rs2, jobs)" and
    ex: "\<not> (\<exists>j \<in> set jobs. is_exclusive j)"
    using assms(1) unfolding run_alone_def first_state_def by (auto split: sum.splits if_splits)
  note A = assms(1) [unfolded run_alone_def first_state_def, unfolded g p sum.case prod.case if_not_P [OF ex]]
  show ?thesis
  proof (cases "jobs = []")
    case True
    with A obtain rs3 where c: "clean_env r (rs2\<lparr>rs_fs := rs_fs rs2\<rparr>) = Inr rs3"
      and out: "out = report u r (new_sched (tr_run_map s2)) (tr_say (map Say (rs_console rs3 @
        ts_console (new_sched (tr_run_map s2)))) s2)" by (auto simp: Let_def split: sum.splits)
    show ?thesis unfolding run_tests_def out by (rule returned [OF g p no_tests [OF True] c])
  next
    case False
    with A obtain sch rs3 where
      e: "pool_exec (worker_step proc False False) (replicate k (0, 1))
        (start_jobs jobs 1 (new_sched (tr_run_map s2)), [Starting 0]) = Some (sch, [Finished])" and
      c: "clean_env r (rs2\<lparr>rs_fs := rs_fs rs2\<rparr>) = Inr rs3" and
      out: "out = report u r (print_summary jobs sch) (tr_say (map Say (rs_console rs3 @
        ts_console (print_summary jobs sch))) s2)"
      by (auto simp: Let_def split: sum.splits option.splits list.splits worker.splits)
    show ?thesis unfolding run_tests_def out
      by (rule returned [OF g p alone_scheduled [OF e False ex assms(2)] c])
  qed
qed

lemma run_skips:
  assumes "run_tests proc cpus u r direct h rs (Inr (code, w, s'))" and "keys_ok r"
  shows "mset (tr_skipped s') = mset (map t_key (filter
      (\<lambda>t. is_test t \<and> \<not> must_run u r (rs_fs rs) direct (first_state u r h) t) (map snd (r_targets r))))"
  using test_run_parts [OF assms(1) [unfolded run_tests_def] new_test_state_fresh assms(2)]
  unfolding first_state_def by metis

lemma generate_md5:
  assumes g: "generate_inctest_run_list u r fs direct s = Inr s1"
    and t: "t \<in> set (map snd (r_targets r))" "is_test t"
  shows "\<exists>new. get_test_target_md5sum u r fs t = Inr new"
proof -
  let ?I = "\<lambda>ys _. \<forall>x \<in> set ys. is_test x \<longrightarrow> (\<exists>new. get_test_target_md5sum u r fs x = Inr new)"
  obtain q where q: "fold_res (select_test u r fs direct) (map snd (r_targets r)) s = Inr q"
    using g by (auto simp only: generate_inctest_run_list_def res_simps sum.inject)
  have "?I (map snd (r_targets r)) q"
  proof (rule fold_res_prefix [where I = ?I, OF _ _ q])
    fix ys x zs p p' assume "?I ys p" "select_test u r fs direct x p = Inr p'"
    then show "?I (ys @ [x]) p'" using select_test_Inr [of u r fs direct x p p'] by auto
  qed simp
  then show ?thesis using t by blast
qed

lemma key_in_filter:
  assumes k: "keys_ok r" and t: "t \<in> set (map snd (r_targets r))"
  shows "t_key t \<in> set (map t_key (filter P (map snd (r_targets r)))) \<longleftrightarrow> P t"
proof -
  have "inj_on t_key (set (map snd (r_targets r)))"
    using k by (simp only: keys_ok_def distinct_map)
  from inj_on_image_mem_iff [OF this t, of "set (filter P (map snd (r_targets r)))"] t show ?thesis
    by (simp only: set_map set_filter) blast
qed

section \<open>One test, run twice\<close>

definition demo_surroundings :: surroundings where
  "demo_surroundings = \<lparr>u_md5sum = (\<lambda>s. s), u_times = (\<lambda>f. f), u_now = 1000000,
     u_environ = [(''PWD'', ''/''), (''HOME'', ''/h'')], u_color = False, u_stamp_size = (\<lambda>_. 100),
     u_seconds = (\<lambda>_. ''0.01'')\<rparr>"

definition exit_proc :: "job \<Rightarrow> process" where
  "exit_proc j = Exited (if t_name (jb_target j) = ''y'' then 1 else 0) []"

definition demo_first :: "string \<Rightarrow> (int \<times> written \<times> test_state) option" where
  "demo_first n = run_alone exit_proc demo_surroundings (demo_runner n) [] NoHistory demo_start 8"

definition demo_stamp :: "string \<Rightarrow> md5_val \<Rightarrow> stamp" where
  "demo_stamp n m = \<lparr>st_md5 = [(''/b/t/'' @ n, m)], st_testarg = Some ''[]'',
     st_env = Some (EnvDict [(''HOME'', ''/h'')]), st_time = Some 1000000\<rparr>"

definition demo_second :: "string \<Rightarrow> md5_val \<Rightarrow> (int \<times> written \<times> test_state) option" where
  "demo_second n m = run_alone exit_proc demo_surroundings (demo_runner n) [] (History (demo_stamp n m)) demo_start 8"

lemma demo_runner_ok: "keys_ok (demo_runner n)" "files_ok (demo_runner n)"
  by (simp_all add: keys_ok_def files_ok_def demo_runner_def demo_test_def new_target_def)

lemma demo_pwd: "''PWD'' \<in> set (keys (u_environ demo_surroundings))"
  by code_simp

lemma demo_one: "o_test_jobs (r_options (demo_runner n)) \<le> 1"
  by (simp add: demo_runner_def demo_options_def)

definition demo_ran :: "string \<Rightarrow> int \<Rightarrow> tkey list \<Rightarrow> bool" where
  "demo_ran n code skipped \<longleftrightarrow> (\<exists>w s' st w2 s2.
     run_tests exit_proc 4 demo_surroundings (demo_runner n) [] NoHistory demo_start (Inr (code, w, s')) \<and>
     w_stamp w = Some st \<and>
     run_tests exit_proc 4 demo_surroundings (demo_runner n) [] (History st) demo_start (Inr (code, w2, s2)) \<and>
     tr_skipped s2 = skipped)"

lemma demo_ranI:
  assumes "case demo_first n of None \<Rightarrow> False | Some (c, w, s) \<Rightarrow> c = code \<and> w_stamp w = Some (demo_stamp n m)"
    and "case demo_second n m of None \<Rightarrow> False | Some (c, w, s) \<Rightarrow> c = code \<and> tr_skipped s = skipped"
  shows "demo_ran n code skipped"
proof -
  obtain w s' where s1: "demo_first n = Some (code, w, s')" "w_stamp w = Some (demo_stamp n m)"
    using assms(1) by (auto split: option.splits)
  obtain w2 s2 where s2: "demo_second n m = Some (code, w2, s2)" "tr_skipped s2 = skipped"
    using assms(2) by (auto split: option.splits)
  from run_alone_run [OF s1(1) [unfolded demo_first_def] demo_one]
    run_alone_run [OF s2(1) [unfolded demo_second_def] demo_one] s1(2) s2(2)
  show ?thesis unfolding demo_ran_def by blast
qed

lemma demo_x: "demo_ran ''x'' 0 [(''t'', ''x'')]"
proof (rule demo_ranI)
  show "case demo_first ''x'' of None \<Rightarrow> False
    | Some (c, w, s) \<Rightarrow> c = 0 \<and> w_stamp w = Some (demo_stamp ''x'' (Md5 ''/b/t/x'' []))" by code_simp
  show "case demo_second ''x'' (Md5 ''/b/t/x'' []) of None \<Rightarrow> False
    | Some (c, w, s) \<Rightarrow> c = 0 \<and> tr_skipped s = [(''t'', ''x'')]" by code_simp
qed

lemma demo_y: "demo_ran ''y'' 1 []"
proof (rule demo_ranI)
  show "case demo_first ''y'' of None \<Rightarrow> False
    | Some (c, w, s) \<Rightarrow> c = 1 \<and> w_stamp w = Some (demo_stamp ''y'' FailedMark)" by code_simp
  show "case demo_second ''y'' FailedMark of None \<Rightarrow> False
    | Some (c, w, s) \<Rightarrow> c = 1 \<and> tr_skipped s = []" by code_simp
qed

section \<open>The properties\<close>

text \<open>C30: A run that ends skips exactly the tests it may skip: those that no reason to run
  everything, no target named on the command line, no changed checksum and no \<open>always_run\<close>
  asks for.\<close>

theorem run_tests_skips:
  assumes "run_tests proc cpus u r direct h rs (Inr (code, w, s'))" and "keys_ok r"
  shows "mset (tr_skipped s') = mset (map t_key (filter
      (\<lambda>t. is_test t \<and> \<not> must_run u r (rs_fs rs) direct (first_state u r h) t) (map snd (r_targets r))))"
  by (rule run_skips [OF assms])

theorem run_tests_skips_witness:
  "\<exists>st. mset [(''t'', ''x'')] = mset (map t_key (filter (\<lambda>t. is_test t \<and>
     \<not> must_run demo_surroundings (demo_runner ''x'') demo_fs []
       (first_state demo_surroundings (demo_runner ''x'') (History st)) t)
     (map snd (r_targets (demo_runner ''x'')))))"
proof -
  obtain st w2 s2 where
    d: "run_tests exit_proc 4 demo_surroundings (demo_runner ''x'') [] (History st) demo_start (Inr (0, w2, s2))"
    and s: "tr_skipped s2 = [(''t'', ''x'')]" using demo_x unfolding demo_ran_def by blast
  from run_tests_skips [OF d demo_runner_ok(1)] show ?thesis unfolding s demo_start_fs ..
qed

lemma tests_code:
  assumes "run_tests proc cpus u r direct h rs (Inr (code, w, s'))" and "keys_ok r"
    and "''PWD'' \<in> set (keys (u_environ u))"
  shows "code = (if \<exists>t \<in> set (map snd (r_targets r)).
      test_failed proc cpus u r (rs_fs rs) direct (first_state u r h) t then 1 else 0)"
proof -
  obtain s1 :: test_state and sch :: sched where
    sched: "schedule_jobs proc cpus (o_test_jobs (r_options r))
      (run_jobs u r (rs_fs rs) direct (first_state u r h)) (new_sched (tr_run_map s1)) sch"
    and code: "code = (if ts_failed sch = [] then 0 else 1)"
    by (rule test_run_parts [OF assms(1) [unfolded run_tests_def, folded first_state_def]
          first_state_fresh assms(2)]) iprover
  have "set (ts_failed sch) = {} \<longleftrightarrow> \<not> (\<exists>t \<in> set (map snd (r_targets r)).
      test_failed proc cpus u r (rs_fs rs) direct (first_state u r h) t)"
    unfolding schedule_failed [OF sched assms(3)] by blast
  then show ?thesis using code by simp
qed

text \<open>C31: The run returns 0 when every test it ran ended with code 0, and 1 otherwise,
  with \<open>PWD\<close> in the environment of Blade and one key for each target.\<close>

theorem run_tests_code:
  assumes "run_tests proc cpus u r direct h rs (Inr (code, w, s'))" and "keys_ok r"
    and "''PWD'' \<in> set (keys (u_environ u))"
  shows "code = (if \<exists>t \<in> set (map snd (r_targets r)).
      test_failed proc cpus u r (rs_fs rs) direct (first_state u r h) t then 1 else 0)"
  by (rule tests_code [OF assms])

theorem run_tests_code_witness:
  "\<exists>t \<in> set (map snd (r_targets (demo_runner ''y''))). test_failed exit_proc 4 demo_surroundings
     (demo_runner ''y'') demo_fs [] (first_state demo_surroundings (demo_runner ''y'') NoHistory) t"
proof -
  obtain w s' where
    d: "run_tests exit_proc 4 demo_surroundings (demo_runner ''y'') [] NoHistory demo_start (Inr (1, w, s'))"
    using demo_y unfolding demo_ran_def by blast
  from run_tests_code [OF d demo_runner_ok(1) demo_pwd] show ?thesis
    unfolding demo_start_fs by (simp only: split: if_splits)
qed

text \<open>C21: What one run records decides what the next one skips. With the stamp the first run
  wrote, the second skips a test exactly when nothing asks for a full run, the test is not named
  on the command line and is not to be run always, it did not fail in the first run, and its
  checksums are those of the first run. In particular a test that failed is never skipped.
  Targets and files have one key each, and \<open>PWD\<close> is in the environment of the first run.\<close>

theorem next_run_skips:
  assumes first: "run_tests proc cpus u r direct h rs (Inr (code, w, s'))"
    and r: "keys_ok r" "files_ok r" and h: "dict_wf (st_md5 (tr_last (first_state u r h)))"
    and pwd: "''PWD'' \<in> set (keys (u_environ u))" and st: "w_stamp w = Some st"
    and t: "t \<in> set (map snd (r_targets r))" "is_test t"
    and second: "run_tests proc2 cpus2 u2 r2 direct2 (History st) rs2 (Inr (code2, w2, s2))"
    and r2: "keys_ok r2" "files_ok r2" "\<not> o_fulltest (r_options r2)"
    and t2: "t \<in> set (map snd (r_targets r2))" "test_file_name r2 t = test_file_name r t"
  shows "t_key t \<in> set (tr_skipped s2) \<longleftrightarrow>
    tr_reason (first_state u2 r2 (History st)) = [] \<and> t_key t \<notin> set direct2 \<and>
    \<not> d_always_run (t_data t) \<and> \<not> test_failed proc cpus u r (rs_fs rs) direct (first_state u r h) t \<and>
    get_test_target_md5sum u2 r2 (rs_fs rs2) t = get_test_target_md5sum u r (rs_fs rs) t"
proof -
  let ?s2 = "first_state u2 r2 (History st)"
  obtain new where new: "get_test_target_md5sum u r (rs_fs rs) t = Inr new"
    "map_of (st_md5 st) (test_file_name r t) = Some
      (if test_failed proc cpus u r (rs_fs rs) direct (first_state u r h) t then FailedMark else new)"
    using run_stamp [OF first [unfolded run_tests_def] new_test_state_fresh r h [unfolded first_state_def] pwd st t]
    unfolding first_state_def by metis
  have last: "tr_last ?s2 = st" using r2(3) by (simp add: first_state_def new_test_state_last)
  obtain s1 :: test_state where g2: "generate_inctest_run_list u2 r2 (rs_fs rs2) direct2 ?s2 = Inr s1"
    by (rule test_run_parts [OF second [unfolded run_tests_def, folded first_state_def]
          first_state_fresh r2(1)]) iprover
  obtain new2 where new2: "get_test_target_md5sum u2 r2 (rs_fs rs2) t = Inr new2"
    using generate_md5 [OF g2 t2(1) t(2)] by blast
  have "new2 \<noteq> FailedMark" using md5sum_Md5 [OF new2] by auto
  then have changed: "md5_changed u2 r2 (rs_fs rs2) st t \<longleftrightarrow>
      test_failed proc cpus u r (rs_fs rs) direct (first_state u r h) t \<or> new2 \<noteq> new"
    by (auto simp: md5_changed_def new2 t2(2) new(2))
  have key: "t_key t = (t_path t, t_name t)"
    using r2(1) t2(1) unfolding keys_ok_def list_all_iff by blast
  have "t_key t \<in> set (tr_skipped s2) \<longleftrightarrow> t_key t \<in> set (map t_key (filter
      (\<lambda>t. is_test t \<and> \<not> must_run u2 r2 (rs_fs rs2) direct2 ?s2 t) (map snd (r_targets r2))))"
    using arg_cong [OF run_skips [OF second r2(1)], of set_mset] by (simp only: set_mset_mset)
  also have "\<dots> \<longleftrightarrow> \<not> must_run u2 r2 (rs_fs rs2) direct2 ?s2 t"
    by (simp only: key_in_filter [OF r2(1) t2(1)] t(2) simp_thms)
  finally show ?thesis
    using t(2) changed by (auto simp: must_run_def needs_run_def last key new(1) new2 is_test_def)
qed

theorem next_run_skips_witness:
  "\<exists>w s' st. run_tests exit_proc 4 demo_surroundings (demo_runner ''x'') [] NoHistory demo_start (Inr (0, w, s')) \<and>
     w_stamp w = Some st \<and>
     tr_reason (first_state demo_surroundings (demo_runner ''x'') (History st)) = [] \<and>
     \<not> test_failed exit_proc 4 demo_surroundings (demo_runner ''x'') demo_fs []
       (first_state demo_surroundings (demo_runner ''x'') NoHistory) (demo_test ''x'')"
proof -
  let ?r = "demo_runner ''x''"
  obtain w s' st w2 s2 where
    d: "run_tests exit_proc 4 demo_surroundings ?r [] NoHistory demo_start (Inr (0, w, s'))"
    "w_stamp w = Some st"
    "run_tests exit_proc 4 demo_surroundings ?r [] (History st) demo_start (Inr (0, w2, s2))"
    and s: "tr_skipped s2 = [(''t'', ''x'')]" using demo_x unfolding demo_ran_def by blast
  have wf: "dict_wf (st_md5 (tr_last (first_state demo_surroundings ?r NoHistory)))" by code_simp
  have t: "demo_test ''x'' \<in> set (map snd (r_targets ?r))" by (simp add: demo_runner_def)
  have tt: "is_test (demo_test ''x'')" by code_simp
  have full: "\<not> o_fulltest (r_options ?r)" by code_simp
  have k: "t_key (demo_test ''x'') \<in> set [(''t'', ''x'')]" by code_simp
  note iff = next_run_skips [OF d(1) demo_runner_ok wf demo_pwd d(2) t tt d(3) demo_runner_ok full t refl,
      unfolded s demo_start_fs]
  from iffD1 [OF iff k] d(1,2) show ?thesis by blast
qed

end
