(* ===== verification/ScriptHelper.thy ===== *)
theory ScriptHelper
  imports BladeState
begin

text \<open>
  The pure parts of \<open>scons_helper.py\<close>, which the generated script calls while SCons runs: the
  colours of a compiler's messages and the header of the resource variables.
\<close>

section \<open>Colours of messages\<close>

definition error_marks :: "string list" where
  "error_marks = ['': error:'', '': fatal error:'', '': undefined reference to'', '': cannot find '',
     '': ld returned 1 exit status'']"

definition warning_marks :: "string list" where
  "warning_marks = ['': warning:'', '': note: '']"

definition line_color :: "string \<Rightarrow> string" where
  "line_color t =
     (if startswith (strip_ws t) ''^'' then ''green''
      else if \<exists>w \<in> set error_marks. has_sub w t then ''red''
      else if \<exists>w \<in> set warning_marks. has_sub w t then ''yellow''
      else ''cyan'')"

definition colored_line :: "bool \<Rightarrow> string \<Rightarrow> string list res" where
  "colored_line color_enabled t =
     bind_res (colors color_enabled (line_color t)) (\<lambda>c.
     bind_res (colors color_enabled ''end'') (\<lambda>e. Inr [c, t, e]))"

definition error_colorize :: "bool \<Rightarrow> string \<Rightarrow> string res" where
  "error_colorize color_enabled message =
     bind_res (map_res (colored_line color_enabled) (splitlines_keep message)) (\<lambda>ls. Inr (concat (concat ls)))"

text \<open>
  The end of \<open>echospawn\<close>: what is written to the two outputs after a command, which the
  interruption signal, -2, keeps silent.
\<close>

definition echo_result :: "bool \<Rightarrow> int \<Rightarrow> string \<Rightarrow> string \<Rightarrow> (string \<times> string) res" where
  "echo_result color_enabled returncode out err =
     (if returncode \<noteq> 0 \<and> returncode = -2 then Inr ([], [])
      else if returncode \<noteq> 0 \<or> err \<noteq> [] then
        bind_res (error_colorize color_enabled out) (\<lambda>o'.
        bind_res (error_colorize color_enabled err) (\<lambda>e'. Inr (o', e')))
      else Inr (out, []))"

section \<open>Resource header\<close>

definition resource_var :: "string \<Rightarrow> string" where
  "resource_var s =
     foldl (\<lambda>v c. replace_str [c] ''_'' v) s [CHR '','', CHR ''-'', slash, CHR ''.'', CHR ''+'']"

definition resource_header :: "(string \<times> nat) list \<Rightarrow> string" where
  "resource_header sources =
     ''// This file was automatically generated by blade'' @ newline @
     ''#ifdef __cplusplus'' @ newline @ ''extern '' @ [quote2] @ ''C'' @ [quote2] @ '' {'' @ newline @ ''#endif'' @
     newline @ newline @
     concat (map (\<lambda>(s, n). ''extern const char RESOURCE_'' @ resource_var s @ ''['' @ dec_nat n @ ''];'' @ newline)
       sources) @
     newline @ ''#ifdef __cplusplus'' @ newline @ ''}'' @ newline @ ''#endif'' @ newline @ newline"

section \<open>Facts\<close>

lemma colors_line: "\<exists>c. colors ce (line_color t) = Inr c" "\<exists>e. colors ce ''end'' = Inr e"
  by (auto simp: colors_def line_color_def color_table_def)

text \<open>Taking the escape sequences out again\<close>

function (sequential) strip_esc :: "string \<Rightarrow> string" where
  "strip_esc [] = []"
| "strip_esc (c # s) =
     (if c = esc then strip_esc (drop 1 (dropWhile (\<lambda>c. c \<noteq> CHR ''m'') s)) else c # strip_esc s)"
  by pat_completeness auto

termination
proof (relation "measure length", goal_cases)
  case (2 c s)
  have "length (dropWhile (\<lambda>c. c \<noteq> CHR ''m'') s) \<le> length s" by (rule length_dropWhile_le)
  then show ?case by simp
qed auto

lemma strip_esc_plain: "esc \<notin> set s \<Longrightarrow> strip_esc (s @ r) = s @ strip_esc r"
  by (induction s) auto

lemma strip_esc_color: "colors ce c = Inr s \<Longrightarrow> strip_esc (s @ r) = strip_esc r"
  by (auto simp: colors_def color_table_def split: if_splits)

lemma colored_line_strips:
  assumes "esc \<notin> set t"
  shows "\<exists>l. colored_line ce t = Inr l \<and> (\<forall>r. strip_esc (concat l @ r) = t @ strip_esc r)"
proof -
  obtain c e where "colors ce (line_color t) = Inr c" "colors ce ''end'' = Inr e"
    using colors_line(1) [of ce t] colors_line(2) [of ce] by blast
  then show ?thesis
    using strip_esc_plain [OF assms] strip_esc_color by (auto simp: colored_line_def)
qed

lemma colored_lines_strip:
  assumes "esc \<notin> set (concat ts)"
  shows "\<exists>ls. map_res (colored_line ce) ts = Inr ls \<and> strip_esc (concat (concat ls)) = concat ts"
  using assms
proof (induction ts)
  case (Cons t ts)
  obtain l where l: "colored_line ce t = Inr l" "\<And>r. strip_esc (concat l @ r) = t @ strip_esc r"
    using colored_line_strips [of t ce] Cons.prems by auto
  from Cons obtain ls where "map_res (colored_line ce) ts = Inr ls" "strip_esc (concat (concat ls)) = concat ts"
    by auto
  with l show ?case by auto
qed simp

text \<open>Without colours nothing is added, whatever the message holds.\<close>

lemma colored_line_total: "\<exists>l. colored_line ce t = Inr l \<and> (\<not> ce \<longrightarrow> concat l = t)"
proof -
  obtain c e where "colors ce (line_color t) = Inr c" "colors ce ''end'' = Inr e"
    using colors_line(1) [of ce t] colors_line(2) [of ce] by blast
  then show ?thesis by (auto simp: colored_line_def colors_def)
qed

lemma colored_lines_total:
  "\<exists>ls. map_res (colored_line ce) ts = Inr ls \<and> (\<not> ce \<longrightarrow> concat (concat ls) = concat ts)"
proof (induction ts)
  case (Cons t ts)
  obtain l where "colored_line ce t = Inr l" "\<not> ce \<longrightarrow> concat l = t"
    using colored_line_total [of ce t] by blast
  with Cons show ?case by auto
qed simp

section \<open>The property\<close>

text \<open>C35: Colouring a compiler's message never fails, whatever the message. Without colours it
  changes nothing; with colours, if the message itself has no escape character, what is left
  without the escape sequences is the message, character for character.\<close>

theorem error_colorize_roundtrip:
  "\<exists>out. error_colorize color_enabled message = Inr out \<and>
     (\<not> color_enabled \<longrightarrow> out = message) \<and> (esc \<notin> set message \<longrightarrow> strip_esc out = message)"
proof -
  obtain ls where ls: "map_res (colored_line color_enabled) (splitlines_keep message) = Inr ls"
    "\<not> color_enabled \<longrightarrow> concat (concat ls) = message"
    using colored_lines_total [of color_enabled "splitlines_keep message"] by auto
  have "strip_esc (concat (concat ls)) = message" if "esc \<notin> set message"
    using that colored_lines_strip [of "splitlines_keep message" color_enabled] ls(1) by auto
  then show ?thesis using ls by (simp add: error_colorize_def)
qed

theorem error_colorize_roundtrip_witness:
  "\<exists>out. error_colorize True ''a.cc:1: error: no'' = Inr out \<and> strip_esc out = ''a.cc:1: error: no''"
proof -
  have "esc \<notin> set ''a.cc:1: error: no''" by (simp add: esc_def)
  then show ?thesis using error_colorize_roundtrip [of True "''a.cc:1: error: no''"] by blast
qed

end
