(* ===== verification/PyStdlib.thy ===== *)
theory PyStdlib
  imports PyPath
begin

text \<open>
  What the program uses of the standard library besides strings and paths: \<open>shlex.split\<close>,
  \<open>int\<close> of a string, and \<open>string.Template.substitute\<close>.
\<close>

section \<open>Splitting like a shell, and reading a number\<close>

text \<open>
  \<open>shlex.split\<close> in its POSIX mode. The states: between words, in a word, in quotes, after a
  backslash in a word, after a backslash in double quotes. The word so far is reversed.
\<close>

datatype shlex_state = Between | InWord | InQuote char | Escaped | QuoteEscaped

fun shlex :: "shlex_state \<Rightarrow> string \<Rightarrow> string \<Rightarrow> string list res" where
  "shlex Between w [] = Inr []"
| "shlex InWord w [] = Inr [rev w]"
| "shlex (InQuote q) w [] = Inl ValueError"
| "shlex Escaped w [] = Inl ValueError"
| "shlex QuoteEscaped w [] = Inl ValueError"
| "shlex Escaped w (c # s) = shlex InWord (c # w) s"
| "shlex QuoteEscaped w (c # s) =
     shlex (InQuote quote2) (if c = quote2 \<or> c = backslash then c # w else c # backslash # w) s"
| "shlex (InQuote q) w (c # s) =
     (if c = q then shlex InWord w s
      else if c = backslash \<and> q = quote2 then shlex QuoteEscaped w s
      else shlex (InQuote q) (c # w) s)"
| "shlex st w (c # s) =
     (if c \<in> {CHR '' '', CHR 0x09, CHR 0x0D, CHR 0x0A} then
        (if st = InWord then bind_res (shlex Between [] s) (\<lambda>ws. Inr (rev w # ws)) else shlex Between [] s)
      else if c = quote1 \<or> c = quote2 then shlex (InQuote c) w s
      else if c = backslash then shlex Escaped w s
      else shlex InWord (c # w) s)"

definition shlex_split :: "string \<Rightarrow> string list res" where
  "shlex_split s = shlex Between [] s"

text \<open>\<open>int(s)\<close>\<close>

definition digit_value :: "char \<Rightarrow> nat option" where
  "digit_value c =
     (let n = (of_char c :: nat) in if 48 \<le> n \<and> n \<le> 57 then Some (n - 48) else None)"

fun digits_value :: "nat \<Rightarrow> string \<Rightarrow> nat option" where
  "digits_value n [] = Some n"
| "digits_value n (c # s) =
     (case digit_value c of None \<Rightarrow> None | Some d \<Rightarrow> digits_value (10 * n + d) s)"

definition int_of_str :: "string \<Rightarrow> int res" where
  "int_of_str s0 =
     (let s = strip_ws s0;
          (neg, ds) = (case s of
             c # r \<Rightarrow> if c = CHR ''-'' then (True, r) else if c = CHR ''+'' then (False, r) else (False, s)
           | [] \<Rightarrow> (False, []))
      in if ds = [] then Inl ValueError
         else (case digits_value 0 ds of
                 None \<Rightarrow> Inl ValueError
               | Some n \<Rightarrow> Inr (if neg then - int n else int n)))"

section \<open>Templates\<close>

text \<open>\<open>string.Template.substitute\<close>\<close>

definition id_start :: "char \<Rightarrow> bool" where
  "id_start c \<longleftrightarrow> is_letter c \<or> c = CHR ''_''"

definition id_char :: "char \<Rightarrow> bool" where
  "id_char c \<longleftrightarrow> id_start c \<or> digit_value c \<noteq> None"

function (sequential) substitute :: "(string, string) dict \<Rightarrow> string \<Rightarrow> string res" where
  "substitute m [] = Inr []"
| "substitute m (c # s) =
     (if c \<noteq> CHR ''$'' then bind_res (substitute m s) (\<lambda>r. Inr (c # r))
      else (case s of
              [] \<Rightarrow> Inl ValueError
            | d # s' \<Rightarrow>
                if d = CHR ''$'' then bind_res (substitute m s') (\<lambda>r. Inr (d # r))
                else if d = CHR ''{'' then
                  (let name = takeWhile id_char s'; rest = dropWhile id_char s' in
                   if name = [] \<or> \<not> id_start (hd name) \<or> rest = [] \<or> hd rest \<noteq> CHR ''}'' then Inl ValueError
                   else bind_res (dict_index m name) (\<lambda>v.
                        bind_res (substitute m (drop 1 rest)) (\<lambda>r. Inr (v @ r))))
                else if id_start d then
                  bind_res (dict_index m (takeWhile id_char s)) (\<lambda>v.
                  bind_res (substitute m (dropWhile id_char s)) (\<lambda>r. Inr (v @ r)))
                else Inl ValueError))"
  by pat_completeness auto

termination
proof (relation "measure (\<lambda>(m, s). length s)", goal_cases)
  case (4 m c s d s' name rest v)
  have "length (dropWhile id_char s') \<le> length s'" by (rule length_dropWhile_le)
  then show ?case using 4 by simp
next
  case (5 m c s d s' v)
  have "length (dropWhile id_char s) \<le> length s" by (rule length_dropWhile_le)
  then show ?case by simp
qed auto

end
