(* ===== verification/SconsActions.thy ===== *)
theory SconsActions
  imports ScriptHelper FileSystem PyStdlib
begin

text \<open>
  The functions of \<open>scons_helper.py\<close> that work on files while SCons runs the generated script:
  python binaries, resource files, and the link of programs in a temporary file system. Nodes
  of SCons are their paths. A command line is run by a \<open>shell\<close>, which gives the files it
  leaves, its two outputs and its code.
\<close>

section \<open>The state\<close>

type_synonym shell = "string \<Rightarrow> string \<Rightarrow> fs \<Rightarrow> fs \<times> string \<times> string \<times> int"

datatype file_op = Wrote string string | Copied string string | Moved string string | SConsignWritten

text \<open>\<open>hs_tmp_dir\<close> and \<open>hs_verbose\<close> are the two global variables of the module.\<close>

record helper_state =
  hs_cwd :: string
  hs_fs :: fs
  hs_ops :: "file_op list"
  hs_console :: "msg list"
  hs_printed :: "string list"
  hs_tmp_dir :: string
  hs_verbose :: bool

definition hs_path :: "string \<Rightarrow> helper_state \<Rightarrow> string list" where
  "hs_path p s = os_segs (hs_cwd s) p"

definition hs_say :: "msg list \<Rightarrow> helper_state \<Rightarrow> helper_state" where
  "hs_say ms s = s\<lparr>hs_console := hs_console s @ ms\<rparr>"

definition hs_print :: "string list \<Rightarrow> helper_state \<Rightarrow> helper_state" where
  "hs_print ls s = s\<lparr>hs_printed := hs_printed s @ ls\<rparr>"

definition hs_log :: "file_op \<Rightarrow> helper_state \<Rightarrow> helper_state" where
  "hs_log e s = s\<lparr>hs_ops := hs_ops s @ [e]\<rparr>"

definition hs_do :: "(fs \<Rightarrow> fs res) \<Rightarrow> helper_state \<Rightarrow> helper_state res" where
  "hs_do f s = bind_res (f (hs_fs s)) (\<lambda>fs'. Inr (s\<lparr>hs_fs := fs'\<rparr>))"

definition hs_run :: "shell \<Rightarrow> string \<Rightarrow> string \<Rightarrow> helper_state \<Rightarrow> (string \<times> string \<times> int) \<times> helper_state" where
  "hs_run sh cmd dir s = (let (fs', result) = sh cmd dir (hs_fs s) in (result, s\<lparr>hs_fs := fs'\<rparr>))"

text \<open>\<open>os.path.exists\<close>, \<open>os.makedirs\<close> and \<open>os.mkdir\<close>: the empty path names nothing.\<close>

definition hs_exists :: "string \<Rightarrow> helper_state \<Rightarrow> bool" where
  "hs_exists p s \<longleftrightarrow> p \<noteq> [] \<and> fs_exists (hs_fs s) (hs_path p s)"

definition hs_makedirs :: "string \<Rightarrow> helper_state \<Rightarrow> helper_state res" where
  "hs_makedirs p s =
     (if p = [] then Inl OSError
      else case fs_makedirs (rev (dir_segs (hs_cwd s) p)) (hs_fs s) of
             (fs', ok) \<Rightarrow> if ok then Inr (s\<lparr>hs_fs := fs'\<rparr>) else Inl OSError)"

definition hs_mkdir :: "string \<Rightarrow> helper_state \<Rightarrow> helper_state res" where
  "hs_mkdir p s = (if p = [] then Inl OSError else hs_do (fs_mkdir (dir_segs (hs_cwd s) p)) s)"

text \<open>Writing a new or an old file, through links, and \<open>shutil.copyfile\<close>\<close>

definition hs_write :: "string \<Rightarrow> string \<Rightarrow> helper_state \<Rightarrow> helper_state res" where
  "hs_write p content s =
     (if p = [] then Inl OSError
      else bind_res (hs_do (fs_write content (hs_path p s)) s) (\<lambda>s'. Inr (hs_log (Wrote p content) s')))"

definition hs_copyfile :: "string \<Rightarrow> string \<Rightarrow> helper_state \<Rightarrow> helper_state res" where
  "hs_copyfile src dst s =
     (if src = [] \<or> dst = [] then Inl OSError
      else bind_res (hs_do (fs_copyfile (hs_path src s) (hs_path dst s)) s) (\<lambda>s'. Inr (hs_log (Copied src dst) s')))"

section \<open>Python binaries\<close>

definition setup_text :: "string \<Rightarrow> string" where
  "setup_text target_name =
     concat (map (\<lambda>l. l @ newline)
       [[], ''#!/usr/bin/env python'', ''# This file was generated by blade'', [],
        ''from setuptools import find_packages, setup'', [], [], ''setup('',
        ''      name='' @ [quote1] @ target_name @ [quote1] @ '','',
        ''      version='' @ [quote1] @ ''0.1.0'' @ [quote1] @ '','',
        ''      packages=find_packages(),'', ''      zip_safe=True'', '')''])"

text \<open>The setup file, the package's own file, and the sources of the dependencies\<close>

definition split_sources :: "string list \<Rightarrow> (string \<times> string \<times> string list) res" where
  "split_sources source =
     bind_res (nth_res source 0) (\<lambda>first.
     if \<not> endswith first ''setup.py'' then Inr ([], first, drop 1 source)
     else bind_res (nth_res source 1) (\<lambda>second. Inr (first, second, drop 2 source)))"

definition setup_file_step :: "string \<Rightarrow> string \<Rightarrow> string \<Rightarrow> string \<Rightarrow> helper_state \<Rightarrow> helper_state res" where
  "setup_file_step target setup_file init_file_dir target_dir s =
     (if setup_file \<noteq> [] then hs_copyfile setup_file (path_join target_dir ''setup.py'') s
      else
        let target_name = basename init_file_dir
        in if target_name = [] then error_exit (''invalid package for target '' @ target)
           else hs_write (path_join target_dir ''setup.py'') (setup_text target_name) s)"

definition sub_dir_of :: "string \<Rightarrow> string" where
  "sub_dir_of f = join_str [slash] (drop 1 (split_char slash (dirname f)))"

definition copy_dep_source :: "string \<Rightarrow> string \<Rightarrow> helper_state \<Rightarrow> helper_state res" where
  "copy_dep_source package_dir f s =
     (if sub_dir_of f = [] then Inr s
      else
        let package_sub_dir = path_join package_dir (sub_dir_of f);
            sub_init_file = path_join package_sub_dir ''__init__.py''
        in bind_res (if hs_exists package_sub_dir s then Inr s else hs_makedirs package_sub_dir s) (\<lambda>s1.
           bind_res (if hs_exists sub_init_file s1 then Inr s1 else hs_write sub_init_file [] s1) (\<lambda>s2.
           hs_copyfile f (path_join package_sub_dir (basename f)) s2)))"

definition run_or_exit :: "shell \<Rightarrow> string \<Rightarrow> string \<Rightarrow> string \<Rightarrow> helper_state \<Rightarrow> helper_state res" where
  "run_or_exit sh cmd dir failure s =
     (let ((std_out, std_err, returncode), s') = hs_run sh cmd dir s
      in if returncode \<noteq> 0 then error_exit failure else Inr s')"

definition warn_no_setup :: "string \<Rightarrow> string \<Rightarrow> helper_state \<Rightarrow> helper_state" where
  "warn_no_setup setup_file target s =
     (if setup_file = []
      then hs_say [Warning (''setup.py not existed to generate target '' @ target @
        '', blade will generate a default one for you'')] s
      else s)"

definition clear_package :: "string \<Rightarrow> helper_state \<Rightarrow> helper_state" where
  "clear_package package_dir s =
     (if hs_exists package_dir s then s\<lparr>hs_fs := fs_rmtree (hs_path package_dir s) (hs_fs s)\<rparr> else s)"

definition generate_python_binary :: "shell \<Rightarrow> string \<Rightarrow> string list \<Rightarrow> helper_state \<Rightarrow> (int \<times> helper_state) res" where
  "generate_python_binary sh target source s0 =
     bind_res (split_sources source) (\<lambda>(setup_file, init_file, deps).
     let s1 = warn_no_setup setup_file target s0;
         init_file_dir = dirname init_file;
         target_profile = hd (split_char slash target);
         target_dir = join_str [slash] (butlast (split_char slash target));
         package_dir = path_join target_profile init_file_dir
     in bind_res (if hs_exists target_dir s1 then Inr s1 else hs_makedirs target_dir s1) (\<lambda>s2.
        bind_res (setup_file_step target setup_file init_file_dir target_dir s2) (\<lambda>s3.
        let s4 = clear_package package_dir s3
        in bind_res (run_or_exit sh (''cp -r '' @ init_file_dir @ '' '' @ target_dir) (hs_cwd s4)
             (''failed to copy source files from '' @ init_file_dir @ '' to '' @ target_dir) s4) (\<lambda>s5.
        bind_res (fold_res (copy_dep_source package_dir) deps s5) (\<lambda>s6.
        bind_res (run_or_exit sh ''python setup.py bdist_egg'' target_dir
             (''failed to generate python binary in '' @ target_dir) s6) (\<lambda>s7.
        Inr (0, s7)))))))"

section \<open>Resources\<close>

definition generate_resource_header :: "string \<Rightarrow> (string \<times> nat) list \<Rightarrow> helper_state \<Rightarrow> helper_state res" where
  "generate_resource_header res_header_path source s =
     (let dir = dirname res_header_path
      in bind_res (if hs_exists dir s then Inr s else hs_mkdir dir s)
           (hs_write res_header_path (resource_header source)))"

definition generate_resource_file :: "shell \<Rightarrow> string \<Rightarrow> string \<Rightarrow> helper_state \<Rightarrow> (int \<times> helper_state) res" where
  "generate_resource_file sh new_src_path src_path s =
     bind_res (run_or_exit sh
       (''xxd -i '' @ src_path @ '' | sed '' @ [quote2] @ ''s/unsigned char /const char RESOURCE_/g'' @ [quote2] @
        '' > '' @ new_src_path) (hs_cwd s) ''failed to generate resource file'' s) (\<lambda>s'. Inr (0, s'))"

text \<open>The command of an ordinary build step, with the colours of \<open>ScriptHelper\<close>\<close>

definition echospawn :: "bool \<Rightarrow> shell \<Rightarrow> string list \<Rightarrow> helper_state \<Rightarrow> (int \<times> string \<times> string \<times> helper_state) res" where
  "echospawn color_enabled sh args s =
     (let ((std_out, std_err, returncode), s') = hs_run sh (join_str '' '' args) (hs_cwd s) s
      in bind_res (echo_result color_enabled returncode std_out std_err) (\<lambda>(o', e').
         Inr (returncode, o', e', s')))"

section \<open>Linking in a temporary file system\<close>

text \<open>
  \<open>tempfile.mkstemp\<close> makes an empty file, with the random part of the name it finds free;
  \<open>same_fs\<close> says whether \<open>shutil.move\<close> can rename, or has to copy and remove.
\<close>

definition temporary_name :: "string \<Rightarrow> string \<Rightarrow> string \<Rightarrow> helper_state \<Rightarrow> string" where
  "temporary_name name_start rnd name_end s =
     abspath (hs_cwd s) (path_join (hs_tmp_dir s) (name_start @ rnd @ name_end))"

definition fl_prefix :: "string \<Rightarrow> string" where
  "fl_prefix target_file = ''blade_'' @ replace_str ''.'' ''_'' (replace_str [slash] ''_'' target_file)"

definition blade_action_postfunc :: "string \<Rightarrow> helper_state \<Rightarrow> helper_state" where
  "blade_action_postfunc closing_message s = hs_log SConsignWritten (hs_say [Info closing_message] s)"

definition fast_link_end ::
  "bool \<Rightarrow> string \<Rightarrow> string \<Rightarrow> int \<Rightarrow> helper_state \<Rightarrow> (int option \<times> helper_state) res" where
  "fast_link_end same_fs temporary_file target_file returncode s =
     (if returncode = 0 then
        bind_res (hs_do (fs_move_file same_fs (hs_path temporary_file s) (hs_path target_file s)) s) (\<lambda>s1.
        let s2 = hs_log (Moved temporary_file target_file) s1
        in Inr (None, if hs_exists target_file s2 then s2
             else hs_say [Warning (''failed to genreate '' @ target_file @ '' in link on tmpfs mode'')] s2))
      else Inr (Some returncode, blade_action_postfunc ''failed while fast linking'' s))"

definition fast_link_helper ::
  "shell \<Rightarrow> string \<Rightarrow> bool \<Rightarrow> string \<Rightarrow> string list \<Rightarrow> string \<Rightarrow> helper_state \<Rightarrow> (int option \<times> helper_state) res" where
  "fast_link_helper sh rnd same_fs target_file sources link_com s0 =
     (let temporary_file = temporary_name (fl_prefix target_file) rnd ''xianxian'' s0
      in bind_res (hs_do (fs_make (FFile []) (hs_path temporary_file s0)) s0) (\<lambda>s1.
         bind_res (substitute [(''FL_TARGET'', temporary_file), (''FL_SOURCE'', join_str '' '' sources)] link_com)
           (\<lambda>link_com_str.
         let ((std_out, std_err, returncode), s2) = hs_run sh link_com_str (hs_cwd s1) s1
         in fast_link_end same_fs temporary_file target_file returncode
              (hs_print (filter (\<lambda>t. t \<noteq> []) [std_out, std_err]) s2))))"

text \<open>The two actions: the variables of the environment are substituted by SCons.\<close>

definition link_template :: "(string \<Rightarrow> string) \<Rightarrow> string \<Rightarrow> string \<Rightarrow> string" where
  "link_template subst linker flags =
     subst linker @ '' -o $FL_TARGET '' @ subst flags @ '' '' @ subst ''$__RPATH'' @ '' $FL_SOURCE '' @
     subst ''$_LIBDIRFLAGS'' @ '' '' @ subst ''$_LIBFLAGS''"

definition fast_link_sharelib_action ::
  "shell \<Rightarrow> string \<Rightarrow> bool \<Rightarrow> (string \<Rightarrow> string) \<Rightarrow> string \<Rightarrow> string list \<Rightarrow> helper_state \<Rightarrow> (int option \<times> helper_state) res" where
  "fast_link_sharelib_action sh rnd same_fs subst target source s =
     fast_link_helper sh rnd same_fs target source (link_template subst ''$SHLINK'' ''$SHLINKFLAGS'') s"

definition fast_link_prog_action ::
  "shell \<Rightarrow> string \<Rightarrow> bool \<Rightarrow> (string \<Rightarrow> string) \<Rightarrow> string \<Rightarrow> string list \<Rightarrow> helper_state \<Rightarrow> (int option \<times> helper_state) res" where
  "fast_link_prog_action sh rnd same_fs subst target source s =
     fast_link_helper sh rnd same_fs target source (link_template subst ''$LINK'' ''$LINKFLAGS'') s"

section \<open>The builders of the environment\<close>

datatype link_action = SharedCheck | FastLinkSharelib "string option" | FastLinkProg "string option"

record builder =
  bu_action :: "link_action list"
  bu_emitter :: string
  bu_prefix :: string
  bu_suffix :: string
  bu_src_suffix :: string
  bu_src_builder :: string

text \<open>\<open>MakeAction\<close>: the message that replaces the command, unless the option is verbose\<close>

definition make_action :: "(string option \<Rightarrow> link_action) \<Rightarrow> string \<Rightarrow> helper_state \<Rightarrow> link_action" where
  "make_action action cmdstr s = action (if hs_verbose s then None else Some cmdstr)"

definition create_fast_link_prog_builder :: "helper_state \<Rightarrow> (string, builder) dict \<Rightarrow> (string, builder) dict" where
  "create_fast_link_prog_builder s builders =
     dict_set ''Program''
       \<lparr>bu_action = [make_action FastLinkProg ''$LINKCOMSTR'' s], bu_emitter = ''$PROGEMITTER'',
        bu_prefix = ''$PROGPREFIX'', bu_suffix = ''$PROGSUFFIX'', bu_src_suffix = ''$OBJSUFFIX'',
        bu_src_builder = ''Object''\<rparr> builders"

definition create_fast_link_sharelib_builder :: "helper_state \<Rightarrow> (string, builder) dict \<Rightarrow> (string, builder) dict" where
  "create_fast_link_sharelib_builder s builders =
     dict_set ''SharedLibrary''
       \<lparr>bu_action = [SharedCheck, make_action FastLinkSharelib ''$SHLINKCOMSTR'' s],
        bu_emitter = ''$SHLIBEMITTER'', bu_prefix = ''$SHLIBPREFIX'', bu_suffix = ''$SHLIBSUFFIX'',
        bu_src_suffix = ''$SHOBJSUFFIX'', bu_src_builder = ''SharedObject''\<rparr> builders"

definition tmpfs_query :: string where
  "tmpfs_query = ''df | grep tmpfs | awk '' @ [quote1] @ ''{print $5, $6}'' @ [quote1]"

text \<open>The first line of the answer: the part in use, in percent, and the place\<close>

definition first_tmpfs :: "string \<Rightarrow> (string \<times> string) res" where
  "first_tmpfs std_out =
     (case split_ws (hd (split_char CHR 0x0A std_out)) of
        [usage, dir] \<Rightarrow> Inr (usage, dir)
      | _ \<Rightarrow> Inl ValueError)"

definition create_fast_link_builders ::
  "shell \<Rightarrow> (string, builder) dict \<Rightarrow> helper_state \<Rightarrow> ((string, builder) dict \<times> helper_state) res" where
  "create_fast_link_builders sh builders s0 =
     (let ((std_out, std_err, returncode), s1) = hs_run sh tmpfs_query (hs_cwd s0) s0
      in if returncode \<noteq> 0 then
           Inr (builders, hs_say [Warning ''you have link on tmp enabled, but it is not fullfilled to make it.''] s1)
         else if std_out = [] then
           Inr (builders, hs_say [Warning ''you have link on tmp enabled, but there is no tmpfs to make it.''] s1)
         else
           bind_res (first_tmpfs std_out) (\<lambda>(usage, dir).
           let s2 = s1\<lparr>hs_tmp_dir := dir\<rparr>
           in bind_res (int_of_str (replace_str ''%'' [] usage)) (\<lambda>percent.
              if percent > 90 then
                Inr (builders, hs_say [Warning (''you have link on tmp enabled, but there is not enough space on '' @
                  dir @ '' to make it.'')] s2)
              else
                Inr (create_fast_link_prog_builder s2 (create_fast_link_sharelib_builder s2 builders),
                  hs_say [Info ''building in link on tmpfs mode''] s2))))"

section \<open>What a link does to the files\<close>

text \<open>A name that the shell reads as one word\<close>

definition word_chars :: string where
  "word_chars = ''abcdefghijklmnopqrstuvwxyzABCDEFGHIJKLMNOPQRSTUVWXYZ0123456789/._-+''"

definition plain_word :: "string \<Rightarrow> bool" where
  "plain_word w \<longleftrightarrow> w \<noteq> [] \<and> set w \<subseteq> set word_chars"

text \<open>
  What a linker does when the command line of \<open>link_com\<close> is run for an output \<open>T\<close> and sources
  \<open>S\<close>: it writes no file but \<open>T\<close>, and when it succeeds \<open>T\<close> holds \<open>out S fs\<close>, the program linked
  from these sources.
\<close>

definition links_with :: "shell \<Rightarrow> string \<Rightarrow> string \<Rightarrow> (string \<Rightarrow> fs \<Rightarrow> string) \<Rightarrow> bool" where
  "links_with sh dir link_com out \<longleftrightarrow>
     (\<forall>T S cmd p fs fs' std_out std_err code.
        plain_word T \<longrightarrow> substitute [(''FL_TARGET'', T), (''FL_SOURCE'', S)] link_com = Inr cmd \<longrightarrow>
        fs_real fs (os_segs dir T) = Some p \<longrightarrow> sh cmd dir fs = (fs', std_out, std_err, code) \<longrightarrow>
        (\<forall>q. q \<noteq> p \<longrightarrow> fs' q = fs q) \<and> (code = 0 \<longrightarrow> fs' p = Some (FFile (out S fs))))"

lemma hs_do_Inr: "hs_do f s = Inr s' \<longleftrightarrow> (\<exists>fs'. f (hs_fs s) = Inr fs' \<and> s' = s\<lparr>hs_fs := fs'\<rparr>)"
  by (auto simp: hs_do_def bind_res_eq_Inr)

lemma hs_frame [frame_simps]:
  "hs_fs (hs_say ms s) = hs_fs s" "hs_fs (hs_print ls s) = hs_fs s" "hs_fs (hs_log e s) = hs_fs s"
  "hs_path p (hs_say ms s) = hs_path p s" "hs_path p (hs_print ls s) = hs_path p s" "hs_path p (hs_log e s) = hs_path p s"
  "hs_path p (s\<lparr>hs_fs := fs\<rparr>) = hs_path p s"
  by (simp_all add: hs_say_def hs_print_def hs_log_def hs_path_def)

lemma fast_link_end_files:
  assumes "fast_link_end same_fs tf target_file rc s = Inr (code, s')"
  shows "if rc = 0 then code = None \<and>
      fs_move_file same_fs (hs_path tf s) (hs_path target_file s) (hs_fs s) = Inr (hs_fs s')
    else code = Some rc \<and> hs_fs s' = hs_fs s"
proof (cases "rc = 0")
  case True
  from assms obtain fs' where move: "fs_move_file same_fs (hs_path tf s) (hs_path target_file s) (hs_fs s) = Inr fs'"
    and res: "(let s2 = hs_log (Moved tf target_file) (s\<lparr>hs_fs := fs'\<rparr>)
        in Inr (None, if hs_exists target_file s2 then s2
             else hs_say [Warning (''failed to genreate '' @ target_file @ '' in link on tmpfs mode'')] s2)) =
      (Inr (code, s') :: (int option \<times> helper_state) res)"
    unfolding fast_link_end_def if_P [OF True] bind_res_eq_Inr hs_do_Inr by (elim exE conjE) simp
  note res = res [unfolded Let_def sum.inject prod.inject]
  have "hs_fs s' = fs'"
    unfolding conjunct2 [OF res, symmetric] by (simp add: if_distrib [of hs_fs] frame_simps)
  moreover have "code = None" using res by simp
  ultimately show ?thesis using True move by simp
next
  case False
  with assms show ?thesis by (auto simp: fast_link_end_def blade_action_postfunc_def frame_simps)
qed

lemma fast_link_helper_files:
  assumes "fast_link_helper sh rnd same_fs target_file sources link_com s = Inr (code, s')"
    and tf: "tf = temporary_name (fl_prefix target_file) rnd ''xianxian'' s"
  obtains fs1 cmd fs2 std_out std_err rc s2 where
    "fs_make (FFile []) (hs_path tf s) (hs_fs s) = Inr fs1"
    and "substitute [(''FL_TARGET'', tf), (''FL_SOURCE'', join_str '' '' sources)] link_com = Inr cmd"
    and "sh cmd (hs_cwd s) fs1 = (fs2, std_out, std_err, rc)"
    and "fast_link_end same_fs tf target_file rc s2 = Inr (code, s')"
    and "hs_fs s2 = fs2" and "\<And>p. hs_path p s2 = hs_path p s"
proof -
  obtain fs1 cmd where 1: "fs_make (FFile []) (hs_path tf s) (hs_fs s) = Inr fs1"
      "substitute [(''FL_TARGET'', tf), (''FL_SOURCE'', join_str '' '' sources)] link_com = Inr cmd"
    and 2: "(let ((std_out, std_err, rc), s2) = hs_run sh cmd (hs_cwd s) (s\<lparr>hs_fs := fs1\<rparr>)
       in fast_link_end same_fs tf target_file rc
            (hs_print (filter (\<lambda>t. t \<noteq> []) [std_out, std_err]) s2)) = Inr (code, s')"
    using assms unfolding fast_link_helper_def Let_def bind_res_eq_Inr hs_do_Inr by (elim exE conjE) simp
  obtain fs2 std_out std_err rc where 3: "sh cmd (hs_cwd s) fs1 = (fs2, std_out, std_err, rc)" by (metis prod.exhaust)
  have "hs_run sh cmd (hs_cwd s) (s\<lparr>hs_fs := fs1\<rparr>) = ((std_out, std_err, rc), s\<lparr>hs_fs := fs2\<rparr>)"
    using 3 by (simp add: hs_run_def)
  note fin = 2 [unfolded this Let_def prod.case]
  show thesis by (rule that [OF 1 3 fin]) (simp_all add: frame_simps)
qed


text \<open>A linker for \<open>ld -o TARGET SOURCES\<close> that concatenates the sources\<close>

definition demo_out :: "string \<Rightarrow> fs \<Rightarrow> string" where
  "demo_out S fs = (case map_res (\<lambda>w. fs_read (os_segs ''/'' w) fs) (split_ws S) of Inl _ \<Rightarrow> [] | Inr cs \<Rightarrow> concat cs)"

definition demo_linker :: shell where
  "demo_linker cmd dir fs =
     (case split_ws cmd of
        ld # o_flag # T # ws \<Rightarrow>
          (case map_res (\<lambda>w. fs_read (os_segs ''/'' w) fs) ws of
             Inl _ \<Rightarrow> (fs, [], ''ld: no input'', 1)
           | Inr cs \<Rightarrow>
               (case fs_write (concat cs) (os_segs dir T) fs of
                  Inl _ \<Rightarrow> (fs, [], ''ld: no output'', 1)
                | Inr fs' \<Rightarrow> (fs', [], [], 0)))
      | _ \<Rightarrow> (fs, [], ''ld: usage'', 2))"

definition demo_com :: string where
  "demo_com = ''ld -o $FL_TARGET $FL_SOURCE''"

lemma word_no_space: "set word_chars \<inter> set ws_chars = {}"
  by code_simp

lemma split_ws_aux_word:
  "set w \<inter> set ws_chars = {} \<Longrightarrow> split_ws_aux acc (w @ CHR '' '' # r) =
     (if rev w @ acc = [] then split_ws r else rev (rev w @ acc) # split_ws r)"
  by (induction w arbitrary: acc) (auto simp: split_ws_def ws_chars_def)

lemma split_ws_word: "set w \<inter> set ws_chars = {} \<Longrightarrow> w \<noteq> [] \<Longrightarrow> split_ws (w @ CHR '' '' # r) = w # split_ws r"
  using split_ws_aux_word [of w "[]" r] by (simp add: split_ws_def)

lemma demo_command:
  "substitute [(''FL_TARGET'', T), (''FL_SOURCE'', S)] demo_com = Inr (''ld -o '' @ T @ '' '' @ S)"
proof -
  have "substitute [(''FL_TARGET'', T), (''FL_SOURCE'', S)] demo_com = Inr (''ld -o '' @ T @ '' '' @ S @ [])"
    by code_simp
  then show ?thesis by (simp only: append_Nil2)
qed

lemma demo_words:
  assumes "plain_word T"
  shows "split_ws (''ld -o '' @ T @ '' '' @ S) = ''ld'' # ''-o'' # T # split_ws S"
proof -
  have "set T \<inter> set ws_chars = {}" "T \<noteq> []" using assms word_no_space by (auto simp: plain_word_def)
  moreover have "set ''ld'' \<inter> set ws_chars = {}" "set ''-o'' \<inter> set ws_chars = {}" by code_simp+
  ultimately show ?thesis
    using split_ws_word [of "''ld''" "''-o '' @ T @ '' '' @ S"] split_ws_word [of "''-o''" "T @ '' '' @ S"]
      split_ws_word [of T S] by simp
qed

lemma demo_links: "links_with demo_linker ''/'' demo_com demo_out"
  unfolding links_with_def
proof (intro allI impI)
  fix T S cmd p fs fs' std_out std_err code
  assume T: "plain_word T" and cmd: "substitute [(''FL_TARGET'', T), (''FL_SOURCE'', S)] demo_com = Inr cmd"
    and p: "fs_real fs (os_segs ''/'' T) = Some p" and run: "demo_linker cmd ''/'' fs = (fs', std_out, std_err, code)"
  have c: "''ld -o '' @ T @ '' '' @ S = cmd" using cmd unfolding demo_command sum.inject .
  have "split_ws cmd = ''ld'' # ''-o'' # T # split_ws S"
    unfolding c [symmetric] by (rule demo_words [OF T])
  then show "(\<forall>q. q \<noteq> p \<longrightarrow> fs' q = fs q) \<and> (code = 0 \<longrightarrow> fs' p = Some (FFile (demo_out S fs)))"
    using run p by (auto simp: demo_linker_def demo_out_def fs_write_def split: sum.splits if_splits)
qed

definition demo_helper :: helper_state where
  "demo_helper = \<lparr>hs_cwd = ''/'', hs_fs = (\<lambda>p. if p = [] \<or> p = [''t''] then Some FDir
       else if p = [''b''] then Some (FFile ''object'') else None), hs_ops = [],
     hs_console = [], hs_printed = [], hs_tmp_dir = ''/t'', hs_verbose = False\<rparr>"

definition demo_tmp :: "string list" where
  "demo_tmp = [''t'', ''blade_arxianxian'']"

lemma demo_places:
  "fs_place (hs_fs demo_helper) (hs_path (temporary_name (fl_prefix ''a'') ''r'' ''xianxian'' demo_helper) demo_helper) =
     Some demo_tmp"
  "fs_place (hs_fs demo_helper) (hs_path ''a'' demo_helper) = Some [''a'']"
  "plain_word (temporary_name (fl_prefix ''a'') ''r'' ''xianxian'' demo_helper)"
  by code_simp+

lemma demo_link:
  "case fast_link_helper demo_linker ''r'' False ''a'' [''b''] demo_com demo_helper of
     Inr (None, s') \<Rightarrow> True | _ \<Rightarrow> False"
  by code_simp


section \<open>What a python binary is made of\<close>

definition copies :: "helper_state \<Rightarrow> (string \<times> string) list" where
  "copies s = concat (map (\<lambda>e. case e of Copied a b \<Rightarrow> [(a, b)] | _ \<Rightarrow> []) (hs_ops s))"

lemma copies_frame [frame_simps]:
  "copies (hs_say ms s) = copies s" "copies (s\<lparr>hs_fs := fs\<rparr>) = copies s"
  "copies (warn_no_setup setup target s) = copies s" "copies (clear_package dir s) = copies s"
  by (simp_all add: copies_def hs_say_def warn_no_setup_def clear_package_def)

lemma hs_do_copies: "hs_do f s = Inr s' \<Longrightarrow> copies s' = copies s"
  by (auto simp: hs_do_Inr frame_simps)

lemma hs_makedirs_copies: "hs_makedirs p s = Inr s' \<Longrightarrow> copies s' = copies s"
  by (auto simp: hs_makedirs_def frame_simps split: if_splits prod.splits)

lemma hs_write_copies: "hs_write p c s = Inr s' \<Longrightarrow> copies s' = copies s"
  by (auto simp: hs_write_def bind_res_eq_Inr hs_log_def copies_def hs_do_Inr split: if_splits)

lemma hs_copyfile_copies: "hs_copyfile a b s = Inr s' \<Longrightarrow> copies s' = copies s @ [(a, b)]"
  by (auto simp: hs_copyfile_def bind_res_eq_Inr hs_log_def copies_def hs_do_Inr split: if_splits)

lemma run_or_exit_copies: "run_or_exit sh cmd dir m s = Inr s' \<Longrightarrow> copies s' = copies s"
  by (auto simp: run_or_exit_def hs_run_def frame_simps split: if_splits prod.splits)

text \<open>Where the source of a dependency goes\<close>

definition package_place :: "string \<Rightarrow> string \<Rightarrow> string" where
  "package_place package_dir f = path_join (path_join package_dir (sub_dir_of f)) (basename f)"

lemma copy_dep_source_copies:
  assumes "copy_dep_source pd f s = Inr s'"
  shows "copies s' = copies s @ (if sub_dir_of f = [] then [] else [(f, package_place pd f)])"
proof (cases "sub_dir_of f = []")
  case False
  let ?dir = "path_join pd (sub_dir_of f)"
  from assms False obtain s1 s2 where
      1: "(if hs_exists ?dir s then Inr s else hs_makedirs ?dir s) = Inr s1"
    and 2: "(if hs_exists (path_join ?dir ''__init__.py'') s1 then Inr s1
        else hs_write (path_join ?dir ''__init__.py'') [] s1) = Inr s2"
    and 3: "hs_copyfile f (path_join ?dir (basename f)) s2 = Inr s'"
    unfolding copy_dep_source_def Let_def if_not_P [OF False] bind_res_eq_Inr by blast
  have "copies s1 = copies s" using 1 hs_makedirs_copies by (auto split: if_splits)
  moreover have "copies s2 = copies s1" using 2 hs_write_copies by (auto split: if_splits)
  ultimately show ?thesis using hs_copyfile_copies [OF 3] False by (simp add: package_place_def)
qed (use assms in \<open>simp add: copy_dep_source_def\<close>)

lemma copy_deps_copies:
  "fold_res (copy_dep_source pd) deps s = Inr s' \<Longrightarrow>
     copies s' = copies s @ map (\<lambda>f. (f, package_place pd f)) (filter (\<lambda>f. sub_dir_of f \<noteq> []) deps)"
proof (induction deps arbitrary: s)
  case (Cons f deps)
  then obtain t where "copy_dep_source pd f s = Inr t" "fold_res (copy_dep_source pd) deps t = Inr s'"
    by (auto simp: bind_res_eq_Inr)
  with Cons.IH [of t] copy_dep_source_copies [of pd f s t] show ?case by simp
qed simp

lemma setup_file_copies:
  assumes "setup_file_step target setup init_dir target_dir s = Inr s'"
  shows "copies s' = copies s @ (if setup = [] then [] else [(setup, path_join target_dir ''setup.py'')])"
  using assms hs_copyfile_copies hs_write_copies
  unfolding setup_file_step_def Let_def by (auto split: if_splits)

text \<open>C17: A python binary that is made returns 0, and the copies made for it are exactly: the setup
  file, if there is one, and, in their order, the sources of the dependencies that lie at least
  one directory below the first directory of their path. The others are left out.\<close>

theorem python_binary_sources:
  assumes run: "generate_python_binary sh target source s = Inr (rc, s')"
    and src: "split_sources source = Inr (setup, init, deps)"
  shows "rc = 0 \<and> copies s' = copies s @
      (if setup = [] then []
       else [(setup, path_join (join_str [slash] (butlast (split_char slash target))) ''setup.py'')]) @
      map (\<lambda>f. (f, package_place (path_join (hd (split_char slash target)) (dirname init)) f))
        (filter (\<lambda>f. sub_dir_of f \<noteq> []) deps)"
proof -
  let ?target_dir = "join_str [slash] (butlast (split_char slash target))"
  let ?pd = "path_join (hd (split_char slash target)) (dirname init)"
  obtain s2 s3 s5 s6 cmd1 d1 m1 cmd2 d2 m2 where
      2: "(if hs_exists ?target_dir (warn_no_setup setup target s) then Inr (warn_no_setup setup target s)
        else hs_makedirs ?target_dir (warn_no_setup setup target s)) = Inr s2"
    and 3: "setup_file_step target setup (dirname init) ?target_dir s2 = Inr s3"
    and 5: "run_or_exit sh cmd1 d1 m1 (clear_package ?pd s3) = Inr s5"
    and 6: "fold_res (copy_dep_source ?pd) deps s5 = Inr s6"
    and 7: "run_or_exit sh cmd2 d2 m2 s6 = Inr s'" and fin: "rc = 0"
    using run unfolding generate_python_binary_def src bind_res_simps prod.case Let_def bind_res_eq_Inr
      sum.inject prod.inject
    by (elim exE conjE) (rule that, (assumption | simp)+)
  have "copies s2 = copies s" using 2 hs_makedirs_copies by (auto simp: frame_simps split: if_splits)
  then show ?thesis
    using setup_file_copies [OF 3] run_or_exit_copies [OF 5] copy_deps_copies [OF 6] run_or_exit_copies [OF 7] fin
    by (simp add: frame_simps)
qed

definition demo_python :: helper_state where
  "demo_python = demo_helper\<lparr>hs_fs := (\<lambda>p. if p \<in> {[], [''x''], [''q''], [''q'', ''r'']} then Some FDir
     else if p = [''q'', ''r'', ''f''] then Some (FFile []) else None)\<rparr>"

lemma demo_python_ok:
  "is_ok (generate_python_binary (\<lambda>cmd dir fs. (fs, [], [], 0)) ''x/e'' [''p/i'', ''q/r/f'', ''q/g''] demo_python)"
  by code_simp

theorem python_binary_sources_witness:
  "\<exists>s'. generate_python_binary (\<lambda>cmd dir fs. (fs, [], [], 0)) ''x/e'' [''p/i'', ''q/r/f'', ''q/g''] demo_python = Inr (0, s') \<and>
     copies s' = [(''q/r/f'', ''x/p/r/f'')]"
proof -
  obtain rc s' where run: "generate_python_binary (\<lambda>cmd dir fs. (fs, [], [], 0)) ''x/e'' [''p/i'', ''q/r/f'', ''q/g'']
      demo_python = Inr (rc, s')"
    using demo_python_ok unfolding is_ok_iff split_paired_Ex by blast
  have src: "split_sources [''p/i'', ''q/r/f'', ''q/g''] = Inr ([], ''p/i'', [''q/r/f'', ''q/g''])" by code_simp
  have start: "copies demo_python = []" by (simp add: copies_def demo_python_def demo_helper_def)
  have val: "map (\<lambda>f. (f, package_place (path_join (hd (split_char slash ''x/e'')) (dirname ''p/i'')) f))
      (filter (\<lambda>f. sub_dir_of f \<noteq> []) [''q/r/f'', ''q/g'']) = [(''q/r/f'', ''x/p/r/f'')]" by code_simp
  from python_binary_sources [OF run src] have "rc = 0" "copies s' = [(''q/r/f'', ''x/p/r/f'')]"
    unfolding start val by simp_all
  with run show ?thesis by blast
qed

end
