(* ===== verification/BuildEnvironment.thy ===== *)
theory BuildEnvironment
  imports FileSystem BladeState "HOL-Library.Multiset"
begin

text \<open>
  \<open>build_environment.py\<close>: the compiler caches and distributed compilers the environment offers,
  and the manager of the build cache, which removes the files of least weight. What a program
  that is started prints, the environment and the sizes and times of the cached files come from
  outside; so does the weight, which the code computes in floating point.
\<close>

section \<open>Compiler caches and distributed compilers\<close>

text \<open>\<open>Popen\<close> raises \<open>OSError\<close>, or the program ends with a code, its output and its errors.\<close>

datatype tool = NoTool | Tool int string string

record build_environment =
  be_root_dir :: string
  be_ccache :: bool
  be_distcc_prepared :: bool
  be_distcc_installed :: bool
  be_distcc_hosts :: string
  be_distcc_log :: string
  be_dccc_prepared :: bool
  be_dccc_master :: string
  be_dccc_hosts :: string
  be_dccc_installed :: bool
  be_rules :: "string list"
  be_console :: "msg list"

definition check_install :: "string \<Rightarrow> string \<Rightarrow> int \<Rightarrow> string \<Rightarrow> (bool \<times> msg list) res" where
  "check_install name word returncode out =
     (if returncode \<noteq> 0 then Inr (False, [])
      else bind_res (first_line out) (\<lambda>version_line.
        Inr (if version_line \<noteq> [] \<and> has_sub word version_line
             then (True, [Info (name @ '' found'')]) else (False, []))))"

definition check_ccache_install :: "tool \<Rightarrow> (bool \<times> msg list) res" where
  "check_ccache_install p =
     (case p of
        NoTool \<Rightarrow> Inr (False, [])
      | Tool returncode out _ \<Rightarrow> check_install ''ccache'' ''ccache version'' returncode out)"

definition check_distcc_install :: "tool \<Rightarrow> (bool \<times> msg list) res" where
  "check_distcc_install p =
     (case p of
        NoTool \<Rightarrow> Inl OSError
      | Tool returncode out _ \<Rightarrow> check_install ''distcc'' ''distcc'' returncode out)"

definition check_dccc_install ::
  "(string \<Rightarrow> bool) \<Rightarrow> (string, string) dict \<Rightarrow> bool \<times> msg list" where
  "check_dccc_install exists environ =
     (let home_dir = dict_get environ ''HOME'' []
      in if home_dir \<noteq> [] \<and> exists (path_joins home_dir [''bin'', ''dccc''])
         then (True, [Info ''dccc found'']) else (False, []))"

definition new_build_env ::
  "tool \<Rightarrow> tool \<Rightarrow> (string \<Rightarrow> bool) \<Rightarrow> (string, string) dict \<Rightarrow> string \<Rightarrow> string \<Rightarrow> build_environment res" where
  "new_build_env ccache distcc exists environ root_dir distcc_hosts_list =
     bind_res (check_ccache_install ccache) (\<lambda>(ccache_installed, ms1).
     bind_res (check_distcc_install distcc) (\<lambda>(distcc_installed, ms2).
     let hosts = (if distcc_hosts_list \<noteq> [] then distcc_hosts_list
                  else dict_get environ ''DISTCC_HOSTS'' []);
         log = dict_get environ ''DISTCC_LOG'' [];
         master = dict_get environ ''MASTER_HOSTS'' [];
         dhosts = dict_get environ ''DISTLD_HOSTS'' [];
         (dccc_installed, ms5) = check_dccc_install exists environ;
         no_master = dccc_installed \<and> master = [] \<and> dhosts = []
     in Inr \<lparr>be_root_dir = root_dir, be_ccache = ccache_installed,
          be_distcc_prepared = (distcc_installed \<and> hosts \<noteq> []), be_distcc_installed = distcc_installed,
          be_distcc_hosts = hosts, be_distcc_log = log, be_dccc_prepared = (dccc_installed \<and> \<not> no_master),
          be_dccc_master = master, be_dccc_hosts = dhosts, be_dccc_installed = dccc_installed,
          be_rules = [],
          be_console = ms1 @ ms2 @
            (if distcc_installed \<and> hosts = []
             then [Warning ''DISTCC_HOSTS not set but you have distcc installed, will just build locally'']
             else []) @
            (if log \<noteq> [] then [Info (''distcc log: '' @ log)] else []) @ ms5 @
            (if no_master
             then [Warning (''MASTER_HOSTS and DISTLD_HOSTS not set but you have dccc installed, '' @
                     ''will just build locally'')]
             else [])\<rparr>))"

definition env_rule :: "string \<Rightarrow> build_environment \<Rightarrow> build_environment" where
  "env_rule rule e = e\<lparr>be_rules := be_rules e @ [rule]\<rparr>"

definition setup_ccache_env :: "build_environment \<Rightarrow> build_environment" where
  "setup_ccache_env e =
     (if be_ccache e
      then env_rule (''top_env.Append(CCACHE_BASEDIR='' @ [quote2] @ be_root_dir e @ [quote2] @ '')'') e else e)"

definition setup_distcc_env :: "build_environment \<Rightarrow> build_environment" where
  "setup_distcc_env e =
     (if be_distcc_installed e
      then env_rule (''top_env.Append(DISTCC_HOSTS='' @ [quote2] @ be_distcc_hosts e @ [quote2] @ '')'') e else e)"

definition get_distcc_hosts_list :: "build_environment \<Rightarrow> string list" where
  "get_distcc_hosts_list e = filter (\<lambda>x. x \<noteq> []) (split_char CHR '' '' (be_distcc_hosts e))"

section \<open>The cache manager\<close>

text \<open>A file of the cache: its name, its size and the time it was last read\<close>

record cache_file =
  cf_name :: string
  cf_size :: nat
  cf_atime :: int

record scache =
  sc_path :: "string option"
  sc_limit :: int
  sc_purge_cnt :: nat

definition sort_desc :: "('a \<Rightarrow> 'w :: linorder) \<Rightarrow> 'a list \<Rightarrow> 'a list" where
  "sort_desc w l = rev (sort_key w (rev l))"

text \<open>The loop over the sizes: the first index at which their sum reaches the limit\<close>

fun start_index :: "int \<Rightarrow> int \<Rightarrow> nat \<Rightarrow> cache_file list \<Rightarrow> nat option" where
  "start_index limit total_sz i [] = None"
| "start_index limit total_sz i (x # xs) =
     (if total_sz + int (cf_size x) \<ge> limit then Some i
      else start_index limit (total_sz + int (cf_size x)) (i + 1) xs)"

definition get_file_list ::
  "(cache_file \<Rightarrow> 'w :: linorder) \<Rightarrow> scache \<Rightarrow> cache_file list \<Rightarrow> string list" where
  "get_file_list weight sc files =
     (if sc_path sc = None \<or> sc_path sc = Some [] \<or> files = [] then []
      else
        let sorted = sort_desc weight files
        in case start_index (sc_limit sc) 0 0 sorted of
             None \<Rightarrow> []
           | Some i \<Rightarrow> if i = 0 then [] else map cf_name (drop i sorted))"

definition cache_remove :: "string \<Rightarrow> string \<Rightarrow> fs \<Rightarrow> fs res" where
  "cache_remove cwd file_item fs =
     (if file_item = [] \<or> \<not> fs_exists fs (os_segs cwd file_item) then Inr fs
      else fs_remove (os_segs cwd file_item) fs)"

definition purge :: "string \<Rightarrow> string list \<Rightarrow> scache \<times> fs \<Rightarrow> (msg list \<times> scache \<times> fs) res" where
  "purge cwd file_list st =
     (case st of (sc, fs) \<Rightarrow>
      let sc' = sc\<lparr>sc_purge_cnt := sc_purge_cnt sc + 1\<rparr>
      in if file_list = [] then Inr ([], sc', fs)
         else bind_res (fold_res (cache_remove cwd) file_list fs) (\<lambda>fs'.
           Inr ([Info ''scons cache purged''], sc', fs')))"

text \<open>The call SCons makes while it builds, with the files in the cache at that time\<close>

definition scache_call ::
  "(cache_file \<Rightarrow> 'w :: linorder) \<Rightarrow> string \<Rightarrow> cache_file list \<Rightarrow> scache \<times> fs \<Rightarrow> (msg list \<times> scache \<times> fs) res" where
  "scache_call weight cwd files st = purge cwd (get_file_list weight (fst st) files) st"

section \<open>Sorting by weight\<close>

lemma sort_desc_mset [simp]: "mset (sort_desc w l) = mset l"
  by (simp add: sort_desc_def)

lemma sort_desc_sorted: "sorted_wrt (\<lambda>a b. w b \<le> w a) (sort_desc w l)"
proof -
  have "sorted (map w (sort_key w (rev l)))" by simp
  then show ?thesis by (simp add: sort_desc_def sorted_wrt_rev sorted_wrt_map)
qed

definition sizes :: "cache_file list \<Rightarrow> int" where
  "sizes l = (\<Sum>x\<leftarrow>l. int (cf_size x))"

lemma sizes_simps [simp]: "sizes [] = 0" "sizes (x # l) = int (cf_size x) + sizes l" "sizes (l @ l') = sizes l + sizes l'"
  by (simp_all add: sizes_def)

lemma sizes_nonneg [simp]: "0 \<le> sizes l"
  by (induction l) simp_all

lemma start_index_cases:
  "case start_index limit total_sz i l of
     None \<Rightarrow> l = [] \<or> total_sz + sizes l < limit
   | Some n \<Rightarrow> \<exists>as x bs. l = as @ x # bs \<and> n = i + length as \<and>
       limit \<le> total_sz + sizes as + int (cf_size x) \<and> (as \<noteq> [] \<longrightarrow> total_sz + sizes as < limit)"
proof (induction l arbitrary: total_sz i)
  case (Cons x l)
  show ?case
  proof (cases "total_sz + int (cf_size x) \<ge> limit")
    case True
    then show ?thesis by (auto intro: exI [of _ "[]"])
  next
    case False
    show ?thesis
    proof (cases "start_index limit (total_sz + int (cf_size x)) (i + 1) l")
      case None
      then show ?thesis using False Cons [of "total_sz + int (cf_size x)" "i + 1"] by auto
    next
      case (Some n)
      with Cons [of "total_sz + int (cf_size x)" "i + 1"] obtain as y bs where
        l: "l = as @ y # bs" "n = i + 1 + length as"
          "limit \<le> total_sz + int (cf_size x) + sizes as + int (cf_size y)"
          "as \<noteq> [] \<longrightarrow> total_sz + int (cf_size x) + sizes as < limit" by auto
      have "x # l = (x # as) @ y # bs \<and> n = i + length (x # as) \<and>
          limit \<le> total_sz + sizes (x # as) + int (cf_size y) \<and> total_sz + sizes (x # as) < limit"
        using l False by (cases "as = []") auto
      note split = this
      have "start_index limit total_sz i (x # l) = Some n" using Some False by simp
      then show ?thesis unfolding \<open>start_index limit total_sz i (x # l) = Some n\<close> option.case
        using split by blast
    qed
  qed
qed simp

lemma sizes_mset: "sizes l = sum_mset (image_mset (\<lambda>x. int (cf_size x)) (mset l))"
  by (induction l) simp_all

text \<open>What is kept and what is removed\<close>

lemma get_file_list_split:
  assumes "get_file_list weight sc files \<noteq> []"
  obtains kept x rest where "sort_desc weight files = kept @ x # rest" and "kept \<noteq> []"
    and "get_file_list weight sc files = map cf_name (x # rest)"
    and "sizes kept < sc_limit sc" and "sc_limit sc \<le> sizes kept + int (cf_size x)"
proof -
  let ?l = "sort_desc weight files"
  obtain i where i: "start_index (sc_limit sc) 0 0 ?l = Some i" "i \<noteq> 0"
    "get_file_list weight sc files = map cf_name (drop i ?l)"
    using assms by (auto simp: get_file_list_def Let_def split: option.splits if_splits)
  from start_index_cases [where limit = "sc_limit sc" and total_sz = 0 and i = 0 and l = ?l] i(1) obtain as x bs where
    l: "?l = as @ x # bs" "i = length as" "sc_limit sc \<le> sizes as + int (cf_size x)"
      "as \<noteq> [] \<longrightarrow> sizes as < sc_limit sc" by auto
  show thesis by (rule that [OF l(1)]) (use l i in auto)
qed

text \<open>Nothing is removed when everything fits, and also when the first file alone does not.\<close>

lemma get_file_list_Nil:
  assumes "sc_path sc = Some p" and "p \<noteq> []"
  shows "get_file_list weight sc files = [] \<longleftrightarrow> sizes files < sc_limit sc \<or> files = [] \<or>
    sc_limit sc \<le> int (cf_size (hd (sort_desc weight files)))"
proof (cases "files = []")
  case False
  let ?l = "sort_desc weight files"
  have ne: "?l \<noteq> []" using False by (simp add: sort_desc_def) (metis length_0_conv length_rev length_sort)
  have "sizes ?l = sizes files"
    by (simp add: sizes_mset)
  moreover have "(case start_index (sc_limit sc) 0 0 ?l of None \<Rightarrow> sizes ?l < sc_limit sc
      | Some i \<Rightarrow> i < length ?l \<and> sc_limit sc \<le> sizes ?l \<and> (i = 0 \<longleftrightarrow> sc_limit sc \<le> int (cf_size (hd ?l))))"
  proof (cases "start_index (sc_limit sc) 0 0 ?l")
    case None
    then show ?thesis using start_index_cases [where limit = "sc_limit sc" and total_sz = 0 and i = 0 and l = ?l] ne by simp
  next
    case (Some i)
    from start_index_cases [where limit = "sc_limit sc" and total_sz = 0 and i = 0 and l = ?l] Some obtain as x bs where
      l: "?l = as @ x # bs" "i = length as" "sc_limit sc \<le> sizes as + int (cf_size x)"
        "as \<noteq> [] \<longrightarrow> sizes as < sc_limit sc" by auto
    have "sizes as \<ge> int (cf_size (hd as))" if "as \<noteq> []" using that by (cases as) auto
    then show ?thesis unfolding Some option.case unfolding l(1)
      using l(2-4) sizes_nonneg [of bs] by (cases as) (auto simp del: sizes_nonneg)
  qed
  moreover have "int (cf_size (hd ?l)) \<le> sizes ?l" using ne by (cases ?l) auto
  ultimately show ?thesis using False assms
    by (auto simp: get_file_list_def Let_def split: option.splits)
qed (simp add: get_file_list_def)

section \<open>The properties\<close>

text \<open>C36: When the cache manager removes files, what it keeps is smaller than the limit, the
  first file it removes would have reached it, no file it removes weighs more than one it
  keeps, and kept and removed files are together the files of the cache.\<close>

theorem purge_keeps_heaviest:
  assumes "get_file_list weight sc files \<noteq> []"
  shows "\<exists>kept x rest. mset files = mset (kept @ x # rest) \<and> kept \<noteq> [] \<and>
    get_file_list weight sc files = map cf_name (x # rest) \<and>
    sizes kept < sc_limit sc \<and> sc_limit sc \<le> sizes kept + int (cf_size x) \<and>
    (\<forall>k \<in> set kept. \<forall>r \<in> set (x # rest). weight r \<le> weight k)"
proof -
  obtain kept x rest where l: "sort_desc weight files = kept @ x # rest" "kept \<noteq> []"
    "get_file_list weight sc files = map cf_name (x # rest)" "sizes kept < sc_limit sc"
    "sc_limit sc \<le> sizes kept + int (cf_size x)"
    using get_file_list_split [OF assms] by blast
  have "mset files = mset (kept @ x # rest)" using sort_desc_mset [of weight files] l(1) by simp
  moreover have "\<forall>k \<in> set kept. \<forall>r \<in> set (x # rest). weight r \<le> weight k"
    using sort_desc_sorted [of weight files] unfolding l(1) sorted_wrt_append by blast
  ultimately show ?thesis using l by blast
qed

definition demo_cache :: "cache_file list" where
  "demo_cache = [\<lparr>cf_name = ''old'', cf_size = 4, cf_atime = 1\<rparr>, \<lparr>cf_name = ''new'', cf_size = 5, cf_atime = 9\<rparr>,
     \<lparr>cf_name = ''mid'', cf_size = 3, cf_atime = 5\<rparr>]"

theorem purge_keeps_heaviest_witness:
  "\<exists>kept x rest. mset demo_cache = mset (kept @ x # rest) \<and> map cf_name (x # rest) = [''mid'', ''old''] \<and>
     sizes kept < 8"
proof -
  let ?sc = "\<lparr>sc_path = Some ''c'', sc_limit = 8, sc_purge_cnt = 0\<rparr>"
  have e: "get_file_list cf_atime ?sc demo_cache = [''mid'', ''old'']" by code_simp
  then have "get_file_list cf_atime ?sc demo_cache \<noteq> []" by simp
  from purge_keeps_heaviest [OF this, unfolded e] obtain kept x rest where
    "mset demo_cache = mset (kept @ x # rest)" "[''mid'', ''old''] = map cf_name (x # rest)"
    "sizes kept < sc_limit ?sc" by (elim exE conjE) (rule that)
  then show ?thesis by (intro exI [of _ kept] exI [of _ x] exI [of _ rest]) simp
qed

text \<open>C37: Nothing is removed exactly when the files are together below the limit, or when the
  heaviest file alone reaches it: then the cache is left as large as it is.\<close>

theorem purge_nothing_iff:
  assumes "sc_path sc = Some p" and "p \<noteq> []"
  shows "get_file_list weight sc files = [] \<longleftrightarrow> sizes files < sc_limit sc \<or> files = [] \<or>
    sc_limit sc \<le> int (cf_size (hd (sort_desc weight files)))"
  by (rule get_file_list_Nil [OF assms])

theorem purge_nothing_iff_witness:
  "get_file_list cf_atime \<lparr>sc_path = Some ''c'', sc_limit = 5, sc_purge_cnt = 0\<rparr> demo_cache = []"
proof -
  have "hd (sort_desc cf_atime demo_cache) = \<lparr>cf_name = ''new'', cf_size = 5, cf_atime = 9\<rparr>" by code_simp
  then show ?thesis
    using purge_nothing_iff [of "\<lparr>sc_path = Some ''c'', sc_limit = 5, sc_purge_cnt = 0\<rparr>" "''c''" cf_atime demo_cache]
    by simp
qed

end
