(* ===== verification/CommandArgs.thy ===== *)
theory CommandArgs
  imports BuildEnvironment PyStdlib
begin

text \<open>
  \<open>command_args.py\<close>: the checks of the options and targets of a command. The options come from
  \<open>argparse\<close>, together with the arguments it does not know. \<open>cmd_world\<close> is what the checks ask
  the system: the machine, the environment and \<open>os.path.expanduser\<close>.
\<close>

record cmd_world =
  cw_machine :: string
  cw_environ :: "(string, string) dict"
  cw_expanduser :: "string \<Rightarrow> string"

record cmd_state =
  cs_options :: options
  cs_targets :: "string list"
  cs_color :: bool
  cs_console :: "msg list"

definition cs_warn :: "string \<Rightarrow> cmd_state \<Rightarrow> cmd_state" where
  "cs_warn m s = s\<lparr>cs_console := cs_console s @ [Warning m]\<rparr>"

section \<open>The checks\<close>

definition arch_bits :: "cmd_world \<Rightarrow> string" where
  "arch_bits w = (if cw_machine w = ''x86_64'' then ''64'' else ''32'')"

definition check_plat_and_profile_options :: "cmd_world \<Rightarrow> cmd_state \<Rightarrow> cmd_state res" where
  "check_plat_and_profile_options w s =
     (let opts = cs_options s in
      if o_profile opts \<noteq> ''debug'' \<and> o_profile opts \<noteq> ''release''
      then error_exit (''--profile must be '' @ [quote2] @ ''debug'' @ [quote2] @ '' or '' @
             [quote2] @ ''release'' @ [quote2] @ ''.'')
      else
        case o_m opts of
          None \<Rightarrow> Inr (s\<lparr>cs_options := opts\<lparr>o_m := Some (arch_bits w)\<rparr>\<rparr>)
        | Some m \<Rightarrow>
            if \<not> (m = ''32'' \<or> m = ''64'')
            then error_exit (''--m must be '' @ [quote1] @ ''32'' @ [quote1] @ '' or '' @ [quote1] @ ''64'' @ [quote1])
            else if m = ''64'' \<and> cw_machine w \<noteq> ''x86_64''
            then error_exit ''Sorry, 64-bit environment is required for building 64-bit targets.''
            else Inr s)"

definition check_color_options :: "cmd_state \<Rightarrow> cmd_state res" where
  "check_color_options s =
     (let color = o_color (cs_options s) in
      if color = Some ''yes'' then Inr (s\<lparr>cs_color := True\<rparr>)
      else if color = Some ''no'' then Inr (s\<lparr>cs_color := False\<rparr>)
      else if color = Some ''auto'' \<or> color = None then Inr s
      else error_exit ''--color can only be yes, no or auto.'')"

definition check_clean_options :: "cmd_world \<Rightarrow> cmd_state \<Rightarrow> cmd_state res" where
  "check_clean_options w s = bind_res (check_plat_and_profile_options w s) check_color_options"

definition check_query_options :: "cmd_state \<Rightarrow> cmd_state res" where
  "check_query_options s =
     (if \<not> o_deps (cs_options s) \<and> \<not> o_depended (cs_options s)
      then error_exit ''please specify --deps, --depended or both to query target'' else Inr s)"

text \<open>The four statements about the cache size: \<open>-1\<close> for \<open>unlimited\<close> is multiplied too.\<close>

definition str_or_none :: "string option \<Rightarrow> pyval" where
  "str_or_none v = (case v of None \<Rightarrow> PNone | Some s \<Rightarrow> PStr s)"

definition cache_size_value :: "cmd_world \<Rightarrow> pyval \<Rightarrow> pyval res" where
  "cache_size_value w size0 =
     (let size1 = (if size0 = PNone then str_or_none (map_of (cw_environ w) ''BLADE_CACHE_SIZE'') else size0);
          size2 = (if size1 = PStr ''unlimited'' then PInt (-1) else size1)
      in case size2 of
           PNone \<Rightarrow> Inr (PInt (2 * 1024 * 1024 * 1024))
         | PInt n \<Rightarrow> Inr (PInt (n * 1024 * 1024 * 1024))
         | PStr s \<Rightarrow> bind_res (int_of_str s) (\<lambda>n. Inr (PInt (n * 1024 * 1024 * 1024)))
         | _ \<Rightarrow> Inl TypeError)"

definition check_build_options :: "cmd_world \<Rightarrow> cmd_state \<Rightarrow> cmd_state res" where
  "check_build_options w s =
     bind_res (check_plat_and_profile_options w s) (\<lambda>s.
     bind_res (check_color_options s) (\<lambda>s.
     let opts = cs_options s;
         dir = (case o_cache_dir opts of
                  None \<Rightarrow> map_of (cw_environ w) ''BLADE_CACHE_DIR'' | Some d \<Rightarrow> Some d);
         dir' = (case dir of None \<Rightarrow> None | Some d \<Rightarrow> Some (if d = [] then d else cw_expanduser w d))
     in bind_res (cache_size_value w (o_cache_size opts)) (\<lambda>size.
        Inr (s\<lparr>cs_options := opts\<lparr>o_cache_dir := dir', o_cache_size := size\<rparr>\<rparr>))))"

definition strip_target :: "string \<Rightarrow> string" where
  "strip_target t = (if startswith t ''//'' then drop 2 t else t)"

text \<open>Deprecated options that hold the arguments of a program in one string\<close>

definition deprecated_args :: "string \<Rightarrow> string option \<Rightarrow> cmd_state \<Rightarrow> cmd_state res" where
  "deprecated_args m args s =
     (case args of
        None \<Rightarrow> Inr s
      | Some a \<Rightarrow>
          if a = [] then Inr s
          else bind_res (shlex_split a) (\<lambda>l.
            let opts = cs_options s
            in Inr ((cs_warn m s)\<lparr>cs_options := opts\<lparr>o_args := l @ o_args opts\<rparr>\<rparr>)))"

definition runargs_warning :: string where
  "runargs_warning = ''--runargs has been deprecated, please put all run arguments after a \"--\"''"

definition testargs_warning :: string where
  "testargs_warning = ''--testargs has been deprecated, please put all test arguments after a \"--\" ''"

definition check_run_targets :: "cmd_state \<Rightarrow> cmd_state res" where
  "check_run_targets s =
     (case cs_targets s of
        [] \<Rightarrow> error_exit (''Please specify a single target to run: blade run //target_path:target_name '' @
                ''(or a_path:target_name)'')
      | t # ts \<Rightarrow>
          if CHR '':'' \<notin> set t
          then error_exit (''Please specify a single target to run: blade run //target_path:target_name '' @
                 ''(or a_path:target_name)'')
          else
            let s1 = (if o_command (cs_options s) = ''run'' \<and> ts \<noteq> []
                      then cs_warn ''run command will only take one target to build and run'' s else s)
            in deprecated_args runargs_warning (o_runargs (cs_options s1)) (s1\<lparr>cs_targets := [strip_target t]\<rparr>))"

definition check_test_options :: "cmd_state \<Rightarrow> cmd_state res" where
  "check_test_options s =
     deprecated_args testargs_warning (o_testargs (cs_options s)) s"

definition check_query_targets :: "cmd_state \<Rightarrow> cmd_state res" where
  "check_query_targets s =
     (if cs_targets s = [] \<or> \<not> (\<forall>t \<in> set (cs_targets s). CHR '':'' \<in> set t)
      then error_exit (''Please specify targets in this way: blade query //target_path:target_name '' @
             ''(or path:target_name)'')
      else Inr (s\<lparr>cs_targets := map strip_target (cs_targets s)\<rparr>))"

section \<open>The commands\<close>

definition check_command :: "cmd_world \<Rightarrow> cmd_state \<Rightarrow> cmd_state res" where
  "check_command w s =
     (let command = o_command (cs_options s) in
      if command = ''build'' then check_build_options w s
      else if command = ''run'' then bind_res (check_build_options w s) check_run_targets
      else if command = ''test'' then bind_res (check_build_options w s) check_test_options
      else if command = ''clean'' then check_clean_options w s
      else if command = ''query'' then
        bind_res (check_plat_and_profile_options w s) (\<lambda>s.
        bind_res (check_color_options s) (\<lambda>s.
        bind_res (check_query_options s) check_query_targets))
      else Inl KeyError)"

text \<open>The constructor, from what \<open>argparse\<close> returns; \<open>color\<close> is whether colours are on.\<close>

definition split_args :: "string list \<Rightarrow> string list \<times> string list" where
  "split_args others =
     (if ''--'' \<in> set others
      then (takeWhile (\<lambda>a. a \<noteq> ''--'') others, drop 1 (dropWhile (\<lambda>a. a \<noteq> ''--'') others))
      else (others, []))"

definition check_target_names :: "string list \<Rightarrow> unit res" where
  "check_target_names targets =
     fold_res (\<lambda>t _. if startswith t ''-''
       then error_exit (''unregconized option '' @ t @ '', use blade [action] --help to get all the options'')
       else Inr ()) targets ()"

definition cmd_arguments :: "cmd_world \<Rightarrow> bool \<Rightarrow> options \<times> string list \<Rightarrow> cmd_state res" where
  "cmd_arguments w color parsed =
     (case parsed of (opts, others) \<Rightarrow>
      case split_args others of (targets, args) \<Rightarrow>
      bind_res (check_target_names targets) (\<lambda>_.
      check_command w \<lparr>cs_options = opts\<lparr>o_args := args\<rparr>, cs_targets = targets, cs_color = color,
        cs_console = []\<rparr>))"

section \<open>Facts\<close>

text \<open>What the checks of a command establish\<close>

definition plat_ok :: "options \<Rightarrow> bool" where
  "plat_ok opts \<longleftrightarrow> o_profile opts \<in> {''debug'', ''release''} \<and> o_m opts \<in> {Some ''32'', Some ''64''}"

definition cache_ok :: "options \<Rightarrow> bool" where
  "cache_ok opts \<longleftrightarrow> (\<exists>n. o_cache_size opts = PInt n)"

definition cmd_ok :: "cmd_state \<Rightarrow> bool" where
  "cmd_ok s \<longleftrightarrow> plat_ok (cs_options s) \<and>
     (let command = o_command (cs_options s) in
      command \<in> {''build'', ''run'', ''test'', ''clean'', ''query''} \<and>
      (command \<in> {''build'', ''run'', ''test''} \<longrightarrow> cache_ok (cs_options s)) \<and>
      (command = ''run'' \<longrightarrow> (\<exists>t. cs_targets s = [t] \<and> CHR '':'' \<in> set t)) \<and>
      (command = ''query'' \<longrightarrow> cs_targets s \<noteq> [] \<and> list_all (\<lambda>t. CHR '':'' \<in> set t) (cs_targets s)))"

lemma plat_step:
  assumes "check_plat_and_profile_options w s = Inr s'"
  shows "plat_ok (cs_options s')" "o_command (cs_options s') = o_command (cs_options s)"
    "cs_targets s' = cs_targets s"
  using assms
  by (auto simp: check_plat_and_profile_options_def Let_def plat_ok_def arch_bits_def
      split: if_splits option.splits)

lemma color_step:
  assumes "check_color_options s = Inr s'"
  shows "cs_options s' = cs_options s \<and> cs_targets s' = cs_targets s"
  using assms by (auto simp: check_color_options_def Let_def split: if_splits)

lemma cache_size_int:
  assumes "cache_size_value w sz = Inr v"
  shows "\<exists>n. v = PInt n"
  using assms unfolding cache_size_value_def Let_def
  by (auto simp: res_simps split: pyval.splits)

lemma build_step:
  assumes "check_build_options w s = Inr s'"
  shows "plat_ok (cs_options s') \<and> cache_ok (cs_options s') \<and>
    o_command (cs_options s') = o_command (cs_options s) \<and> cs_targets s' = cs_targets s"
proof -
  obtain s1 s2 dir sz where
    p: "check_plat_and_profile_options w s = Inr s1" and c: "check_color_options s1 = Inr s2" and
    v: "cache_size_value w (o_cache_size (cs_options s2)) = Inr sz" and
    s': "s' = s2\<lparr>cs_options := (cs_options s2)\<lparr>o_cache_dir := dir, o_cache_size := sz\<rparr>\<rparr>"
    using assms unfolding check_build_options_def Let_def bind_res_eq_Inr by blast
  obtain n where "sz = PInt n" using cache_size_int [OF v] by blast
  then show ?thesis using plat_step [OF p] color_step [OF c]
    by (simp add: s' plat_ok_def cache_ok_def)
qed

lemma deprecated_step:
  assumes "deprecated_args m args s = Inr s'"
  shows "o_profile (cs_options s') = o_profile (cs_options s) \<and> o_m (cs_options s') = o_m (cs_options s) \<and>
    o_cache_size (cs_options s') = o_cache_size (cs_options s) \<and>
    o_command (cs_options s') = o_command (cs_options s) \<and> cs_targets s' = cs_targets s"
  using assms by (auto simp: deprecated_args_def cs_warn_def Let_def res_simps split: option.splits if_splits)

lemma colon_strip: "CHR '':'' \<in> set (strip_target t) \<longleftrightarrow> CHR '':'' \<in> set t"
proof (cases "startswith t ''//''")
  case True
  then have "t = ''//'' @ drop 2 t"
    unfolding startswith_def by (metis append_take_drop_id list.size(3) length_Cons numeral_2_eq_2)
  then have "CHR '':'' \<in> set t \<longleftrightarrow> CHR '':'' \<in> set (''//'' @ drop 2 t)" by simp
  then show ?thesis by (simp add: strip_target_def True)
qed (simp add: strip_target_def)

lemma run_step:
  assumes "check_run_targets s = Inr s'"
  shows "(\<exists>t. cs_targets s' = [t] \<and> CHR '':'' \<in> set t) \<and>
    o_profile (cs_options s') = o_profile (cs_options s) \<and> o_m (cs_options s') = o_m (cs_options s) \<and>
    o_cache_size (cs_options s') = o_cache_size (cs_options s) \<and>
    o_command (cs_options s') = o_command (cs_options s)"
proof (cases "cs_targets s")
  case (Cons t ts)
  then have t: "CHR '':'' \<in> set t" using assms by (auto simp: check_run_targets_def split: if_splits)
  let ?s1 = "if o_command (cs_options s) = ''run'' \<and> ts \<noteq> []
    then cs_warn ''run command will only take one target to build and run'' s else s"
  have nn: "\<not> (CHR '':'' \<notin> set t)" using t by simp
  have d: "deprecated_args runargs_warning (o_runargs (cs_options ?s1)) (?s1\<lparr>cs_targets := [strip_target t]\<rparr>) = Inr s'"
    using assms unfolding check_run_targets_def Cons list.case Let_def if_not_P [OF nn] .
  have s1: "cs_options ?s1 = cs_options s" by (simp add: cs_warn_def)
  show ?thesis using deprecated_step [OF d] s1 t colon_strip [of t] by simp
qed (use assms in \<open>simp add: check_run_targets_def\<close>)

lemma query_step:
  assumes "check_query_targets s = Inr s'"
  shows "cs_options s' = cs_options s \<and> cs_targets s' \<noteq> [] \<and> list_all (\<lambda>t. CHR '':'' \<in> set t) (cs_targets s')"
  using assms by (auto simp: check_query_targets_def list_all_iff colon_strip split: if_splits)

lemma check_command_ok:
  assumes "check_command w s = Inr s'"
  shows "cmd_ok s'"
proof -
  let ?c = "o_command (cs_options s)"
  consider (build) "?c = ''build''" | (run) "?c = ''run''" | (test) "?c = ''test''" | (clean) "?c = ''clean''"
    | (query) "?c = ''query''"
    using assms by (auto simp: check_command_def Let_def split: if_splits)
  then show ?thesis
  proof cases
    case build
    then have "check_build_options w s = Inr s'" using assms by (simp add: check_command_def)
    from build_step [OF this] build show ?thesis by (simp add: cmd_ok_def)
  next
    case run
    then obtain s1 where "check_build_options w s = Inr s1" "check_run_targets s1 = Inr s'"
      using assms by (auto simp: check_command_def res_simps)
    from build_step [OF this(1)] run_step [OF this(2)] run show ?thesis
      by (auto simp: cmd_ok_def plat_ok_def cache_ok_def)
  next
    case test
    then obtain s1 where "check_build_options w s = Inr s1" "check_test_options s1 = Inr s'"
      using assms by (auto simp: check_command_def res_simps)
    from build_step [OF this(1)] deprecated_step [OF this(2) [unfolded check_test_options_def]] test
    show ?thesis by (auto simp: cmd_ok_def plat_ok_def cache_ok_def)
  next
    case clean
    then obtain s1 where "check_plat_and_profile_options w s = Inr s1" "check_color_options s1 = Inr s'"
      using assms by (auto simp: check_command_def check_clean_options_def res_simps)
    from plat_step [OF this(1)] color_step [OF this(2)] clean show ?thesis by (auto simp: cmd_ok_def)
  next
    case query
    then obtain s1 s2 s3 where q: "check_plat_and_profile_options w s = Inr s1" "check_color_options s1 = Inr s2"
      "check_query_options s2 = Inr s3" "check_query_targets s3 = Inr s'"
      using assms by (auto simp: check_command_def res_simps)
    have "s3 = s2" using q(3) by (simp add: check_query_options_def split: if_splits)
    with plat_step [OF q(1)] color_step [OF q(2)] query_step [OF q(4)] query show ?thesis
      by (auto simp: cmd_ok_def)
  qed
qed

lemma digit_value_char: "d < 10 \<Longrightarrow> digit_value (digit_char d) = Some d"
proof -
  assume "d < 10"
  then have "d \<in> {0, 1, 2, 3, 4, 5, 6, 7, 8, 9}" by auto
  then show ?thesis by (elim insertE) (simp_all add: digit_value_def digit_char_def)
qed

lemma digits_value_append:
  "digits_value n (s @ [c]) =
     (case digits_value n s of None \<Rightarrow> None
      | Some m \<Rightarrow> (case digit_value c of None \<Rightarrow> None | Some d \<Rightarrow> Some (10 * m + d)))"
  by (induction s arbitrary: n) (auto split: option.splits)

lemma digits_value_dec: "digits_value 0 (dec_nat n) = Some n"
proof (induction n rule: dec_nat.induct)
  case (1 n)
  show ?case
  proof (cases "n < 10")
    case True
    then show ?thesis by (simp add: dec_nat.simps [of n] digit_value_char)
  next
    case False
    then show ?thesis using 1 digit_value_char [of "n mod 10"]
      by (simp add: dec_nat.simps [of n] digits_value_append)
  qed
qed

lemma dec_nat_chars: "set (dec_nat n) \<subseteq> digit_char ` {..< 10} \<and> dec_nat n \<noteq> []"
proof (induction n rule: dec_nat.induct)
  case (1 n)
  then show ?case by (cases "n < 10") (auto simp: dec_nat.simps [of n])
qed

lemma digit_not_special: "c \<in> digit_char ` {..< 10} \<Longrightarrow> c \<notin> set ws_chars \<and> c \<noteq> CHR ''-'' \<and> c \<noteq> CHR ''+''"
proof -
  assume "c \<in> digit_char ` {..< 10}"
  then obtain d where d: "c = digit_char d" "d < 10" by auto
  then have "d \<in> {0, 1, 2, 3, 4, 5, 6, 7, 8, 9}" by auto
  then show ?thesis unfolding d(1) by (elim insertE) (simp_all add: digit_char_def ws_chars_def)
qed

lemma strip_ws_id: "set s \<inter> set ws_chars = {} \<Longrightarrow> strip_ws s = s"
proof -
  assume s: "set s \<inter> set ws_chars = {}"
  have "dropWhile (\<lambda>c. c \<in> set ws_chars) t = t" if "set t \<inter> set ws_chars = {}" for t
    using that by (cases t) auto
  then show ?thesis using s by (simp add: strip_ws_def strip_chars_def)
qed

lemma int_of_str_dec: "int_of_str (dec_int n) = Inr n"
proof -
  have ws: "strip_ws (dec_int n) = dec_int n"
  proof (rule strip_ws_id)
    have "c \<notin> set ws_chars" if "c \<in> set (dec_int n)" for c
    proof -
      have "c = CHR ''-'' \<or> c \<in> digit_char ` {..< 10}"
        using that dec_nat_chars [of "nat n"] dec_nat_chars [of "nat (- n)"]
        by (auto simp: dec_int_def split: if_splits)
      then show ?thesis using digit_not_special [of c] by (auto simp: ws_chars_def)
    qed
    then show "set (dec_int n) \<inter> set ws_chars = {}" by blast
  qed
  obtain c r where c: "dec_nat (nat n) = c # r" using dec_nat_chars by (cases "dec_nat (nat n)") auto
  then have "c \<in> digit_char ` {..< 10}" using dec_nat_chars [of "nat n"] by auto
  from digit_not_special [OF this] have special: "c \<noteq> CHR ''-''" "c \<noteq> CHR ''+''" by auto
  show ?thesis
  proof (cases "n < 0")
    case True
    then show ?thesis using ws dec_nat_chars [of "nat (- n)"] digits_value_dec [of "nat (- n)"]
      by (simp add: int_of_str_def dec_int_def)
  next
    case False
    have "dec_int n = c # r" using False c by (simp add: dec_int_def)
    moreover have "digits_value 0 (c # r) = Some (nat n)" using digits_value_dec [of "nat n"] unfolding c .
    ultimately show ?thesis using ws special False by (simp add: int_of_str_def del: digits_value.simps)
  qed
qed

section \<open>The properties\<close>


definition demo_cmd_world :: cmd_world where
  "demo_cmd_world = \<lparr>cw_machine = ''x86_64'', cw_environ = [], cw_expanduser = (\<lambda>p. p)\<rparr>"

definition run_options :: options where
  "run_options = \<lparr>o_command = ''run'', o_m = None, o_profile = ''release'',
     o_generate_dynamic = False, o_generate_java = False, o_generate_php = False,
     o_generate_python = False, o_scons_only = False, o_jobs = 0, o_keep_going = False,
     o_verbose = False, o_no_test = False, o_color = Some ''auto'', o_cache_dir = None,
     o_cache_size = PStr ''unlimited'', o_deps = False, o_depended = False, o_output_to_dot = None,
     o_testargs = None, o_runargs = Some ''a \"b c\"'', o_fulltest = False, o_test_jobs = 0,
     o_show_details = False, o_args = [], o_gprof = False, o_gcov = False\<rparr>"

lemma run_demo:
  "case cmd_arguments demo_cmd_world False (run_options, [''//p:n'', ''--'', ''x'']) of Inl e \<Rightarrow> False
   | Inr s \<Rightarrow> cs_targets s = [''p:n''] \<and> o_args (cs_options s) = [''a'', ''b c'', ''x''] \<and>
       o_m (cs_options s) = Some ''64'' \<and> o_cache_size (cs_options s) = PInt (-1073741824)"
  by code_simp


text \<open>A cache size given as a decimal number of gigabytes is read back exactly; \<open>unlimited\<close>
  becomes minus one gigabyte, not the -1 the rest of the program compares with.\<close>

lemma cache_size_read:
  "cache_size_value w (PStr (dec_int n)) = Inr (PInt (n * 1073741824)) \<and>
   cache_size_value w (PStr ''unlimited'') = Inr (PInt (-1073741824))"
proof
  have "dec_int n \<noteq> ''unlimited''"
  proof
    assume "dec_int n = ''unlimited''"
    then have "int_of_str (dec_int n) = int_of_str ''unlimited''" by (rule arg_cong)
    moreover have "\<not> is_ok (int_of_str ''unlimited'')" by code_simp
    ultimately show False unfolding int_of_str_dec by (metis is_ok_simps(1))
  qed
  then show "cache_size_value w (PStr (dec_int n)) = Inr (PInt (n * 1073741824))"
    by (simp add: cache_size_value_def int_of_str_dec)
  show "cache_size_value w (PStr ''unlimited'') = Inr (PInt (-1073741824))"
    by (simp add: cache_size_value_def)
qed

end
