(* ===== verification/CommandTable.thy ===== *)
theory CommandTable
  imports CommandArgs
begin

text \<open>
  \<open>command_args.py\<close>, the other half: the arguments declared to \<open>argparse\<close> for every
  sub-command, and the options a sub-command is given when its line names none of them. How a
  line is read with these tables is the theory \<open>ArgParse\<close>.
\<close>

section \<open>The tables\<close>

datatype arg_type = StrArg | IntArg

datatype arg_action = StoreTrue | Store arg_type | ShowHelp

record arg_decl =
  ad_flags :: "string list"
  ad_dest :: string
  ad_action :: arg_action
  ad_default :: pyval

definition argument :: "string list \<Rightarrow> string \<Rightarrow> arg_action \<Rightarrow> pyval \<Rightarrow> arg_decl" where
  "argument flags dest action dflt = \<lparr>ad_flags = flags, ad_dest = dest, ad_action = action, ad_default = dflt\<rparr>"

definition add_plat_profile_arguments :: "arg_decl list" where
  "add_plat_profile_arguments =
     [argument [''-m''] ''m'' (Store StrArg) PNone,
      argument [''-p'', ''--profile''] ''profile'' (Store StrArg) (PStr ''release'')]"

definition add_generate_arguments :: "arg_decl list" where
  "add_generate_arguments =
     [argument [''--generate-dynamic''] ''generate_dynamic'' StoreTrue (PBool False),
      argument [''--generate-java''] ''generate_java'' StoreTrue (PBool False),
      argument [''--generate-php''] ''generate_php'' StoreTrue (PBool False)]"

definition add_build_actions_arguments :: "arg_decl list" where
  "add_build_actions_arguments =
     [argument [''--generate-scons-only''] ''scons_only'' StoreTrue (PBool False),
      argument [''-j'', ''--jobs''] ''jobs'' (Store IntArg) (PInt 0),
      argument [''-k'', ''--keep-going''] ''keep_going'' StoreTrue (PBool False),
      argument [''--verbose''] ''verbose'' StoreTrue (PBool False),
      argument [''--no-test''] ''no_test'' StoreTrue (PBool False)]"

definition add_color_arguments :: "arg_decl list" where
  "add_color_arguments =
     [argument [''--color''] ''color'' (Store StrArg) (PStr ''auto'')]"

definition add_cache_arguments :: "arg_decl list" where
  "add_cache_arguments =
     [argument [''--cache-dir''] ''cache_dir'' (Store StrArg) PNone,
      argument [''--cache-size''] ''cache_size'' (Store StrArg) PNone]"

definition add_coverage_arguments :: "arg_decl list" where
  "add_coverage_arguments =
     [argument [''--gprof''] ''gprof'' StoreTrue (PBool False),
      argument [''--gcov''] ''gcov'' StoreTrue (PBool False)]"

definition add_test_arguments :: "arg_decl list" where
  "add_test_arguments =
     [argument [''--testargs''] ''testargs'' (Store StrArg) PNone,
      argument [''--full-test''] ''fulltest'' StoreTrue (PBool False),
      argument [''-t'', ''--test-jobs''] ''test_jobs'' (Store IntArg) (PInt 1),
      argument [''--show-details''] ''show_details'' StoreTrue (PBool False)]"

definition add_run_arguments :: "arg_decl list" where
  "add_run_arguments =
     [argument [''--runargs''] ''runargs'' (Store StrArg) PNone]"

definition add_query_arguments :: "arg_decl list" where
  "add_query_arguments = add_plat_profile_arguments @ add_color_arguments @
     [argument [''--deps''] ''deps'' StoreTrue (PBool False),
      argument [''--depended''] ''depended'' StoreTrue (PBool False),
      argument [''--output-to-dot''] ''output_to_dot'' (Store StrArg) PNone]"

definition add_clean_arguments :: "arg_decl list" where
  "add_clean_arguments = add_plat_profile_arguments @ add_generate_arguments @ add_color_arguments"

definition add_build_arguments :: "arg_decl list" where
  "add_build_arguments = add_plat_profile_arguments @ add_build_actions_arguments @ add_color_arguments @
     add_cache_arguments @ add_generate_arguments @ add_coverage_arguments"

definition sub_parsers :: "(string, arg_decl list) dict" where
  "sub_parsers =
     [(''build'', add_build_arguments),
      (''run'', add_build_arguments @ add_run_arguments),
      (''test'', add_build_arguments @ add_test_arguments),
      (''clean'', add_clean_arguments),
      (''query'', add_query_arguments)]"

section \<open>The options of a line that names none\<close>

definition initial_namespace :: "string \<Rightarrow> (string, pyval) dict res" where
  "initial_namespace command =
     bind_res (dict_index sub_parsers command) (\<lambda>args.
     Inr (fold (\<lambda>a. dict_set (ad_dest a) (ad_default a)) args [(''command'', PStr command)]))"

text \<open>
  Attributes as the code reads them: \<open>getattr\<close> with a false default for a missing one. The empty
  list that \<open>--flag=--\<close> leaves for a string option is read as the empty string: it is as false, and
  none of the strings the checks ask for.
\<close>

definition ns_bool :: "(string, pyval) dict \<Rightarrow> string \<Rightarrow> bool" where
  "ns_bool ns k = truthy (dict_get ns k PNone)"

definition ns_int :: "(string, pyval) dict \<Rightarrow> string \<Rightarrow> int" where
  "ns_int ns k = (case dict_get ns k PNone of PInt n \<Rightarrow> n | _ \<Rightarrow> 0)"

definition ns_str :: "(string, pyval) dict \<Rightarrow> string \<Rightarrow> string option" where
  "ns_str ns k = (case dict_get ns k PNone of PStr s \<Rightarrow> Some s | PList _ \<Rightarrow> Some [] | _ \<Rightarrow> None)"

definition options_of :: "(string, pyval) dict \<Rightarrow> options" where
  "options_of ns = \<lparr>o_command = the (ns_str ns ''command''), o_m = ns_str ns ''m'',
     o_profile = (case ns_str ns ''profile'' of Some p \<Rightarrow> p | None \<Rightarrow> []),
     o_generate_dynamic = ns_bool ns ''generate_dynamic'', o_generate_java = ns_bool ns ''generate_java'',
     o_generate_php = ns_bool ns ''generate_php'', o_generate_python = ns_bool ns ''generate_python'',
     o_scons_only = ns_bool ns ''scons_only'', o_jobs = ns_int ns ''jobs'', o_keep_going = ns_bool ns ''keep_going'',
     o_verbose = ns_bool ns ''verbose'', o_no_test = ns_bool ns ''no_test'', o_color = ns_str ns ''color'',
     o_cache_dir = ns_str ns ''cache_dir'', o_cache_size = dict_get ns ''cache_size'' PNone,
     o_deps = ns_bool ns ''deps'', o_depended = ns_bool ns ''depended'',
     o_output_to_dot = ns_str ns ''output_to_dot'', o_testargs = ns_str ns ''testargs'',
     o_runargs = ns_str ns ''runargs'', o_fulltest = ns_bool ns ''fulltest'',
     o_test_jobs = ns_int ns ''test_jobs'', o_show_details = ns_bool ns ''show_details'', o_args = [],
     o_gprof = ns_bool ns ''gprof'', o_gcov = ns_bool ns ''gcov''\<rparr>"

section \<open>Facts\<close>

text \<open>No flag is declared twice for a sub-command, \<open>-h\<close> included, which \<open>argparse\<close> would refuse.\<close>

lemma flags_distinct:
  "\<forall>(command, args) \<in> set sub_parsers. distinct ([''-h'', ''--help''] @ concat (map ad_flags args)) \<and>
     distinct (''command'' # map ad_dest args)"
  by code_simp

text \<open>There is no flag that sets \<open>generate_python\<close>, which the rules of proto libraries read.\<close>

lemma no_generate_python:
  "\<forall>(command, args) \<in> set sub_parsers. ''generate_python'' \<notin> set (map ad_dest args)"
  by code_simp

text \<open>The default options of every sub-command pass the checks, given a target; only a query must
  say what it wants.\<close>

lemma defaults_accepted:
  "\<forall>command \<in> set (keys sub_parsers).
     is_ok (bind_res (initial_namespace command) (\<lambda>ns.
       cmd_arguments demo_cmd_world False (options_of ns, [''//a:b'']))) = (command \<noteq> ''query'')"
  by code_simp

end
