(* ===== verification/JavaTargets.thy ===== *)
theory JavaTargets
  imports JavaJar
begin

text \<open>
  \<open>java_targets.py\<close>: unfinished. The functions of the BUILD language call their constructors
  with arguments these do not take, and the base class calls the one of \<open>Target\<close> correctly but
  is itself called without \<open>blade\<close>. The binding of positional arguments is written out, so that
  the failure is computed and not assumed.
\<close>

section \<open>Calls\<close>

text \<open>
  A parameter list without a star: the parameters, how many of the last ones have a default, and
  whether there is a \<open>**kwargs\<close>. A call gives positional arguments and keywords.
\<close>

record py_params =
  pp_names :: "string list"
  pp_defaults :: nat
  pp_kwargs :: bool

definition bind_call :: "py_params \<Rightarrow> nat \<Rightarrow> string list \<Rightarrow> unit res" where
  "bind_call f positional keywords =
     (let names = pp_names f; given = take positional names; rest = drop positional names in
      if positional > length names then Inl TypeError
      else if \<exists>k \<in> set keywords. k \<in> set given \<or> (k \<notin> set names \<and> \<not> pp_kwargs f) then Inl TypeError
      else if \<exists>n \<in> set (take (length names - pp_defaults f - positional) rest). n \<notin> set keywords then Inl TypeError
      else Inr ())"

lemma bind_call_too_many: "length (pp_names f) < n \<Longrightarrow> bind_call f n ks = Inl TypeError"
  by (simp add: bind_call_def Let_def)

text \<open>The constructors\<close>

definition java_target_params :: py_params where
  "java_target_params = \<lparr>pp_names = [''self'', ''name'', ''type'', ''srcs'', ''deps'', ''prebuilt'', ''blade'', ''kwargs''],
     pp_defaults = 0, pp_kwargs = False\<rparr>"

definition java_library_params :: py_params where
  "java_library_params = \<lparr>pp_names = [''self'', ''name'', ''srcs'', ''deps'', ''prebuilt''],
     pp_defaults = 0, pp_kwargs = True\<rparr>"

definition java_binary_params :: py_params where
  "java_binary_params = \<lparr>pp_names = [''self'', ''name'', ''srcs'', ''deps''], pp_defaults = 0, pp_kwargs = True\<rparr>"

text \<open>
  The functions of the BUILD language: the new object, the arguments given, \<open>blade.blade\<close> and the
  dictionary of the other keywords, all by position.
\<close>

definition java_library :: "unit res" where
  "java_library = bind_call java_library_params 7 []"

definition java_binary :: "unit res" where
  "java_binary = bind_call java_binary_params 6 []"

definition java_test :: "unit res" where
  "java_test = bind_call java_binary_params 6 []"

section \<open>The parts a finished class would use\<close>

definition java_jar_gen_class_root :: "string \<Rightarrow> string \<Rightarrow> string \<Rightarrow> string" where
  "java_jar_gen_class_root build_path path name = path_joins build_path [path, name @ ''.classes'']"

definition is_jar_to_compile :: "targets \<Rightarrow> tkey \<Rightarrow> bool res" where
  "is_jar_to_compile build dep =
     bind_res (dict_index build dep) (\<lambda>t.
     Inr (has_sub ''java_jar'' (t_type t) \<and> \<not> has_sub ''prebuilt'' (t_type t)))"

definition jar_of_dep :: "targets \<Rightarrow> string \<Rightarrow> tkey \<Rightarrow> string list \<Rightarrow> string list res" where
  "jar_of_dep build build_path dep jars =
     bind_res (is_jar_to_compile build dep) (\<lambda>yes.
     Inr (if yes then jars @ [path_joins build_path [fst dep, snd dep @ ''.jar'']] else jars))"

definition java_targets_deps_list :: "targets \<Rightarrow> string \<Rightarrow> tkey list \<Rightarrow> string list res" where
  "java_targets_deps_list build build_path deps = fold_res (jar_of_dep build build_path) deps []"

text \<open>The second mistake, behind the first: a library hands its base class one argument too few.\<close>

definition java_library_init_super :: "unit res" where
  "java_library_init_super = bind_call java_target_params 7 []"

section \<open>Facts\<close>

lemma java_calls_fail:
  "java_library = Inl TypeError" "java_binary = Inl TypeError" "java_test = Inl TypeError"
  "java_library_init_super = Inl TypeError"
  by code_simp+

text \<open>Only targets of the other kind, \<open>java_jar\<close>, count as jars to compile.\<close>

lemma deps_list_jars:
  "java_targets_deps_list build bp deps = Inr jars \<Longrightarrow>
     jars = map (\<lambda>d. path_joins bp [fst d, snd d @ ''.jar''])
       (filter (\<lambda>d. is_jar_to_compile build d = Inr True) deps)"
proof -
  assume run: "java_targets_deps_list build bp deps = Inr jars"
  have "fold_res (jar_of_dep build bp) deps acc = Inr jars \<Longrightarrow>
      jars = acc @ map (\<lambda>d. path_joins bp [fst d, snd d @ ''.jar''])
        (filter (\<lambda>d. is_jar_to_compile build d = Inr True) deps)" for acc
  proof (induction deps arbitrary: acc)
    case (Cons d deps)
    from Cons.prems obtain acc' where step: "jar_of_dep build bp d acc = Inr acc'"
      and rest: "fold_res (jar_of_dep build bp) deps acc' = Inr jars"
      by (auto simp: bind_res_eq_Inr)
    from step obtain yes where "is_jar_to_compile build d = Inr yes"
      and "acc' = (if yes then acc @ [path_joins bp [fst d, snd d @ ''.jar'']] else acc)"
      unfolding jar_of_dep_def bind_res_eq_Inr by auto
    with Cons.IH [OF rest] show ?case by (cases yes) simp_all
  qed simp
  from this [of "[]"] run show ?thesis by (simp add: java_targets_deps_list_def)
qed

end
