(* ===== verification/BuildRules.thy ===== *)
theory BuildRules
  imports BuildFile JavaTargets PyStdlib
begin

text \<open>
  \<open>build_rules.py\<close> and what \<open>load_build_files.py\<close> adds to it: the names a BUILD file can use. The
  dictionary is filled when the modules are imported; a function stands for itself by its name.
  \<open>build_target\<close> is an object over the options of the first manager that loads a file.
\<close>

section \<open>The dictionary\<close>

datatype build_value = BuildFunction string | TargetAttributes options

type_synonym build_rules = "(string, build_value) dict"

definition register_variable :: "string \<Rightarrow> build_value \<Rightarrow> build_rules \<Rightarrow> build_rules" where
  "register_variable name v rules = dict_set name v rules"

definition register_function :: "string \<Rightarrow> build_rules \<Rightarrow> build_rules" where
  "register_function f rules = register_variable f (BuildFunction f) rules"

definition get_all :: "build_rules \<Rightarrow> build_rules" where
  "get_all rules = rules"

text \<open>The calls of \<open>register_function\<close>, module by module\<close>

definition imported_functions :: "string list" where
  "imported_functions =
     [''cc_library'', ''cc_binary'', ''cc_benchmark'', ''cc_mapr'', ''cc_plugin'', ''cc_test'',
      ''java_jar'', ''gen_rule'', ''java_binary'', ''java_library'', ''java_test'',
      ''lex_yacc_library'', ''proto_library'', ''py_binary'', ''resource_library'',
      ''swig_library'', ''thrift_library'', ''enable_if'']"

definition imported_rules :: build_rules where
  "imported_rules = fold register_function imported_functions []"

section \<open>What a BUILD file asks about the build\<close>

definition attr_bits :: "options \<Rightarrow> int res" where
  "attr_bits opts = (case o_m opts of None \<Rightarrow> Inl TypeError | Some m \<Rightarrow> int_of_str m)"

definition attr_arch :: "options \<Rightarrow> string" where
  "attr_arch opts = (if o_m opts = Some ''32'' then ''i386'' else ''x86_64'')"

definition attr_is_debug :: "options \<Rightarrow> bool" where
  "attr_is_debug opts \<longleftrightarrow> o_profile opts = ''debug''"

definition enable_if :: "pyval \<Rightarrow> pyval \<Rightarrow> pyval \<Rightarrow> pyval" where
  "enable_if cond true_value false_value =
     (let ret = (if truthy cond then true_value else false_value)
      in if ret = PNone then PList [] else ret)"

text \<open>The global \<open>build_target\<close> with the dictionary, at the start of \<open>_load_build_file\<close>\<close>

definition init_build_target ::
  "options \<Rightarrow> build_value option \<times> build_rules \<Rightarrow> build_value option \<times> build_rules" where
  "init_build_target opts s =
     (case s of
        (None, rules) \<Rightarrow>
          (Some (TargetAttributes opts), register_variable ''build_target'' (TargetAttributes opts) rules)
      | (Some t, rules) \<Rightarrow> (Some t, rules))"

section \<open>The calls of the model and the dictionary\<close>

text \<open>The name under which a BUILD file finds the function that a call of the model runs\<close>

fun call_name :: "build_call \<Rightarrow> string" where
  "call_name (CallCcLibrary _) = ''cc_library''"
| "call_name (CallCcBinary _) = ''cc_binary''"
| "call_name (CallCcTest _) = ''cc_test''"
| "call_name (CallCcPlugin _) = ''cc_plugin''"
| "call_name (CallCcBenchmark _) = ''cc_benchmark''"
| "call_name (CallCcMapr _) = ''cc_mapr''"
| "call_name (CallProtoLibrary _) = ''proto_library''"
| "call_name (CallResourceLibrary _) = ''resource_library''"
| "call_name (CallThriftLibrary _) = ''thrift_library''"
| "call_name (CallLexYaccLibrary _) = ''lex_yacc_library''"
| "call_name (CallSwigLibrary _) = ''swig_library''"
| "call_name (CallGenRule _) = ''gen_rule''"
| "call_name (CallJavaJar _) = ''java_jar''"
| "call_name (CallPyBinary _) = ''py_binary''"

lemma register_function_lookup [simp]:
  "map_of (register_function f rules) = (map_of rules)(f \<mapsto> BuildFunction f)"
  by (simp add: register_function_def register_variable_def)

lemma register_functions_lookup:
  "map_of (fold register_function fs rules) n =
     (if n \<in> set fs then Some (BuildFunction n) else map_of rules n)"
  by (induction fs arbitrary: rules) auto

lemma imported_rules_lookup:
  "map_of imported_rules n = (if n \<in> set imported_functions then Some (BuildFunction n) else None)"
  by (simp add: imported_rules_def register_functions_lookup)

text \<open>Every call of the model is bound to its function, and what is bound besides the calls of the
  model are the three unfinished functions of \<open>java_targets.py\<close> and \<open>enable_if\<close>.\<close>

lemma call_bound: "map_of imported_rules (call_name c) = Some (BuildFunction (call_name c))"
  by (cases c) (simp_all add: imported_rules_lookup imported_functions_def)

lemma bound_name_cases:
  assumes "n \<in> set imported_functions"
  shows "n \<in> range call_name \<or> n \<in> {''java_binary'', ''java_library'', ''java_test'', ''enable_if''}"
  using assms unfolding imported_functions_def set_simps
  by (elim insertE emptyE)
    ((rule disjI1, erule ssubst, rule range_eqI, rule call_name.simps [symmetric]) | (rule disjI2, simp only: insert_iff simp_thms))+

lemma bound_names:
  "map_of imported_rules n \<noteq> None \<longleftrightarrow>
     n \<in> range call_name \<or> n \<in> {''java_binary'', ''java_library'', ''java_test'', ''enable_if''}"
proof
  assume "map_of imported_rules n \<noteq> None"
  then have "n \<in> set imported_functions" unfolding imported_rules_lookup by (rule contrapos_np) (simp only: if_False)
  then show "n \<in> range call_name \<or> n \<in> {''java_binary'', ''java_library'', ''java_test'', ''enable_if''}"
    by (rule bound_name_cases)
next
  have "\<forall>n \<in> {''java_binary'', ''java_library'', ''java_test'', ''enable_if''}. n \<in> set imported_functions"
    by (simp add: imported_functions_def)
  moreover assume "n \<in> range call_name \<or> n \<in> {''java_binary'', ''java_library'', ''java_test'', ''enable_if''}"
  ultimately show "map_of imported_rules n \<noteq> None"
    using call_bound by (elim disjE rangeE) (simp_all only: imported_rules_lookup if_True option.distinct not_False_eq_True)
qed

text \<open>The object keeps the options of the first manager.\<close>

lemma init_build_target_again:
  "init_build_target opts' (init_build_target opts s) = init_build_target opts s"
  by (auto simp: init_build_target_def split: prod.splits option.splits)

text \<open>As the value of a list-valued option, \<open>enable_if\<close> chooses between the two lists.\<close>

lemma var_to_list_enable_if:
  "var_to_list (enable_if cond t f) = (if truthy cond then var_to_list t else var_to_list f)"
  by (simp add: enable_if_def Let_def)

end
