(* ===== verification/ArgParse.thy ===== *)
theory ArgParse
  imports CommandTable "HOL-Library.Sublist"
begin

text \<open>
  \<open>argparse.py\<close>: how a command line is read. The file is a copy of a module of the standard
  library; the model has what the parsers of \<open>command_args.py\<close> use of it: options that take
  no value (\<open>nargs = 0\<close>) or one (\<open>nargs = None\<close>), and the one positional argument of the main
  parser, the sub-command with everything after it (\<open>nargs = PARSER\<close>). Where the code works with
  indices into the strings and a pattern of the letters \<open>O\<close>, \<open>A\<close> and \<open>-\<close>, the model takes a list of
  strings with their class from the left. Every reported error ends the program with code 2.
\<close>

type_synonym namespace = "(string, pyval) dict"

type_synonym option_map = "(string, arg_decl) dict"

definition help_argument :: arg_decl where
  "help_argument = argument [''-h'', ''--help''] [] ShowHelp PNone"

text \<open>\<open>_option_string_actions\<close>\<close>

definition option_map :: "arg_decl list \<Rightarrow> option_map" where
  "option_map args = concat (map (\<lambda>a. map (\<lambda>f. (f, a)) (ad_flags a)) args)"

definition usage_error :: "'a res" where
  "usage_error = Inl (SysExit 2)"

section \<open>Classes of strings\<close>

datatype arg_class = IsOption "arg_decl option" string "string option" | IsArgument | IsDashes

definition before_eq :: "string \<Rightarrow> string" where
  "before_eq s = takeWhile (\<lambda>c. c \<noteq> CHR ''='') s"

definition after_eq :: "string \<Rightarrow> string" where
  "after_eq s = drop 1 (dropWhile (\<lambda>c. c \<noteq> CHR ''='') s)"

definition get_option_tuples :: "option_map \<Rightarrow> string \<Rightarrow> (arg_decl \<times> string \<times> string option) list" where
  "get_option_tuples m s =
     (if startswith s ''--'' then
        let (option_prefix, explicit_arg) =
              (if CHR ''='' \<in> set s then (before_eq s, Some (after_eq s)) else (s, None))
        in concat (map (\<lambda>(f, a). if startswith f option_prefix then [(a, f, explicit_arg)] else []) m)
      else
        concat (map (\<lambda>(f, a). if f = take 2 s then [(a, f, Some (drop 2 s))]
                              else if startswith f s then [(a, f, None)] else []) m))"

text \<open>\<open>_negative_number_matcher\<close>\<close>

definition is_digit :: "char \<Rightarrow> bool" where
  "is_digit c \<longleftrightarrow> digit_value c \<noteq> None"

text \<open>\<open>$\<close> also matches before a newline at the end.\<close>

definition is_negative_number :: "string \<Rightarrow> bool" where
  "is_negative_number s \<longleftrightarrow>
     (case (if s \<noteq> [] \<and> last s = CHR 0x0A then butlast s else s) of
        [] \<Rightarrow> False
      | c # ds \<Rightarrow> c = CHR ''-'' \<and>
          (ds \<noteq> [] \<and> list_all is_digit ds \<or>
           (case dropWhile is_digit ds of
              [] \<Rightarrow> False
            | d # fs \<Rightarrow> d = CHR ''.'' \<and> fs \<noteq> [] \<and> list_all is_digit fs)))"

definition parse_optional :: "option_map \<Rightarrow> string \<Rightarrow> arg_class res" where
  "parse_optional m s =
     (if s = [] \<or> hd s \<noteq> CHR ''-'' then Inr IsArgument
      else case map_of m s of
        Some a \<Rightarrow> Inr (IsOption (Some a) s None)
      | None \<Rightarrow>
          if length s = 1 then Inr IsArgument
          else case (if CHR ''='' \<in> set s then map_of m (before_eq s) else None) of
            Some a \<Rightarrow> Inr (IsOption (Some a) (before_eq s) (Some (after_eq s)))
          | None \<Rightarrow>
              (case get_option_tuples m s of
                 [] \<Rightarrow> Inr (if is_negative_number s \<or> CHR '' '' \<in> set s then IsArgument else IsOption None s None)
               | [(a, f, e)] \<Rightarrow> Inr (IsOption (Some a) f e)
               | _ \<Rightarrow> usage_error))"

fun classify :: "option_map \<Rightarrow> string list \<Rightarrow> (string \<times> arg_class) list res" where
  "classify m [] = Inr []"
| "classify m (s # ss) =
     (if s = ''--'' then Inr ((s, IsDashes) # map (\<lambda>t. (t, IsArgument)) ss)
      else bind_res (parse_optional m s) (\<lambda>c.
           bind_res (classify m ss) (\<lambda>cs. Inr ((s, c) # cs))))"

section \<open>Actions\<close>

fun get_value :: "arg_type \<Rightarrow> string \<Rightarrow> pyval res" where
  "get_value StrArg s = Inr (PStr s)"
| "get_value IntArg s = (case int_of_str s of Inl _ \<Rightarrow> usage_error | Inr n \<Rightarrow> Inr (PInt n))"

text \<open>The value of an option: \<open>--\<close> is taken out first, which leaves an empty list of \<open>--flag=--\<close>.\<close>

definition get_values :: "arg_type \<Rightarrow> string list \<Rightarrow> pyval res" where
  "get_values ty arg_strings =
     (case filter (\<lambda>s. s \<noteq> ''--'') arg_strings of
        [s] \<Rightarrow> get_value ty s
      | ss \<Rightarrow> bind_res (map_res (get_value ty) ss) (\<lambda>vs. Inr (PList vs)))"

definition take_action :: "arg_decl \<times> string list \<Rightarrow> namespace \<Rightarrow> namespace res" where
  "take_action t ns =
     (case t of (a, arg_strings) \<Rightarrow>
      case ad_action a of
        StoreTrue \<Rightarrow> Inr (dict_set (ad_dest a) (PBool True) ns)
      | Store ty \<Rightarrow> bind_res (get_values ty arg_strings) (\<lambda>v. Inr (dict_set (ad_dest a) v ns))
      | ShowHelp \<Rightarrow> Inl (SysExit 0))"

fun takes_value :: "arg_action \<Rightarrow> bool" where
  "takes_value (Store _) = True"
| "takes_value _ = False"

text \<open>
  The actions of one option and how many of the following strings they take: without a value in
  the string itself, from the next one; with one, it is the value, or, after a short option that
  takes none, more short options.
\<close>

definition collect_next :: "(string \<times> arg_class) list \<Rightarrow> arg_decl \<Rightarrow> ((arg_decl \<times> string list) list \<times> nat) res" where
  "collect_next rest a =
     (if takes_value (ad_action a)
      then (case rest of
              (s, IsArgument) # _ \<Rightarrow> Inr ([(a, [s])], 1)
            | _ \<Rightarrow> usage_error)
      else Inr ([(a, [])], 0))"

fun collect_explicit ::
  "option_map \<Rightarrow> (string \<times> arg_class) list \<Rightarrow> arg_decl \<Rightarrow> string \<Rightarrow> string \<Rightarrow> ((arg_decl \<times> string list) list \<times> nat) res" where
  "collect_explicit m rest a f [] =
     (if takes_value (ad_action a) then Inr ([(a, [[]])], 0)
      else if startswith f ''--'' then usage_error
      else Inl IndexError)"
| "collect_explicit m rest a f (c # e) =
     (if takes_value (ad_action a) then Inr ([(a, [c # e])], 0)
      else if startswith f ''--'' then usage_error
      else case map_of m [hd f, c] of
             None \<Rightarrow> usage_error
           | Some a' \<Rightarrow>
               bind_res (if e = [] then collect_next rest a' else collect_explicit m rest a' [hd f, c] e)
                 (\<lambda>(ts, n). Inr ((a, []) # ts, n)))"

section \<open>The loop\<close>

text \<open>
  \<open>ps_unrecognized\<close> is the hidden attribute of the namespace in which the parser of a sub-command
  leaves what it does not know; \<open>ps_pending\<close> says whether the positional argument is still to come.
\<close>

record parse_state =
  ps_namespace :: namespace
  ps_extras :: "string list"
  ps_unrecognized :: "string list"
  ps_pending :: bool

definition add_extras :: "string list \<Rightarrow> parse_state \<Rightarrow> parse_state" where
  "add_extras ss st = st\<lparr>ps_extras := ps_extras st @ ss\<rparr>"

definition consume_optional ::
  "option_map \<Rightarrow> string \<Rightarrow> arg_decl option \<Rightarrow> string \<Rightarrow> string option \<Rightarrow> (string \<times> arg_class) list \<Rightarrow> parse_state \<Rightarrow>
   ((string \<times> arg_class) list \<times> parse_state) res" where
  "consume_optional m s action f explicit_arg rest st =
     (case action of
        None \<Rightarrow> Inr (rest, add_extras [s] st)
      | Some a \<Rightarrow>
          bind_res (case explicit_arg of None \<Rightarrow> collect_next rest a | Some e \<Rightarrow> collect_explicit m rest a f e)
            (\<lambda>(ts, n).
          bind_res (fold_res take_action ts (ps_namespace st)) (\<lambda>ns.
          Inr (drop n rest, st\<lparr>ps_namespace := ns\<rparr>))))"

fun is_option :: "string \<times> arg_class \<Rightarrow> bool" where
  "is_option (s, IsOption _ _ _) = True"
| "is_option _ = False"

text \<open>The pattern of the sub-command: any number of \<open>--\<close>, an argument, and everything after it\<close>

definition matches_parser :: "(string \<times> arg_class) list \<Rightarrow> bool" where
  "matches_parser cs =
     (case dropWhile (\<lambda>c. snd c = IsDashes) cs of [] \<Rightarrow> False | c # _ \<Rightarrow> snd c = IsArgument)"

type_synonym positional = "string list \<Rightarrow> parse_state \<Rightarrow> parse_state res"

definition consume_positionals ::
  "positional \<Rightarrow> (string \<times> arg_class) list \<Rightarrow> parse_state \<Rightarrow> ((string \<times> arg_class) list \<times> parse_state) res" where
  "consume_positionals act cs st =
     (if ps_pending st \<and> matches_parser cs
      then bind_res (act (map fst cs) (st\<lparr>ps_pending := False\<rparr>)) (\<lambda>st'. Inr ([], st'))
      else Inr (cs, st))"

lemma consume_optional_length:
  "consume_optional m s action f e rest st = Inr (rest', st') \<Longrightarrow> length rest' \<le> length rest"
  by (auto simp: consume_optional_def bind_res_eq_Inr split: option.splits prod.splits)

function (sequential) parse_loop ::
  "option_map \<Rightarrow> positional \<Rightarrow> (string \<times> arg_class) list \<Rightarrow> parse_state \<Rightarrow> ((string \<times> arg_class) list \<times> parse_state) res" where
  "parse_loop m act cs st =
     (case dropWhile (\<lambda>c. \<not> is_option c) cs of
        (s, IsOption action f e) # rest \<Rightarrow>
          let pre = takeWhile (\<lambda>c. \<not> is_option c) cs in
          if pre \<noteq> [] \<and> ps_pending st \<and> matches_parser cs
          then consume_positionals act cs st
          else bind_res (consume_optional m s action f e rest (add_extras (map fst pre) st)) (\<lambda>rst.
               parse_loop m act (fst rst) (snd rst))
      | _ \<Rightarrow> Inr (cs, st))"
  by pat_completeness auto
termination
proof (relation "measure (\<lambda>(m, act, cs, st). length cs)", goal_cases)
  case (2 m act cs st c rest s cl action f e pre rst)
  have "length (dropWhile (\<lambda>c. \<not> is_option c) cs) \<le> length cs" by (rule length_dropWhile_le)
  then have "length rest < length cs" using 2 by simp
  moreover have "length (fst rst) \<le> length rest"
    by (rule consume_optional_length [of m s action f e rest _ "fst rst" "snd rst"]) (use 2 in simp)
  ultimately show ?case by (simp add: case_prod_beta)
qed simp

declare parse_loop.simps [simp del]

section \<open>The parsers\<close>

text \<open>Defaults, where the namespace has nothing yet\<close>

definition add_default :: "arg_decl \<Rightarrow> namespace \<Rightarrow> namespace" where
  "add_default a ns =
     (if ad_action a = ShowHelp \<or> ad_dest a \<in> set (keys ns) then ns else dict_set (ad_dest a) (ad_default a) ns)"

definition parse_strings :: "option_map \<Rightarrow> positional \<Rightarrow> (string \<times> arg_class) list \<Rightarrow> parse_state \<Rightarrow> parse_state res" where
  "parse_strings m act cs st =
     bind_res (parse_loop m act cs st) (\<lambda>(cs', st1).
     bind_res (consume_positionals act cs' st1) (\<lambda>(cs2, st2).
     Inr (add_extras (map fst cs2) st2)))"

definition parse_known_args ::
  "arg_decl list \<Rightarrow> positional \<Rightarrow> bool \<Rightarrow> string list \<Rightarrow> namespace \<Rightarrow> (namespace \<times> string list) res" where
  "parse_known_args args act positional arg_strings ns =
     bind_res (classify (option_map args) arg_strings) (\<lambda>cs.
     bind_res (parse_strings (option_map args) act cs
         \<lparr>ps_namespace = fold add_default args ns, ps_extras = [], ps_unrecognized = [], ps_pending = positional\<rparr>)
       (\<lambda>st. if ps_pending st then usage_error
             else Inr (ps_namespace st, ps_extras st @ ps_unrecognized st)))"

text \<open>The positional argument of the main parser, and of the parsers of the sub-commands: none\<close>

definition no_positional :: positional where
  "no_positional arg_strings st = Inr st"

definition sub_command :: positional where
  "sub_command arg_strings st =
     (case arg_strings of
        [] \<Rightarrow> usage_error
      | name # strings \<Rightarrow>
          (case map_of sub_parsers name of
             None \<Rightarrow> usage_error
           | Some args \<Rightarrow>
               bind_res (parse_known_args (help_argument # args) no_positional False strings
                   (dict_set ''command'' (PStr name) (ps_namespace st))) (\<lambda>(ns, others).
               Inr (st\<lparr>ps_namespace := ns, ps_unrecognized := ps_unrecognized st @ others\<rparr>))))"

definition cmd_parse :: "string list \<Rightarrow> (namespace \<times> string list) res" where
  "cmd_parse argv = parse_known_args [help_argument] sub_command True argv [(''command'', PNone)]"

text \<open>\<open>CmdArguments()\<close> on a line. The record of options has integers where \<open>--jobs=--\<close> and
  \<open>--test-jobs=--\<close> leave an empty list; there it says nothing.\<close>

definition numbers_read :: "namespace \<Rightarrow> bool" where
  "numbers_read ns \<longleftrightarrow>
     (\<forall>k \<in> {''jobs'', ''test_jobs''}. case dict_get ns k PNone of PList _ \<Rightarrow> False | _ \<Rightarrow> True)"

definition parsed_line :: "string list \<Rightarrow> (options \<times> string list) res option" where
  "parsed_line argv =
     (case cmd_parse argv of
        Inl e \<Rightarrow> Some (Inl e)
      | Inr (ns, others) \<Rightarrow> if numbers_read ns then Some (Inr (options_of ns, others)) else None)"

lemma demo_parse:
  "case cmd_parse [''build'', ''-kj4'', ''--prof=debug'', ''//a:b'', ''-q'', ''--'', ''-x''] of
     Inl e \<Rightarrow> False
   | Inr (ns, others) \<Rightarrow> others = [''//a:b'', ''-q'', ''--'', ''-x''] \<and> map_of ns ''jobs'' = Some (PInt 4) \<and>
       map_of ns ''keep_going'' = Some (PBool True) \<and> map_of ns ''profile'' = Some (PStr ''debug'')"
  by code_simp

lemma demo_errors:
  "cmd_parse [] = Inl (SysExit 2)" "cmd_parse [''biuld''] = Inl (SysExit 2)"
  "cmd_parse [''build'', ''--g=1''] = Inl (SysExit 2)" "cmd_parse [''test'', ''-t'', ''--''] = Inl (SysExit 2)"
  "cmd_parse [''run'', ''-kh'', ''-j'', ''x''] = Inl (SysExit 0)"
  "cmd_parse [''build'', ''-k=''] = Inl IndexError"
  by code_simp+

section \<open>Nothing is made up\<close>

text \<open>A positional argument keeps the contract when it only adds to what is not recognized, and only
  strings it was given.\<close>

definition keeps_strings :: "positional \<Rightarrow> bool" where
  "keeps_strings act \<longleftrightarrow> (\<forall>ss st st'. act ss st = Inr st' \<longrightarrow> ps_extras st' = ps_extras st \<and>
     (\<exists>xs. ps_unrecognized st' = ps_unrecognized st @ xs \<and> subseq xs ss) \<and> ps_pending st' = ps_pending st)"

lemma add_extras_simps [simp]:
  "ps_extras (add_extras ss st) = ps_extras st @ ss" "ps_unrecognized (add_extras ss st) = ps_unrecognized st"
  "ps_pending (add_extras ss st) = ps_pending st" "ps_namespace (add_extras ss st) = ps_namespace st"
  "add_extras [] st = st" "add_extras ts (add_extras ss st) = add_extras (ss @ ts) st"
  by (simp_all add: add_extras_def)

lemma consume_optional_state:
  assumes "consume_optional m s a f e rest st = Inr (rest', st')"
  shows "ps_extras st' = ps_extras st @ (if a = None then [s] else []) \<and> ps_unrecognized st' = ps_unrecognized st \<and>
    ps_pending st' = ps_pending st \<and> (\<exists>n. rest' = drop n rest)"
proof (cases a)
  case None
  then show ?thesis using assms by (auto simp: consume_optional_def intro: exI [of _ 0])
next
  case (Some b)
  then show ?thesis using assms by (auto simp: consume_optional_def bind_res_eq_Inr split: prod.splits)
qed

lemma subseq_drop: "subseq (drop n xs) xs"
  by (metis append_take_drop_id subseq_append_iff list_emb_Nil append_Nil subseq_order.order_refl)

definition kept :: "parse_state \<Rightarrow> string list" where
  "kept st = ps_extras st @ ps_unrecognized st"

lemma consume_positionals_kept:
  assumes "keeps_strings act" and "consume_positionals act cs st = Inr (cs', st')" and "ps_unrecognized st = []"
  shows "\<exists>xs. kept st' = kept st @ xs \<and> subseq (xs @ map fst cs') (map fst cs) \<and>
    (ps_unrecognized st' = [] \<or> cs' = [])"
  using assms unfolding consume_positionals_def keeps_strings_def kept_def
  by (auto simp: bind_res_eq_Inr split: if_splits) fastforce

text \<open>The loop on strings without options, and up to the first option\<close>

lemma parse_loop_arguments: "\<forall>c \<in> set cs. \<not> is_option c \<Longrightarrow> parse_loop m act cs st = Inr (cs, st)"
proof -
  assume "\<forall>c \<in> set cs. \<not> is_option c"
  then have "dropWhile (\<lambda>c. \<not> is_option c) cs = []" by simp
  then show ?thesis by (simp only: parse_loop.simps [of m act cs] list.case)
qed

lemma parse_loop_option:
  assumes "\<forall>c \<in> set pre. \<not> is_option c"
  shows "parse_loop m act (pre @ (s, IsOption a f e) # rest) st =
    (if pre \<noteq> [] \<and> ps_pending st \<and> matches_parser (pre @ (s, IsOption a f e) # rest)
     then consume_positionals act (pre @ (s, IsOption a f e) # rest) st
     else bind_res (consume_optional m s a f e rest (add_extras (map fst pre) st)) (\<lambda>r.
          parse_loop m act (fst r) (snd r)))"
proof -
  have "dropWhile (\<lambda>c. \<not> is_option c) (pre @ (s, IsOption a f e) # rest) = (s, IsOption a f e) # rest"
    "takeWhile (\<lambda>c. \<not> is_option c) (pre @ (s, IsOption a f e) # rest) = pre"
    using assms by (simp_all add: dropWhile_append2 takeWhile_append2)
  then show ?thesis by (simp only: parse_loop.simps [of m act "pre @ _"] list.case prod.case arg_class.case Let_def)
qed

lemma split_options:
  obtains "\<forall>c \<in> set cs. \<not> is_option c"
  | pre s a f e rest where "cs = pre @ (s, IsOption a f e) # rest" and "\<forall>c \<in> set pre. \<not> is_option c"
proof (cases "\<exists>c \<in> set cs. is_option c")
  case True
  from split_list_first_prop [OF this] obtain pre c rest
    where c: "cs = pre @ c # rest" "is_option c" "\<forall>c \<in> set pre. \<not> is_option c" by blast
  then obtain s a f e where "c = (s, IsOption a f e)" by (cases c rule: is_option.cases) auto
  with c that(2) show thesis by blast
qed (use that(1) in blast)

lemma parse_loop_kept:
  assumes "keeps_strings act"
  shows "parse_loop m act cs st = Inr (cs', st') \<Longrightarrow> ps_unrecognized st = [] \<Longrightarrow>
   \<exists>xs. kept st' = kept st @ xs \<and> subseq (xs @ map fst cs') (map fst cs) \<and>
     (ps_unrecognized st' = [] \<or> cs' = [])"
proof (induction "length cs" arbitrary: cs st rule: less_induct)
  case less
  show ?case
  proof (cases cs rule: split_options)
    case 1
    with less.prems show ?thesis by (auto simp: parse_loop_arguments intro: exI [of _ "[]"])
  next
    case (2 pre s a f e rest)
    note loop = less.prems(1) [unfolded 2(1) parse_loop_option [OF 2(2)]]
    show ?thesis
    proof (cases "pre \<noteq> [] \<and> ps_pending st \<and> matches_parser (pre @ (s, IsOption a f e) # rest)")
      case True
      then have "consume_positionals act (pre @ (s, IsOption a f e) # rest) st = Inr (cs', st')" using loop by simp
      from consume_positionals_kept [OF assms this less.prems(2)] show ?thesis unfolding 2(1) .
    next
      case False
      then obtain r st1 where step: "consume_optional m s a f e rest (add_extras (map fst pre) st) = Inr (r, st1)"
        and rec: "parse_loop m act r st1 = Inr (cs', st')"
        using loop by (auto simp: bind_res_eq_Inr)
      from consume_optional_state [OF step] obtain n where
        st1: "ps_extras st1 = ps_extras st @ map fst pre @ (if a = None then [s] else [])"
          "ps_unrecognized st1 = []" and r: "r = drop n rest"
        using less.prems(2) by auto
      have "length r < length cs" unfolding 2(1) r by simp
      from less.hyps [OF this rec st1(2)] obtain xs where
        xs: "kept st' = kept st1 @ xs" "subseq (xs @ map fst cs') (map fst r)"
          "ps_unrecognized st' = [] \<or> cs' = []" by blast
      have "subseq (map fst r) (map fst rest)" unfolding r drop_map [symmetric] by (rule subseq_drop)
      with xs(2) have "subseq (xs @ map fst cs') (map fst rest)" by (rule subseq_order.order_trans)
      moreover have "subseq (if a = None then [s] else []) [s]" by simp
      ultimately have "subseq ((if a = None then [s] else []) @ xs @ map fst cs') ([s] @ map fst rest)"
        by (rule list_emb_append_mono [rotated])
      then have "subseq ((map fst pre @ (if a = None then [s] else []) @ xs) @ map fst cs') (map fst cs)"
        unfolding 2(1) by (simp add: list_emb_append_mono)
      moreover have "kept st' = kept st @ map fst pre @ (if a = None then [s] else []) @ xs"
        using xs(1) st1 less.prems(2) by (simp add: kept_def)
      ultimately show ?thesis using xs(3) by blast
    qed
  qed
qed

lemma parse_strings_kept:
  assumes "keeps_strings act" and "parse_strings m act cs st = Inr st'" and "ps_unrecognized st = []"
  shows "\<exists>xs. kept st' = kept st @ xs \<and> subseq xs (map fst cs)"
proof -
  from assms(2) obtain cs1 st1 cs2 st2 where 1: "parse_loop m act cs st = Inr (cs1, st1)"
    and 2: "consume_positionals act cs1 st1 = Inr (cs2, st2)" and st': "st' = add_extras (map fst cs2) st2"
    by (auto simp: parse_strings_def bind_res_eq_Inr)
  from parse_loop_kept [OF assms(1) 1 assms(3)] obtain xs where
    xs: "kept st1 = kept st @ xs" "subseq (xs @ map fst cs1) (map fst cs)" "ps_unrecognized st1 = [] \<or> cs1 = []"
    by blast
  show ?thesis
  proof (cases "cs1 = []")
    case True
    then have "cs2 = [] \<and> st2 = st1" using 2 by (auto simp: consume_positionals_def matches_parser_def)
    then show ?thesis using xs True st' by auto
  next
    case False
    then have un: "ps_unrecognized st1 = []" using xs(3) by simp
    from consume_positionals_kept [OF assms(1) 2 un] obtain ys where
      ys: "kept st2 = kept st1 @ ys" "subseq (ys @ map fst cs2) (map fst cs1)" "ps_unrecognized st2 = [] \<or> cs2 = []"
      by blast
    have "kept st' = kept st @ xs @ ys @ map fst cs2" using xs(1) ys(1,3) st' by (auto simp: kept_def)
    moreover have "subseq (xs @ ys @ map fst cs2) (map fst cs)"
      by (rule subseq_order.order_trans [OF _ xs(2)]) (simp add: list_emb_append_mono ys(2))
    ultimately show ?thesis by blast
  qed
qed

lemma classify_strings: "classify m ss = Inr cs \<Longrightarrow> map fst cs = ss"
  by (induction ss arbitrary: cs) (auto simp: bind_res_eq_Inr o_def split: if_splits)

lemma parse_known_args_kept:
  assumes "keeps_strings act" and "parse_known_args args act pos ss ns = Inr (ns', others)"
  shows "subseq others ss"
proof -
  from assms(2) obtain cs st where cs: "classify (option_map args) ss = Inr cs"
    and st: "parse_strings (option_map args) act cs \<lparr>ps_namespace = fold add_default args ns, ps_extras = [],
        ps_unrecognized = [], ps_pending = pos\<rparr> = Inr st" and "others = kept st"
    by (auto simp: parse_known_args_def bind_res_eq_Inr kept_def usage_error_def split: if_splits)
  with parse_strings_kept [OF assms(1) st] classify_strings [OF cs] show ?thesis by (auto simp: kept_def)
qed

lemma no_positional_keeps: "keeps_strings no_positional"
  by (auto simp: keeps_strings_def no_positional_def intro: exI [of _ "[]"])

lemma sub_command_keeps: "keeps_strings sub_command"
  unfolding keeps_strings_def
proof (intro allI impI)
  fix ss st st' assume run: "sub_command ss st = Inr st'"
  then obtain name strings args ns others where ss: "ss = name # strings"
    and sub: "parse_known_args (help_argument # args) no_positional False strings
        (dict_set ''command'' (PStr name) (ps_namespace st)) = Inr (ns, others)"
    and st': "st' = st\<lparr>ps_namespace := ns, ps_unrecognized := ps_unrecognized st @ others\<rparr>"
    by (auto simp: sub_command_def usage_error_def bind_res_eq_Inr split: list.splits option.splits)
  from parse_known_args_kept [OF no_positional_keeps sub] have "subseq others ss"
    unfolding ss by (rule list_emb_Cons)
  then show "ps_extras st' = ps_extras st \<and>
     (\<exists>xs. ps_unrecognized st' = ps_unrecognized st @ xs \<and> subseq xs ss) \<and> ps_pending st' = ps_pending st"
    by (auto simp: st')
qed

text \<open>C33: What the parser does not recognize, targets included, is handed on in the order of the
  line: the remaining strings are a subsequence of its strings, whatever the line.\<close>

theorem cmd_parse_keeps_order:
  assumes "cmd_parse argv = Inr (ns, others)"
  shows "subseq others argv"
  using parse_known_args_kept [OF sub_command_keeps] assms unfolding cmd_parse_def by blast

theorem cmd_parse_keeps_order_witness:
  "\<exists>ns others. cmd_parse [''build'', ''-kj4'', ''--prof=debug'', ''//a:b'', ''-q'', ''--'', ''-x''] = Inr (ns, others) \<and>
     subseq others [''build'', ''-kj4'', ''--prof=debug'', ''//a:b'', ''-q'', ''--'', ''-x'']"
proof -
  obtain ns others where run: "cmd_parse [''build'', ''-kj4'', ''--prof=debug'', ''//a:b'', ''-q'', ''--'', ''-x''] =
      Inr (ns, others)"
    using demo_parse by (cases "cmd_parse [''build'', ''-kj4'', ''--prof=debug'', ''//a:b'', ''-q'', ''--'', ''-x'']") auto
  from cmd_parse_keeps_order [OF this] run show ?thesis by blast
qed

end
