(* ===== verification/ArgRoundtrip.thy ===== *)
theory ArgRoundtrip
  imports ArgParse
begin

text \<open>
  What is written on a command line is what the program reads: a line made of a sub-command,
  settings in any of the ways \<open>argparse\<close> knows, and targets between them, gives back the
  settings and the targets.
\<close>

section \<open>Lines\<close>

text \<open>
  A flag, and how it is written: \<open>-k\<close>, \<open>--profile=debug\<close>, \<open>--profile debug\<close>, \<open>-pdebug\<close>, and short
  switches in front of another short flag, as in \<open>-kj4\<close>. A long flag may be shortened.
\<close>

datatype piece =
    Switch arg_decl string string
  | Joined arg_decl string string string
  | Separate arg_decl string string string
  | Attached arg_decl string string
  | Bundled arg_decl string piece
  | Target string

fun strings_of :: "piece \<Rightarrow> string list" where
  "strings_of (Switch a f w) = [w]"
| "strings_of (Joined a f w v) = [w @ CHR ''='' # v]"
| "strings_of (Separate a f w v) = [w, v]"
| "strings_of (Attached a f v) = [f @ v]"
| "strings_of (Bundled a f p) = (f @ tl (hd (strings_of p))) # tl (strings_of p)"
| "strings_of (Target s) = [s]"

definition plain :: "string \<Rightarrow> bool" where
  "plain s \<longleftrightarrow> s = [] \<or> hd s \<noteq> CHR ''-''"

definition accepts :: "arg_decl \<Rightarrow> string \<Rightarrow> bool" where
  "accepts a v \<longleftrightarrow> (case ad_action a of Store ty \<Rightarrow> v \<noteq> ''--'' \<and> is_ok (get_value ty v) | _ \<Rightarrow> False)"

text \<open>A flag is written in full, or as the beginning of a long flag that no other flag has.\<close>

definition shortens :: "option_map \<Rightarrow> string \<Rightarrow> string \<Rightarrow> bool" where
  "shortens m f w \<longleftrightarrow> startswith w ''--'' \<and> w \<noteq> ''--'' \<and> CHR ''='' \<notin> set w \<and>
     filter (\<lambda>g. startswith g w) (map fst m) = [f]"

definition flag_of :: "option_map \<Rightarrow> arg_decl \<Rightarrow> string \<Rightarrow> string \<Rightarrow> bool" where
  "flag_of m a f w \<longleftrightarrow> map_of m f = Some a \<and> (w = f \<or> shortens m f w)"

fun bundles :: "piece \<Rightarrow> bool" where
  "bundles (Switch a f w) \<longleftrightarrow> length w = 2 \<and> w = f"
| "bundles (Separate a f w v) \<longleftrightarrow> length w = 2 \<and> w = f"
| "bundles (Attached a f v) \<longleftrightarrow> True"
| "bundles (Bundled a f p) \<longleftrightarrow> True"
| "bundles _ \<longleftrightarrow> False"

fun piece_ok :: "option_map \<Rightarrow> piece \<Rightarrow> bool" where
  "piece_ok m (Switch a f w) \<longleftrightarrow> flag_of m a f w \<and> ad_action a = StoreTrue"
| "piece_ok m (Joined a f w v) \<longleftrightarrow> flag_of m a f w \<and> accepts a v"
| "piece_ok m (Separate a f w v) \<longleftrightarrow> flag_of m a f w \<and> accepts a v \<and> plain v"
| "piece_ok m (Attached a f v) \<longleftrightarrow> map_of m f = Some a \<and> accepts a v \<and> length f = 2 \<and> v \<noteq> [] \<and> hd v \<noteq> CHR ''=''"
| "piece_ok m (Bundled a f p) \<longleftrightarrow> map_of m f = Some a \<and> ad_action a = StoreTrue \<and> length f = 2 \<and> bundles p \<and> piece_ok m p"
| "piece_ok m (Target s) \<longleftrightarrow> plain s"

text \<open>What a line says\<close>

definition value_read :: "arg_decl \<Rightarrow> string \<Rightarrow> pyval" where
  "value_read a v = (case ad_action a of
     Store ty \<Rightarrow> (case get_value ty v of Inr x \<Rightarrow> x | Inl _ \<Rightarrow> PNone) | _ \<Rightarrow> PNone)"

fun set_piece :: "piece \<Rightarrow> namespace \<Rightarrow> namespace" where
  "set_piece (Switch a f w) ns = dict_set (ad_dest a) (PBool True) ns"
| "set_piece (Joined a f w v) ns = dict_set (ad_dest a) (value_read a v) ns"
| "set_piece (Separate a f w v) ns = dict_set (ad_dest a) (value_read a v) ns"
| "set_piece (Attached a f v) ns = dict_set (ad_dest a) (value_read a v) ns"
| "set_piece (Bundled a f p) ns = set_piece p (dict_set (ad_dest a) (PBool True) ns)"
| "set_piece (Target s) ns = ns"

fun targets_of :: "piece \<Rightarrow> string list" where
  "targets_of (Target s) = [s]"
| "targets_of _ = []"

section \<open>Classes\<close>

text \<open>What the flags of the tables have in common\<close>

definition flag_ok :: "string \<Rightarrow> bool" where
  "flag_ok f \<longleftrightarrow> startswith f ''-'' \<and> 2 \<le> length f \<and> CHR ''='' \<notin> set f \<and> f \<noteq> ''--'' \<and>
     (startswith f ''--'' \<or> length f = 2)"

definition flags_ok :: "option_map \<Rightarrow> bool" where
  "flags_ok m \<longleftrightarrow> distinct (map fst m) \<and> list_all flag_ok (map fst m)"

lemma flags_okD: "flags_ok m \<Longrightarrow> map_of m f = Some a \<Longrightarrow> flag_ok f"
  unfolding flags_ok_def list_all_iff by (metis map_of_key set_map)

lemma flag_ok_head: "flag_ok f \<Longrightarrow> \<exists>c g. f = CHR ''-'' # c # g"
  by (cases f; cases "tl f") (auto simp: flag_ok_def startswith_def)

lemma parse_optional_flag:
  assumes "flags_ok m" and "map_of m f = Some a"
  shows "parse_optional m f = Inr (IsOption (Some a) f None)"
  using flag_ok_head [OF flags_okD [OF assms]] assms(2) by (auto simp: parse_optional_def)

lemma before_eq_flag: "CHR ''='' \<notin> set f \<Longrightarrow> before_eq (f @ CHR ''='' # v) = f"
  unfolding before_eq_def by (induction f) auto

lemma after_eq_flag: "CHR ''='' \<notin> set f \<Longrightarrow> after_eq (f @ CHR ''='' # v) = v"
  unfolding after_eq_def by (induction f) auto

lemma not_a_flag: "flags_ok m \<Longrightarrow> \<not> flag_ok s \<Longrightarrow> map_of m s = None"
  by (cases "map_of m s") (auto dest: flags_okD)

lemma parse_optional_joined:
  assumes "flags_ok m" and "map_of m f = Some a"
  shows "parse_optional m (f @ CHR ''='' # v) = Inr (IsOption (Some a) f (Some v))"
proof -
  note f = flags_okD [OF assms]
  obtain c g where h: "f = CHR ''-'' # c # g" using flag_ok_head [OF f] by blast
  have eq: "CHR ''='' \<notin> set f" using f by (simp add: flag_ok_def)
  have "map_of m (f @ CHR ''='' # v) = None"
    by (rule not_a_flag [OF assms(1)]) (simp add: flag_ok_def)
  then show ?thesis using assms(2) before_eq_flag [OF eq] after_eq_flag [OF eq] h
    by (simp add: parse_optional_def)
qed

text \<open>A shortened flag has one reading.\<close>

lemma tuples_shortened:
  assumes "distinct (map fst m)" and "map_of m f = Some a" and "filter (\<lambda>g. startswith g w) (map fst m) = [f]"
  shows "concat (map (\<lambda>(g, b). if startswith g w then [(b, g, e)] else []) m) = [(a, f, e)]"
proof -
  have "concat (map (\<lambda>(g, b). if startswith g w then [(b, g, e)] else []) m) =
      map (\<lambda>g. (the (map_of m g), g, e)) (filter (\<lambda>g. startswith g w) (map fst m))"
    using assms(1)
  proof (induction m)
    case (Cons x m)
    obtain g b where x: "x = (g, b)" by (cases x)
    have "map_of (x # m) k = map_of m k" if "k \<in> set (map fst m)" for k
      using Cons.prems x that by auto
    then have "map (\<lambda>g. (the (map_of (x # m) g), g, e)) (filter (\<lambda>g. startswith g w) (map fst m)) =
        map (\<lambda>g. (the (map_of m g), g, e)) (filter (\<lambda>g. startswith g w) (map fst m))"
      by (intro map_cong) simp_all
    then show ?case using Cons x by simp
  qed simp
  then show ?thesis using assms(2,3) by simp
qed

lemma shortens_flag:
  assumes "shortens m f w" and "map_of m w = Some b"
  shows "w = f"
proof -
  have "w \<in> set (map fst m)" using assms(2) by (metis map_of_eq_None_iff option.distinct(1) set_map)
  then have w: "w \<in> set (filter (\<lambda>g. startswith g w) (map fst m))" by (simp add: startswith_def)
  have "filter (\<lambda>g. startswith g w) (map fst m) = [f]" using assms(1) by (simp add: shortens_def)
  then show ?thesis using w by simp
qed

lemma parse_optional_written:
  assumes "flags_ok m" and "flag_of m a f w"
  shows "parse_optional m w = Inr (IsOption (Some a) f None)"
proof (cases "w = f")
  case True
  then show ?thesis using parse_optional_flag [OF assms(1)] assms(2) by (simp add: flag_of_def)
next
  case False
  then have s: "shortens m f w" "map_of m f = Some a" using assms(2) by (simp_all add: flag_of_def)
  then obtain r where w: "w = CHR ''-'' # CHR ''-'' # r" by (auto simp: shortens_def startswith_iff)
  have "map_of m w = None" using shortens_flag [OF s(1)] False by (cases "map_of m w") auto
  moreover have "get_option_tuples m w = [(a, f, None)]"
    using s assms(1) tuples_shortened [of m f a w None]
    by (simp add: get_option_tuples_def shortens_def flags_ok_def)
  ultimately show ?thesis using s(1) by (simp add: parse_optional_def w shortens_def)
qed

lemma parse_optional_written_joined:
  assumes "flags_ok m" and "flag_of m a f w"
  shows "parse_optional m (w @ CHR ''='' # v) = Inr (IsOption (Some a) f (Some v))"
proof (cases "w = f")
  case True
  then show ?thesis using parse_optional_joined [OF assms(1)] assms(2) by (simp add: flag_of_def)
next
  case False
  then have s: "shortens m f w" "map_of m f = Some a" using assms(2) by (simp_all add: flag_of_def)
  then obtain r where w: "w = CHR ''-'' # CHR ''-'' # r" by (auto simp: shortens_def startswith_iff)
  have eq: "CHR ''='' \<notin> set w" using s(1) by (simp add: shortens_def)
  have "map_of m w = None" using shortens_flag [OF s(1)] False by (cases "map_of m w") auto
  moreover have "map_of m (w @ CHR ''='' # v) = None"
    by (rule not_a_flag [OF assms(1)]) (simp add: flag_ok_def)
  moreover have "startswith (w @ CHR ''='' # v) ''--''" by (simp add: w startswith_def)
  then have "get_option_tuples m (w @ CHR ''='' # v) = [(a, f, Some v)]"
    using s assms(1) tuples_shortened [of m f a w "Some v"] before_eq_flag [OF eq] after_eq_flag [OF eq]
    by (simp add: get_option_tuples_def shortens_def flags_ok_def)
  ultimately show ?thesis using before_eq_flag [OF eq] by (simp add: parse_optional_def w)
qed

text \<open>A short flag with its value attached is the only reading: no other flag begins so.\<close>

lemma single_match:
  assumes "distinct (map fst m)" and "map_of m k = Some a" and "\<And>f a'. (f, a') \<in> set m \<Longrightarrow> f \<noteq> k \<Longrightarrow> g f a' = []"
  shows "concat (map (\<lambda>(f, a'). if f = k then [h f a'] else g f a') m) = [h k a]"
  using assms
proof (induction m)
  case (Cons x m)
  obtain f b where x: "x = (f, b)" by (cases x)
  show ?case
  proof (cases "f = k")
    case True
    then have "\<forall>(f', a') \<in> set m. f' \<noteq> k" using Cons.prems(1) x by force
    then have "concat (map (\<lambda>(f, a'). if f = k then [h f a'] else g f a') m) = []"
      using Cons.prems(3) by (fastforce simp: concat_eq_Nil_conv)
    then show ?thesis using Cons.prems(2) True x by simp
  next
    case False
    then show ?thesis using Cons x by auto
  qed
qed simp

lemma parse_optional_attached:
  assumes "flags_ok m" and "map_of m f = Some a" and "length f = 2" and v: "v \<noteq> []" "hd v \<noteq> CHR ''=''"
  shows "parse_optional m (f @ v) = Inr (IsOption (Some a) f (Some v))"
proof -
  note f = flags_okD [OF assms(1,2)]
  obtain c where h: "f = [CHR ''-'', c]" using flag_ok_head [OF f] assms(3) by auto
  have c: "c \<noteq> CHR ''-''" "c \<noteq> CHR ''=''" using f h by (auto simp: flag_ok_def)
  obtain d w where w: "v = d # w" "d \<noteq> CHR ''=''" using v by (cases v) auto
  have none: "map_of m (CHR ''-'' # c # d # u) = None" for u
    by (rule not_a_flag [OF assms(1)]) (simp add: flag_ok_def c startswith_def)
  have be: "\<exists>u. before_eq (f @ v) = CHR ''-'' # c # d # u" using c w by (simp add: before_eq_def h)
  have "get_option_tuples m (f @ v) = [(a, f, Some v)]"
  proof -
    have "\<not> startswith (f @ v) ''--''" using c by (simp add: h startswith_def)
    moreover have "\<not> startswith g (f @ v)" if "(g, b) \<in> set m" for g b
    proof -
      have "flag_ok g" using that assms(1) by (force simp: flags_ok_def list_all_iff)
      then show ?thesis using c w
        by (cases g; cases "tl g") (auto simp: flag_ok_def startswith_def h)
    qed
    moreover have "take 2 (f @ v) = f" "drop 2 (f @ v) = v" using assms(3) by simp_all
    ultimately show ?thesis
      using single_match [of m f a "\<lambda>g b. if startswith g (f @ v) then [(b, g, None)] else []" "\<lambda>g b. (b, g, Some v)"]
        assms(1,2) by (simp only: get_option_tuples_def flags_ok_def if_False)
  qed
  then show ?thesis using none [of w] be none by (auto simp: parse_optional_def h w)
qed

lemma parse_optional_plain: "plain s \<Longrightarrow> parse_optional m s = Inr IsArgument"
  by (auto simp: plain_def parse_optional_def)

fun classes :: "piece \<Rightarrow> (string \<times> arg_class) list" where
  "classes (Switch a f w) = [(w, IsOption (Some a) f None)]"
| "classes (Joined a f w v) = [(w @ CHR ''='' # v, IsOption (Some a) f (Some v))]"
| "classes (Separate a f w v) = [(w, IsOption (Some a) f None), (v, IsArgument)]"
| "classes (Attached a f v) = [(f @ v, IsOption (Some a) f (Some v))]"
| "classes (Bundled a f p) =
     (f @ tl (hd (strings_of p)), IsOption (Some a) f (Some (tl (hd (strings_of p))))) #
     map (\<lambda>v. (v, IsArgument)) (tl (strings_of p))"
| "classes (Target s) = [(s, IsArgument)]"

text \<open>The actions of a bundle, and how the parser collects them letter by letter\<close>

fun acts :: "piece \<Rightarrow> (arg_decl \<times> string list) list" where
  "acts (Switch a f w) = [(a, [])]"
| "acts (Joined a f w v) = [(a, [v])]"
| "acts (Separate a f w v) = [(a, [v])]"
| "acts (Attached a f v) = [(a, [v])]"
| "acts (Bundled a f p) = (a, []) # acts p"
| "acts (Target s) = []"

lemma short_flag:
  assumes "flags_ok m" and "map_of m f = Some a" and "length f = 2"
  obtains c where "f = [CHR ''-'', c]" "c \<noteq> CHR ''-''" "c \<noteq> CHR ''=''"
proof -
  note f = flags_okD [OF assms(1,2)]
  obtain c where h: "f = [CHR ''-'', c]" using flag_ok_head [OF f] assms(3) by auto
  with f that show thesis by (auto simp: flag_ok_def)
qed

lemma take_action_value:
  assumes "accepts a v"
  shows "take_action (a, [v]) ns = Inr (dict_set (ad_dest a) (value_read a v) ns)" and "takes_value (ad_action a)"
  using assms by (auto simp: accepts_def take_action_def get_values_def value_read_def is_ok_iff split: arg_action.splits)

lemma collect_value: "accepts a v \<Longrightarrow> collect_explicit m rest a f v = Inr ([(a, [v])], 0)"
  using take_action_value(2) [of a v] by (cases v) simp_all

definition arguments :: "string list \<Rightarrow> (string \<times> arg_class) list" where
  "arguments vs = map (\<lambda>v. (v, IsArgument)) vs"

lemma bundle_reads:
  assumes m: "flags_ok m"
  shows "piece_ok m p \<Longrightarrow> bundles p \<Longrightarrow> \<exists>c e b. hd (strings_of p) = CHR ''-'' # c # e \<and> c \<noteq> CHR ''='' \<and>
    map_of m [CHR ''-'', c] = Some b \<and>
    (\<forall>rest. (if e = [] then collect_next (arguments (tl (strings_of p)) @ rest) b
             else collect_explicit m (arguments (tl (strings_of p)) @ rest) b [CHR ''-'', c] e) =
           Inr (acts p, length (tl (strings_of p))))"
proof (induction p)
  case (Switch a f w)
  then obtain c where "w = f" "f = [CHR ''-'', c]" "c \<noteq> CHR ''=''"
    using short_flag [OF m, of f a] by (auto simp: flag_of_def)
  with Switch show ?case by (simp add: flag_of_def collect_next_def)
next
  case (Separate a f w v)
  then obtain c where "w = f" "f = [CHR ''-'', c]" "c \<noteq> CHR ''=''"
    using short_flag [OF m, of f a] by (auto simp: flag_of_def)
  with Separate show ?case using take_action_value(2) [of a v]
    by (simp add: flag_of_def collect_next_def arguments_def)
next
  case (Attached a f v)
  then have ok: "map_of m f = Some a" "accepts a v" "length f = 2" "v \<noteq> []" by simp_all
  obtain c where f: "f = [CHR ''-'', c]" "c \<noteq> CHR ''=''" using short_flag [OF m ok(1,3)] by metis
  show ?case using ok(1,4) f by (simp add: collect_value [OF ok(2)])
next
  case (Bundled a f p)
  then obtain c where f: "f = [CHR ''-'', c]" "c \<noteq> CHR ''-''" "c \<noteq> CHR ''=''" using short_flag [OF m, of f a] by auto
  from Bundled obtain d e b where p: "hd (strings_of p) = CHR ''-'' # d # e" "map_of m [CHR ''-'', d] = Some b"
    "\<And>rest. (if e = [] then collect_next (arguments (tl (strings_of p)) @ rest) b
             else collect_explicit m (arguments (tl (strings_of p)) @ rest) b [CHR ''-'', d] e) =
           Inr (acts p, length (tl (strings_of p)))" by auto
  have "\<not> startswith [CHR ''-'', c] ''--''" using f(2) by (simp add: startswith_def)
  then have "\<forall>rest. collect_explicit m (arguments (tl (strings_of p)) @ rest) a [CHR ''-'', c] (d # e) =
      Inr ((a, []) # acts p, length (tl (strings_of p)))"
    using Bundled.prems f(1) p(2,3) by (cases "e = []") simp_all
  then show ?case using Bundled.prems f p(1) by simp
qed simp_all

lemma acts_take:
  "piece_ok m p \<Longrightarrow> bundles p \<Longrightarrow> fold_res take_action (acts p) ns = Inr (set_piece p ns)"
proof (induction p arbitrary: ns)
  case (Switch a f w)
  then show ?case by (simp add: take_action_def)
next
  case (Bundled a f p)
  then show ?case by (simp add: take_action_def)
qed (simp_all add: take_action_value)

lemma bundle_rest_plain: "piece_ok m p \<Longrightarrow> bundles p \<Longrightarrow> list_all plain (tl (strings_of p))"
  by (induction p) simp_all

lemma classify_string:
  "s \<noteq> ''--'' \<Longrightarrow> parse_optional m s = Inr c \<Longrightarrow> classify m (s # ss) = bind_res (classify m ss) (\<lambda>cs. Inr ((s, c) # cs))"
  by simp

lemma plain_not_dashes: "plain s \<Longrightarrow> s \<noteq> ''--''"
  by (auto simp: plain_def)

lemma classify_plains:
  "list_all plain vs \<Longrightarrow> classify m ss = Inr cs \<Longrightarrow> classify m (vs @ ss) = Inr (arguments vs @ cs)"
  by (induction vs) (simp_all add: plain_not_dashes parse_optional_plain arguments_def)

lemma classify_piece:
  assumes "flags_ok m" and "piece_ok m p" and "classify m ss = Inr cs"
  shows "classify m (strings_of p @ ss) = Inr (classes p @ cs)"
proof -
  have eq: "f @ CHR ''='' # v \<noteq> ''--''" for f v by (cases f; cases "tl f") auto
  have fv: "f @ v \<noteq> ''--''" if "length f = 2" "v \<noteq> []" for f v :: string
    using that by (metis append_eq_conv_conj append_self_conv length_append length_Cons list.size(3) numeral_2_eq_2 One_nat_def)
  have f: "w \<noteq> ''--''" if "flag_of m a f w" for a f w
    using flags_okD [OF assms(1), of f a] that by (auto simp: flag_ok_def flag_of_def shortens_def)
  show ?thesis
  proof (cases p)
    case (Bundled a f p')
    let ?v = "tl (hd (strings_of p'))"
    have ok: "piece_ok m p'" "bundles p'" "map_of m f = Some a" "length f = 2"
      using assms(2) Bundled by simp_all
    obtain c e where "hd (strings_of p') = CHR ''-'' # c # e" "c \<noteq> CHR ''=''"
      using bundle_reads [OF assms(1) ok(1,2)] by blast
    then have v: "?v \<noteq> []" "hd ?v \<noteq> CHR ''=''" by simp_all
    have "classify m (tl (strings_of p') @ ss) = Inr (arguments (tl (strings_of p')) @ cs)"
      by (rule classify_plains [OF bundle_rest_plain [OF ok(1,2)] assms(3)])
    then show ?thesis
      using classify_string [OF fv [OF ok(4) v(1)] parse_optional_attached [OF assms(1) ok(3,4) v]]
      by (simp add: Bundled arguments_def del: classify.simps(2))
  next
    case (Switch a f w)
    then have "flag_of m a f w" using assms(2) by simp
    then show ?thesis using f parse_optional_written [OF assms(1)] assms(3) Switch by simp
  next
    case (Joined a f w v)
    then have "flag_of m a f w" using assms(2) by simp
    then show ?thesis using eq parse_optional_written_joined [OF assms(1)] assms(3) Joined by simp
  next
    case (Separate a f w v)
    then have "flag_of m a f w" "plain v" using assms(2) by simp_all
    then show ?thesis using f parse_optional_written [OF assms(1)] parse_optional_plain plain_not_dashes assms(3) Separate
      by simp
  next
    case (Attached a f v)
    then show ?thesis using assms(2,3) fv parse_optional_attached [OF assms(1), of f a v] by simp
  next
    case (Target v)
    then show ?thesis using assms(2,3) parse_optional_plain plain_not_dashes by simp
  qed
qed

lemma classify_pieces:
  assumes "flags_ok m" and "list_all (piece_ok m) ps" and "classify m ss = Inr cs"
  shows "classify m (concat (map strings_of ps) @ ss) = Inr (concat (map classes ps) @ cs)"
  using assms(2)
proof (induction ps)
  case (Cons p ps)
  then have "classify m (concat (map strings_of ps) @ ss) = Inr (concat (map classes ps) @ cs)" by simp
  with classify_piece [OF assms(1) _ this, of p] Cons.prems show ?case by simp
qed (simp add: assms(3))

section \<open>The loop, string by string\<close>

text \<open>For the parser of a sub-command, which has no positional argument\<close>

lemma parse_strings_arguments:
  assumes "\<forall>c \<in> set cs. \<not> is_option c" and "\<not> ps_pending st"
  shows "parse_strings m act cs st = Inr (add_extras (map fst cs) st)"
  using assms by (simp add: parse_strings_def parse_loop_arguments consume_positionals_def)

lemma parse_strings_option:
  assumes "\<forall>c \<in> set pre. \<not> is_option c" and "\<not> ps_pending st"
  shows "parse_strings m act (pre @ (s, IsOption a f e) # rest) st =
    bind_res (consume_optional m s a f e rest (add_extras (map fst pre) st))
      (\<lambda>(cs, st'). parse_strings m act cs st')"
  using assms by (simp add: parse_strings_def parse_loop_option bind_res_assoc case_prod_unfold)

lemma parse_strings_argument:
  assumes "\<not> is_option c" and "\<not> ps_pending st"
  shows "parse_strings m act (c # cs) st = parse_strings m act cs (add_extras [fst c] st)"
proof (cases cs rule: split_options)
  case 1
  then show ?thesis using assms by (simp add: parse_strings_arguments)
next
  case (2 pre s a f e rest)
  then have "parse_strings m act ((c # pre) @ (s, IsOption a f e) # rest) st =
      bind_res (consume_optional m s a f e rest (add_extras (map fst (c # pre)) st))
        (\<lambda>(cs, st'). parse_strings m act cs st')"
    using assms by (intro parse_strings_option) auto
  moreover have "parse_strings m act (pre @ (s, IsOption a f e) # rest) (add_extras [fst c] st) =
      bind_res (consume_optional m s a f e rest (add_extras (map fst pre) (add_extras [fst c] st)))
        (\<lambda>(cs, st'). parse_strings m act cs st')"
    using assms 2 by (intro parse_strings_option) auto
  ultimately show ?thesis unfolding 2(1) by simp
qed

definition read_piece :: "piece \<Rightarrow> parse_state \<Rightarrow> parse_state" where
  "read_piece p st = st\<lparr>ps_namespace := set_piece p (ps_namespace st), ps_extras := ps_extras st @ targets_of p\<rparr>"

lemma parse_strings_piece:
  assumes "flags_ok m" and "piece_ok m p" and "\<not> ps_pending st"
  shows "parse_strings m act (classes p @ cs) st = parse_strings m act cs (read_piece p st)"
proof -
  note opt = parse_strings_option [of "[]" st m act, simplified, OF assms(3)]
  show ?thesis
  proof (cases p)
    case (Switch a f w)
    then show ?thesis using assms(2)
      by (simp add: opt consume_optional_def collect_next_def take_action_def read_piece_def)
  next
    case (Joined a f w v)
    then show ?thesis using assms(2)
      by (simp add: opt consume_optional_def collect_value take_action_value read_piece_def)
  next
    case (Separate a f w v)
    with assms(2) have "accepts a v" by simp
    then show ?thesis using take_action_value [of a v] Separate
      by (simp add: opt consume_optional_def collect_next_def read_piece_def)
  next
    case (Attached a f v)
    then show ?thesis using assms(2)
      by (simp add: opt consume_optional_def collect_value take_action_value read_piece_def)
  next
    case (Bundled a f p')
    have ok: "piece_ok m p" "bundles p" "map_of m f = Some a" "length f = 2" "piece_ok m p'" "bundles p'"
      using assms(2) Bundled by simp_all
    obtain c where f: "f = [CHR ''-'', c]" using short_flag [OF assms(1) ok(3,4)] by blast
    obtain d e where p': "hd (strings_of p') = CHR ''-'' # d # e"
      using bundle_reads [OF assms(1) ok(5,6)] by blast
    have "collect_explicit m (arguments (tl (strings_of p)) @ cs) a f (d # e) =
        Inr (acts p, length (tl (strings_of p)))"
      using bundle_reads [OF assms(1) ok(1,2)] f ok(3) p' unfolding Bundled by fastforce
    then show ?thesis
      using acts_take [OF ok(1,2)] p'
      by (simp add: Bundled opt consume_optional_def read_piece_def arguments_def)
  next
    case (Target s)
    then show ?thesis using assms(3) by (simp add: parse_strings_argument read_piece_def add_extras_def)
  qed
qed

lemma parse_strings_pieces:
  assumes "flags_ok m"
  shows "list_all (piece_ok m) ps \<Longrightarrow> \<not> ps_pending st \<Longrightarrow>
    parse_strings m act (concat (map classes ps) @ cs) st = parse_strings m act cs (fold read_piece ps st)"
  by (induction ps arbitrary: st) (simp_all add: parse_strings_piece [OF assms] read_piece_def)

lemma fold_read_piece:
  "fold read_piece ps st = st\<lparr>ps_namespace := fold set_piece ps (ps_namespace st),
     ps_extras := ps_extras st @ concat (map targets_of ps)\<rparr>"
  by (induction ps arbitrary: st) (simp_all add: read_piece_def)

section \<open>The main parser\<close>

text \<open>It knows no flag but those for help, so no string is ambiguous for it.\<close>

lemma main_options: "option_map [help_argument] = [(''-h'', help_argument), (''--help'', help_argument)]"
  by (simp add: option_map_def help_argument_def argument_def)

lemma main_option_tuples: "2 \<le> length s \<Longrightarrow> length (get_option_tuples (option_map [help_argument]) s) \<le> 1"
proof (cases "startswith s ''--''")
  case True
  then obtain r where s: "s = CHR ''-'' # CHR ''-'' # r" by (auto simp: startswith_iff)
  then have "\<not> startswith ''-h'' (before_eq s)" "\<not> startswith ''-h'' s" by (simp_all add: before_eq_def)
  then show ?thesis using True by (simp add: get_option_tuples_def main_options)
next
  case False
  assume "2 \<le> length s"
  then obtain c d r where s: "s = c # d # r" by (cases s; cases "tl s") auto
  then have "\<not> startswith ''--help'' s" "take 2 s \<noteq> ''--help''" using False by (auto simp: startswith_def)
  then show ?thesis using False by (simp add: get_option_tuples_def main_options)
qed

lemma main_optional: "\<exists>c. parse_optional (option_map [help_argument]) s = Inr c"
proof (cases "2 \<le> length s")
  case True
  have "(\<exists>a f e. get_option_tuples (option_map [help_argument]) s = [(a, f, e)]) \<or>
      get_option_tuples (option_map [help_argument]) s = []"
    using main_option_tuples [OF True]
    by (cases "get_option_tuples (option_map [help_argument]) s") (auto simp: Suc_le_eq)
  then show ?thesis by (auto simp: parse_optional_def split: option.splits)
next
  case False
  then show ?thesis by (cases s; cases "tl s") (auto simp: parse_optional_def split: option.splits)
qed

lemma main_classify: "\<exists>cs. classify (option_map [help_argument]) ss = Inr cs"
proof (induction ss)
  case (Cons s ss)
  with main_optional [of s] show ?case by auto
qed simp

text \<open>The first argument takes everything.\<close>

lemma parse_strings_first:
  assumes "keeps_strings act" and "ps_pending st"
  shows "parse_strings m act ((c, IsArgument) # cs) st = act (c # map fst cs) (st\<lparr>ps_pending := False\<rparr>)"
proof -
  let ?cs = "(c, IsArgument) # cs"
  have all: "consume_positionals act ?cs st = bind_res (act (c # map fst cs) (st\<lparr>ps_pending := False\<rparr>)) (\<lambda>st'. Inr ([], st'))"
    using assms(2) by (simp add: consume_positionals_def matches_parser_def)
  have rest: "bind_res (consume_positionals act [] st') (\<lambda>(cs2, st2). Inr (add_extras (map fst cs2) st2)) = Inr st'" for st'
    by (simp add: consume_positionals_def matches_parser_def)
  show ?thesis
  proof (cases ?cs rule: split_options)
    case 1
    show ?thesis
      unfolding parse_strings_def parse_loop_arguments [OF 1] bind_res_simps prod.case all bind_res_assoc
      by simp
  next
    case (2 pre s a f e rest)
    then have pre: "pre \<noteq> []" by (cases pre) auto
    have "matches_parser ?cs" by (simp add: matches_parser_def)
    then have "parse_loop m act ?cs st = consume_positionals act ?cs st"
      unfolding 2(1) parse_loop_option [OF 2(2)] using pre assms(2) by simp
    then show ?thesis unfolding parse_strings_def all by (simp add: bind_res_assoc rest)
  qed
qed

lemma cmd_parse_first:
  assumes "plain c"
  shows "cmd_parse (c # ss) = bind_res (sub_command (c # ss)
      \<lparr>ps_namespace = [(''command'', PNone)], ps_extras = [], ps_unrecognized = [], ps_pending = False\<rparr>)
    (\<lambda>st. Inr (ps_namespace st, ps_extras st @ ps_unrecognized st))"
proof -
  obtain cs where cs: "classify (option_map [help_argument]) ss = Inr cs" using main_classify by blast
  have "c \<noteq> ''--''" using assms by (auto simp: plain_def)
  then have c: "classify (option_map [help_argument]) (c # ss) = Inr ((c, IsArgument) # cs)"
    using parse_optional_plain [OF assms] cs by simp
  let ?st = "\<lparr>ps_namespace = [(''command'', PNone)], ps_extras = [], ps_unrecognized = [], ps_pending = True\<rparr>"
  have pend: "\<not> ps_pending st" if "sub_command (c # ss) (?st\<lparr>ps_pending := False\<rparr>) = Inr st" for st
    using sub_command_keeps that unfolding keeps_strings_def by fastforce
  have start: "fold add_default [help_argument] [(''command'', PNone)] = [(''command'', PNone)]"
    by (simp add: add_default_def help_argument_def argument_def)
  show ?thesis
    unfolding cmd_parse_def parse_known_args_def c bind_res_simps start
      parse_strings_first [OF sub_command_keeps, of ?st, simplified] classify_strings [OF cs]
    using pend by (cases "sub_command (c # ss) (?st\<lparr>ps_pending := False\<rparr>)") simp_all
qed

section \<open>The property\<close>

text \<open>The end of a line: nothing, or \<open>--\<close> and the arguments of the program to run\<close>

definition tail_ok :: "string list \<Rightarrow> bool" where
  "tail_ok tail \<longleftrightarrow> tail = [] \<or> hd tail = ''--''"

lemma classify_tail:
  "tail_ok tail \<Longrightarrow> \<exists>cs. classify m tail = Inr cs \<and> (\<forall>c \<in> set cs. \<not> is_option c) \<and> map fst cs = tail"
  by (cases tail) (auto simp: tail_ok_def o_def)

lemma sub_flags_ok: "\<forall>(command, args) \<in> set sub_parsers. flags_ok (option_map (help_argument # args)) \<and> plain command"
  by code_simp

definition sub_options :: "arg_decl list \<Rightarrow> option_map" where
  "sub_options args = option_map (help_argument # args)"

lemma parse_known_pieces:
  assumes "flags_ok (option_map args)" and "list_all (piece_ok (option_map args)) ps" and "tail_ok tail"
  shows "parse_known_args args act False (concat (map strings_of ps) @ tail) ns =
    Inr (fold set_piece ps (fold add_default args ns), concat (map targets_of ps) @ tail)"
proof -
  from classify_tail [OF assms(3)] obtain ts where ts: "classify (option_map args) tail = Inr ts"
    "\<forall>c \<in> set ts. \<not> is_option c" "map fst ts = tail" by blast
  show ?thesis
    unfolding parse_known_args_def classify_pieces [OF assms(1,2) ts(1)] bind_res_simps
    by (simp add: parse_strings_pieces [OF assms(1,2)] fold_read_piece parse_strings_arguments [OF ts(2)] ts(3))
qed

text \<open>C32: A command line says what it was written to say. The line is a sub-command with pieces in
  any order, and then nothing or \<open>--\<close> and the arguments of a program. A piece is a target or a
  setting: a switch, or an option with an acceptable value as \<open>--flag=value\<close>, \<open>--flag value\<close>
  or \<open>-fvalue\<close>; a long flag may be shortened to a beginning that no other flag of the sub-command
  has, and short switches may be bundled in front of a short flag, as in \<open>-kj4\<close>. Targets and
  separate values do not begin with \<open>-\<close>, attached values not with \<open>=\<close>. Then the parser gives back
  the values over the defaults, the last one winning, and the targets with the rest, in order.\<close>

theorem cmd_parse_roundtrip:
  assumes "(command, args) \<in> set sub_parsers" and "list_all (piece_ok (sub_options args)) ps" and "tail_ok tail"
  shows "cmd_parse (command # concat (map strings_of ps) @ tail) =
    Inr (fold set_piece ps (fold add_default (help_argument # args) [(''command'', PStr command)]),
         concat (map targets_of ps) @ tail)"
proof -
  have ok: "flags_ok (option_map (help_argument # args))" "plain command" using sub_flags_ok assms(1) by auto
  have "distinct (map fst sub_parsers)" by code_simp
  then have table: "map_of sub_parsers command = Some args" using assms(1) by simp
  show ?thesis
    unfolding cmd_parse_first [OF ok(2)] sub_command_def list.case table option.case
    by (simp add: parse_known_pieces [OF ok(1) assms(2) [unfolded sub_options_def] assms(3)])
qed

definition demo_line :: "piece list" where
  "demo_line =
     (let k = argument [''-k'', ''--keep-going''] ''keep_going'' StoreTrue (PBool False);
          j = argument [''-j'', ''--jobs''] ''jobs'' (Store IntArg) (PInt 0);
          p = argument [''-p'', ''--profile''] ''profile'' (Store StrArg) (PStr ''release'')
      in [Bundled k ''-k'' (Attached j ''-j'' ''4''), Target ''//a:b'', Joined p ''--profile'' ''--prof'' ''debug'',
          Switch k ''--keep-going'' ''--keep-going'', Separate j ''-j'' ''-j'' ''8''])"

theorem cmd_parse_roundtrip_witness:
  "cmd_parse [''build'', ''-kj4'', ''//a:b'', ''--prof=debug'', ''--keep-going'', ''-j'', ''8'', ''--'', ''x''] =
    Inr (fold set_piece demo_line (fold add_default (help_argument # add_build_arguments) [(''command'', PStr ''build'')]),
      [''//a:b'', ''--'', ''x''])"
proof -
  have 1: "(''build'', add_build_arguments) \<in> set sub_parsers" by (simp add: sub_parsers_def)
  have 2: "list_all (piece_ok (sub_options add_build_arguments)) demo_line" by code_simp
  have 3: "tail_ok [''--'', ''x'']" by (simp add: tail_ok_def)
  have 4: "concat (map strings_of demo_line) = [''-kj4'', ''//a:b'', ''--prof=debug'', ''--keep-going'', ''-j'', ''8'']"
    "concat (map targets_of demo_line) = [''//a:b'']" by code_simp+
  from cmd_parse_roundtrip [OF 1 2 3] show ?thesis unfolding 4 by simp
qed

end
