(* ===== verification/Platform.thy ===== *)
theory Platform
  imports BuildEnvironment "HOL-Library.List_Lexorder" "HOL-Library.Char_ord"
begin

text \<open>
  \<open>blade_platform.py\<close>: what the installed tools say about themselves, and the compiler flags,
  of which only those are kept that the preprocessor accepts. \<open>accepts\<close> says whether a shell
  command ends with code 0.
\<close>

section \<open>The tools\<close>

text \<open>These commands are started through a shell, which always can be started.\<close>

definition get_gcc_version :: "int \<Rightarrow> string \<Rightarrow> string res" where
  "get_gcc_version returncode out =
     (if returncode = 0
      then bind_res (first_line out) (\<lambda>version_line. nth_res (split_ws version_line) 2)
      else Inr [])"

definition get_python_include :: "int \<Rightarrow> string \<Rightarrow> string res" where
  "get_python_include returncode out =
     (if returncode = 0
      then bind_res (first_line out) (\<lambda>include_line.
           bind_res (nth_res (split_ws include_line) 0) (\<lambda>h. Inr (drop 2 h)))
      else Inr [])"

definition get_php_include :: "int \<Rightarrow> string \<Rightarrow> string list res" where
  "get_php_include returncode out =
     (if returncode = 0
      then bind_res (first_line out) (\<lambda>include_line.
           Inr (map (\<lambda>s. [quote1] @ drop 2 s @ [quote1]) (split_ws include_line)))
      else Inr [])"

definition get_java_include ::
  "(string, string) dict \<Rightarrow> int \<Rightarrow> string \<Rightarrow> string list res" where
  "get_java_include environ returncode err =
     (let java_home = dict_get environ ''JAVA_HOME'' [] in
      if java_home \<noteq> [] then Inr [java_home @ ''/include'', java_home @ ''/include/linux'']
      else if returncode = 0 then
        bind_res (first_line err) (\<lambda>version_line.
        bind_res (nth_res (split_ws version_line) 2) (\<lambda>v.
        let version = replace_str [quote2] [] v
        in Inr [''/usr/java/jdk'' @ version @ ''/include'', ''/usr/java/jdk'' @ version @ ''/include/linux'']))
      else Inr [])"

section \<open>Compiler flags\<close>

definition flag_command :: "string \<Rightarrow> string \<Rightarrow> string \<Rightarrow> string" where
  "flag_command cpp_str option flag =
     ''echo '' @ [quote2, quote2] @ '' | '' @ cpp_str @ '' '' @ option @ '' '' @ flag @ '' >/dev/null 2>&1''"

definition filter_out_invalid_flags ::
  "(string \<Rightarrow> bool) \<Rightarrow> string \<Rightarrow> string list \<Rightarrow> string \<Rightarrow> string list" where
  "filter_out_invalid_flags accepts cpp_str flag_list flag_type =
     (if flag_type \<notin> {''cpp'', ''c'', ''cxx''} then flag_list
      else
        let option = (if flag_type = ''c'' then ''-xc'' else if flag_type = ''cxx'' then ''-xc++'' else [])
        in filter (\<lambda>flag. accepts (flag_command cpp_str option flag)) flag_list)"

definition get_flags_except_warning ::
  "(string \<Rightarrow> bool) \<Rightarrow> string \<Rightarrow> string \<Rightarrow> options \<Rightarrow> string list \<times> string list" where
  "get_flags_except_warning accepts cpp_str gcc_version opts =
     (let m = ''-m'' @ shown_m opts;
          flags = [m, ''-mcx16'', ''-pipe''] @
            (if o_profile opts = ''debug'' then [''-ggdb3'', ''-fstack-protector'']
             else if o_profile opts = ''release'' then [''-g'', ''-DNDEBUG''] else []) @
            [''-D_FILE_OFFSET_BITS=64'', ''_D__STDC_CONSTANT_MACROS'', ''-D__STDC_FORMAT_MACROS'',
             ''-D__STDC_LIMIT_MACROS''] @
            (if o_gprof opts then [''-pg''] else []) @
            (if o_gcov opts then
               if gcc_version > ''4.1'' then [''--coverage''] else [''-fprofile-arcs'', ''-ftest-coverage'']
             else []);
          linkflags = [m] @ (if o_gprof opts then [''-pg''] else []) @
            (if o_gcov opts then
               if gcc_version > ''4.1'' then [''--coverage'']
               else [''-Wl,--whole-archive'', ''-lgcov'', ''-Wl,--no-whole-archive'']
             else [])
      in (filter_out_invalid_flags accepts cpp_str flags ''cpp'', linkflags))"

definition get_warning_flags ::
  "(string \<Rightarrow> bool) \<Rightarrow> string \<Rightarrow> configs \<Rightarrow> (string list \<times> string list \<times> string list) res" where
  "get_warning_flags accepts cpp_str cfg =
     bind_res (config_strs cfg ''cc_config'' ''warnings'') (\<lambda>cppflags.
     bind_res (config_strs cfg ''cc_config'' ''cxx_warnings'') (\<lambda>cxxflags.
     bind_res (config_strs cfg ''cc_config'' ''c_warnings'') (\<lambda>cflags.
     Inr (filter_out_invalid_flags accepts cpp_str cppflags ''cpp'',
          filter_out_invalid_flags accepts cpp_str cxxflags ''cxx'',
          filter_out_invalid_flags accepts cpp_str cflags ''c''))))"

section \<open>Facts\<close>

text \<open>Only accepted flags are passed on.\<close>

lemma filtered_flags_accepted:
  "f \<in> set (filter_out_invalid_flags accepts cpp_str flags t) \<Longrightarrow> t \<in> {''cpp'', ''c'', ''cxx''} \<Longrightarrow>
     \<exists>option. accepts (flag_command cpp_str option f)"
  by (auto simp: filter_out_invalid_flags_def Let_def split: if_splits)

text \<open>\<open>10.1.0\<close> is compared as a string, so it counts as older than \<open>4.1\<close>.\<close>

lemma gcc_10_counts_as_old: "\<not> ''10.1.0'' > (''4.1'' :: string)"
  by code_simp

end
