(* ===== verification/VersionFile.thy ===== *)
theory VersionFile
  imports PyPath
begin

text \<open>
  \<open>easou_version_generator.py\<close>: the version header made from a template in the source tree. The
  outputs of the commands, the clock and the host come from outside, in \<open>version_world\<close>; without a
  template (\<open>os.path.exists\<close> in \<open>rules_generator.py\<close>) nothing is written.
\<close>

record version_world =
  vw_template :: "string option"
  vw_popen :: "string \<Rightarrow> string"
  vw_time :: string
  vw_host :: string

text \<open>The first line of \<open>svn info\<close> that starts with a key; without one the assertion fails.\<close>

definition svn_field :: "version_world \<Rightarrow> string \<Rightarrow> nat \<Rightarrow> string res" where
  "svn_field w key n =
     (case find (\<lambda>f. startswith f key) (split_char CHR 0x0A (vw_popen w ''svn info'')) of
        None \<Rightarrow> Inl AssertionError
      | Some f \<Rightarrow> Inr (drop n f))"

definition get_svn_version :: "version_world \<Rightarrow> string res" where
  "get_svn_version w = svn_field w ''Revision:'' (length ''Revision:'' + 1)"

definition get_svn_url :: "version_world \<Rightarrow> string res" where
  "get_svn_url w = svn_field w ''URL: '' (length ''URL: '')"

definition gxx_version :: "version_world \<Rightarrow> string" where
  "gxx_version w = hd (split_char CHR 0x0A (vw_popen w ''g++ --version''))"

definition get_os_version :: "version_world \<Rightarrow> string" where
  "get_os_version w = hd (split_char CHR 0x0A (vw_popen w ''uname -rv''))"

text \<open>The places of the template, replaced one after the other\<close>

definition fill_template :: "(string \<times> string) list \<Rightarrow> string \<Rightarrow> string" where
  "fill_template subs content = fold (\<lambda>(place, val). replace_str place val) subs content"

definition gen_easou_format_version_file :: "version_world \<Rightarrow> string \<Rightarrow> string option res" where
  "gen_easou_format_version_file w build_strategy =
     (case vw_template w of
        None \<Rightarrow> Inr None
      | Some content \<Rightarrow>
          bind_res (get_svn_version w) (\<lambda>svn_version.
          bind_res (get_svn_url w) (\<lambda>svn_url.
          Inr (Some (fill_template
            [(''BIN_VERSION_TEMPLATE'', ''1.3.'' @ svn_version),
             (''SVN_VERSION_TEMPLATE'', svn_version),
             (''SVN_URL_TEMPLATE'', svn_url),
             (''GCC_VERSION_TEMPLATE'', gxx_version w),
             (''OS_VERSION_TEMPLATE'', get_os_version w),
             (''BUILD_TIME_TEMPLATE'', vw_time w),
             (''BUILD_HOST_TEMPLATE'', vw_host w),
             (''BUILD_STRATEGY_TEMPLATE'', build_strategy)] content)))))"

section \<open>Facts\<close>

lemma svn_field_Inr:
  "svn_field w key n = Inr v \<Longrightarrow>
     \<exists>f \<in> set (split_char CHR 0x0A (vw_popen w ''svn info'')). startswith f key \<and> v = drop n f"
  by (auto simp: svn_field_def find_Some_iff split: option.splits)

text \<open>A text without places stays as it is, and a project outside Subversion cannot be built.\<close>

lemma fill_template_unused:
  "\<forall>(place, val) \<in> set subs. \<not> has_sub place content \<Longrightarrow> fill_template subs content = content"
  unfolding fill_template_def
  by (induction subs) (auto simp: replace_str_def split_str_no_sep)

lemma version_file_needs_svn:
  assumes "vw_template w = Some content" and "vw_popen w ''svn info'' = []"
  shows "gen_easou_format_version_file w build_strategy = Inl AssertionError"
  using assms by (simp add: gen_easou_format_version_file_def get_svn_version_def svn_field_def startswith_def)

end
