(* ===== verification/RulesHeader.thy ===== *)
theory RulesHeader
  imports Platform CcTargets VersionFile
begin

text \<open>
  \<open>rules_generator.py\<close>: the head of the generated script, in the order the code appends it, and
  the version file written on the way. Each function returns the rules it adds to \<open>rules_buf\<close>.
  The clock, the host, Subversion and the compiler come from outside, in \<open>header_world\<close>; the
  in-house version header, written first when its template is there, is that of \<open>VersionFile\<close>.
\<close>

record header_world =
  hw_time :: string
  hw_host :: string
  hw_environ :: "(string, string) dict"
  hw_has_svn :: "string \<Rightarrow> bool"
  hw_svn_info :: "string \<Rightarrow> int \<times> string"
  hw_accepts :: "string \<Rightarrow> bool"
  hw_expanduser :: "string \<Rightarrow> string"
  hw_color :: bool
  hw_gcc_version :: string
  hw_python_inc :: string
  hw_version :: version_world

definition rule_line :: "string \<Rightarrow> string" where
  "rule_line rule = rule @ newline"

text \<open>A text of several lines\<close>

definition text_lines :: "string list \<Rightarrow> string" where
  "text_lines ls = concat (map (\<lambda>l. l @ newline) ls)"

text \<open>\<open>'%s' % v\<close>\<close>

definition shown_val :: "pyval \<Rightarrow> string" where
  "shown_val v = (case v of PStr s \<Rightarrow> s | _ \<Rightarrow> repr_val v)"

definition config_shown :: "configs \<Rightarrow> string \<Rightarrow> string \<Rightarrow> string res" where
  "config_shown cfg sec item = bind_res (config_item cfg sec item) (\<lambda>v. Inr (shown_val v))"

definition incs_list_to_string :: "string list \<Rightarrow> string" where
  "incs_list_to_string incs = join_str '' '' (map (\<lambda>p. ''-I '' @ p) incs)"

definition append_prefix :: "string \<Rightarrow> string \<Rightarrow> bool \<Rightarrow> string" where
  "append_prefix pre building_var condition =
     (if condition then pre @ '' '' @ building_var else building_var)"

section \<open>Imports and messages\<close>

definition import_lines :: "string list" where
  "import_lines =
     [''import os'',
      ''import subprocess'',
      ''import signal'',
      ''import time'',
      ''import socket'',
      ''import glob'',
      [],
      ''import blade_util'',
      ''import console'',
      ''import scons_helper'',
      [],
      ''from build_environment import ScacheManager'',
      ''from console import colors'',
      ''from scons_helper import MakeAction'',
      ''from scons_helper import create_fast_link_builders'',
      ''from scons_helper import echospawn'',
      ''from scons_helper import error_colorize'',
      ''from scons_helper import generate_python_binary'',
      ''from scons_helper import generate_resource_file'',
      ''from scons_helper import generate_resource_header'']"

definition generate_imports_functions :: "string \<Rightarrow> options \<Rightarrow> string \<Rightarrow> string list" where
  "generate_imports_functions blade_path opts build_dir =
     [rule_line (newline @ text_lines [''import sys'', ''sys.path.insert(0, '' @ sq blade_path @ '')'']),
      rule_line (newline @ text_lines import_lines)] @
     (if o_verbose opts then [rule_line ''scons_helper.option_verbose = True''] else []) @
     [rule_line (''if not os.path.exists('' @ sq build_dir @ ''):'' @ newline @
        ''    os.mkdir('' @ sq build_dir @ '')'')]"

definition generate_top_level_env :: "string list" where
  "generate_top_level_env =
     [rule_line (''os.environ['' @ dq ''LC_ALL'' @ ''] = '' @ dq ''C''),
      rule_line ''top_env = Environment(ENV=os.environ)'']"

text \<open>
  The messages: name, what is done, source or target, to what, and the colour. In the script
  each is one line: the backslashes that end the lines of the code are inside the string.
\<close>

definition message_table :: "(string \<times> string \<times> string \<times> string \<times> string) list" where
  "message_table =
     [(''compile_proto_cc'', ''Compiling '', ''SOURCE'', '' to cc source'', ''cyan''),
      (''compile_proto_java'', ''Compiling '', ''SOURCE'', '' to java source'', ''cyan''),
      (''compile_proto_php'', ''Compiling '', ''SOURCE'', '' to php source'', ''cyan''),
      (''compile_proto_python'', ''Compiling '', ''SOURCE'', '' to python source'', ''cyan''),
      (''compile_thrift_cc'', ''Compiling '', ''SOURCE'', '' to cc source'', ''cyan''),
      (''compile_thrift_java'', ''Compiling '', ''SOURCE'', '' to java source'', ''cyan''),
      (''compile_thrift_python'', ''Compiling '', ''SOURCE'', '' to python source'', ''cyan''),
      (''compile_resource_header'', ''Generating resource header '', ''TARGET'', '''', ''cyan''),
      (''compile_resource'', ''Compiling '', ''SOURCE'', '' as resource file'', ''cyan''),
      (''compile_source'', ''Compiling '', ''SOURCE'', '''', ''cyan''),
      (''assembling_source'', ''Assembling '', ''SOURCE'', '''', ''cyan''),
      (''link_program'', ''Linking Program '', ''TARGET'', '''', ''green''),
      (''link_library'', ''Creating Static Library '', ''TARGET'', '''', ''green''),
      (''ranlib_library'', ''Ranlib Library '', ''TARGET'', '''', ''green''),
      (''link_shared_library'', ''Linking Shared Library '', ''TARGET'', '''', ''green''),
      (''compile_java_jar'', ''Generating java jar '', ''TARGET'', '''', ''cyan''),
      (''compile_python_binary'', ''Generating python binary '', ''TARGET'', '''', ''cyan''),
      (''compile_yacc'', ''Yacc '', ''SOURCE'', '' to $TARGET'', ''cyan''),
      (''compile_swig_python'', ''Compiling '', ''SOURCE'', '' to python source'', ''cyan''),
      (''compile_swig_java'', ''Compiling '', ''SOURCE'', '' to java source'', ''cyan''),
      (''compile_swig_php'', ''Compiling '', ''SOURCE'', '' to php source'', ''cyan'')]"

definition message_line :: "string \<times> string \<times> string \<times> string \<times> string \<Rightarrow> string" where
  "message_line m =
     (case m of (name, verb, var, to, color) \<Rightarrow>
      name @ ''_message = '' @ sq (''%s'' @ verb @ ''%s$'' @ var @ ''%s'' @ to @ ''%s'') @ '' %     (colors('' @
        sq color @ ''), colors('' @ sq ''purple'' @ ''), colors('' @ sq color @ ''), colors('' @ sq ''end'' @ ''))'')"

definition message_sep :: "string \<Rightarrow> string" where
  "message_sep name =
     (if name = ''ranlib_library'' then '' '' @ newline
      else if name = ''compile_swig_php'' then newline
      else newline @ newline)"

definition comstr_lines :: "string list" where
  "comstr_lines =
     [''top_env.Append('',
      ''    CXXCOMSTR = compile_source_message,'',
      ''    CCCOMSTR = compile_source_message,'',
      ''    ASCOMSTR = assembling_source_message,'',
      ''    SHCCCOMSTR = compile_source_message,'',
      ''    SHCXXCOMSTR = compile_source_message,'',
      ''    ARCOMSTR = link_library_message,'',
      ''    RANLIBCOMSTR = ranlib_library_message,'',
      ''    SHLINKCOMSTR = link_shared_library_message,'',
      ''    LINKCOMSTR = link_program_message,'',
      ''    JAVACCOMSTR = compile_source_message'',
      '')'' @ [quote2] @ [quote2] @ [quote2] @ '')'']"

definition generate_compliation_verbose :: "bool \<Rightarrow> options \<Rightarrow> string list" where
  "generate_compliation_verbose color_enabled opts =
     [rule_line (''top_env.Decider('' @ dq ''MD5-timestamp'' @ '')''),
      rule_line (''console.color_enabled='' @ (if color_enabled then ''True'' else ''False''))] @
     (if \<not> o_verbose opts
      then [rule_line (''top_env['' @ dq ''SPAWN'' @ ''] = echospawn'')] else []) @
     [rule_line (newline @ concat (map (\<lambda>m. message_line m @ message_sep (fst m)) message_table))] @
     (if \<not> o_verbose opts then [rule_line (newline @ join_str newline comstr_lines)] else [])"

section \<open>The version file\<close>

text \<open>\<open>_get_version_info\<close>: the roots under version control, with what \<open>svn info\<close> says\<close>

definition svn_root_info ::
  "header_world \<Rightarrow> string \<Rightarrow> (string, string) dict \<times> msg list \<Rightarrow> (string, string) dict \<times> msg list" where
  "svn_root_info w root_dir st =
     (case st of (infos, ms) \<Rightarrow>
      if \<not> hw_has_svn w root_dir
      then (infos, ms @ [Warning (dq root_dir @ '' is not under version control'')])
      else case hw_svn_info w root_dir of (returncode, out) \<Rightarrow>
        if returncode \<noteq> 0
        then (infos, ms @ [Warning (''failed to get version control info in '' @ root_dir)])
        else (dict_set root_dir (replace_str newline ([backslash] @ ''n'' @ [backslash] @ newline) out) infos, ms))"

definition get_version_info :: "header_world \<Rightarrow> string list \<Rightarrow> (string, string) dict \<times> msg list" where
  "get_version_info w svn_roots = fold (svn_root_info w) svn_roots ([], [])"

definition version_cpp :: "header_world \<Rightarrow> options \<Rightarrow> (string, string) dict \<Rightarrow> string" where
  "version_cpp w opts infos =
     (let n = dec_nat (length infos) in
      text_lines
        [''/* This file was generated by blade */'',
         ''extern '' @ dq ''C'' @ '' {'', ''namespace binary_version {'',
         ''extern const int kSvnInfoCount = '' @ n @ '';'',
         ''extern const char* const kSvnInfo['' @ n @ ''] = {'' @ join_str '','' (map (\<lambda>kv. dq (snd kv)) infos) @ ''};'',
         ''extern const char kBuildType[] = '' @ dq (o_profile opts) @ '';'',
         ''extern const char kBuildTime[] = '' @ dq (hw_time w) @ '';'',
         ''extern const char kBuilderName[] = '' @ dq (dict_get (hw_environ w) ''USER'' ''None'') @ '';'',
         ''extern const char kHostName[] = '' @ dq (hw_host w) @ '';'',
         ''extern const char kCompiler[] = '' @ dq (''GCC '' @ hw_gcc_version w) @ '';'',
         ''}}''])"

text \<open>The rules, the version file, and the in-house version header when there is one\<close>

definition generate_version_file ::
  "header_world \<Rightarrow> options \<Rightarrow> string \<Rightarrow> string list \<Rightarrow>
   (string list \<times> (string \<times> string option) \<times> msg list) res" where
  "generate_version_file w opts build_dir svn_roots =
     bind_res (gen_easou_format_version_file (hw_version w) (o_profile opts)) (\<lambda>version_h.
     case get_version_info w svn_roots of (infos, ms) \<Rightarrow>
     Inr ([rule_line (''VariantDir('' @ dq build_dir @ '', '' @ dq ''.'' @ '', duplicate=0)''),
        rule_line (newline @ text_lines
          [''env_version = Environment(ENV = os.environ)'',
           ''env_version.Append(SHCXXCOMSTR = '' @ sq (''%sUpdating version information%s'') @
             '' % (colors('' @ sq ''cyan'' @ ''), colors('' @ sq ''end'' @ '')))'',
           ''env_version.Append(CPPFLAGS = '' @ sq (''-m'' @ shown_m opts) @ '')'',
           ''version_obj = env_version.SharedObject('' @ sq (build_dir @ ''/version.cpp'') @ '')''])],
       (version_cpp w opts infos, version_h), ms))"

section \<open>Builders\<close>

definition generate_fast_link_builders :: "build_environment \<Rightarrow> configs \<Rightarrow> string list res" where
  "generate_fast_link_builders env cfg =
     bind_res (config_item cfg ''link_config'' ''enable_dccc'') (\<lambda>enable_dccc.
     bind_res (config_item cfg ''link_config'' ''link_on_tmp'') (\<lambda>link_on_tmp.
     Inr (if truthy link_on_tmp \<and> (\<not> truthy enable_dccc \<or> \<not> be_dccc_prepared env)
          then [rule_line ''create_fast_link_builders(top_env)''] else [])))"

definition builder_rule :: "string \<Rightarrow> string \<Rightarrow> string \<Rightarrow> string" where
  "builder_rule name command message =
     rule_line (name @ ''_bld = Builder(action = MakeAction('' @ dq command @ '', '' @ message @ ''))'')"

definition thrift_command :: "string \<Rightarrow> string \<Rightarrow> string" where
  "thrift_command build_dir thrift_bin =
     (if startswith thrift_bin ''//''
      then replace_str '':'' ''/'' (replace_str ''//'' (build_dir @ ''/'') thrift_bin)
      else thrift_bin)"

definition jar_builder_lines :: "string list" where
  "jar_builder_lines =
     [''blade_jar_bld = Builder(action = MakeAction('' @ [quote1] @ ''jar cf $TARGET -C `dirname $SOURCE` .'' @ [quote1] @ '','',
      ''    compile_java_jar_message))'',
      [],
      ''yacc_bld = Builder(action = MakeAction('' @ [quote1] @ ''bison $YACCFLAGS -d -o $TARGET $SOURCE'' @ [quote1] @ '','',
      ''    compile_yacc_message))'',
      [],
      ''resource_header_bld = Builder(action = MakeAction(generate_resource_header,'',
      ''    compile_resource_header_message))'',
      [],
      ''resource_file_bld = Builder(action = MakeAction(generate_resource_file,'',
      ''    compile_resource_message))'',
      [],
      ''python_binary_bld = Builder(action = MakeAction(generate_python_binary,'',
      ''    compile_python_binary_message))'']"

definition builder_table :: "(string \<times> string) list" where
  "builder_table =
     [(''Proto'', ''proto_bld''), (''ProtoJava'', ''proto_java_bld''), (''ProtoPhp'', ''proto_php_bld''),
      (''ProtoPython'', ''proto_python_bld''), (''Thrift'', ''thrift_bld''), (''ThriftJava'', ''thrift_java_bld''),
      (''ThriftPython'', ''thrift_python_bld''), (''BladeJar'', ''blade_jar_bld''), (''Yacc'', ''yacc_bld''),
      (''ResourceHeader'', ''resource_header_bld''), (''ResourceFile'', ''resource_file_bld''),
      (''PythonBinary'', ''python_binary_bld'')]"

definition proto_builders :: "string \<Rightarrow> configs \<Rightarrow> string list res" where
  "proto_builders d cfg =
     bind_res (config_shown cfg ''proto_library_config'' ''protoc'') (\<lambda>protoc.
     bind_res (config_shown cfg ''proto_library_config'' ''protobuf_path'') (\<lambda>path.
     bind_res (config_strs cfg ''proto_library_config'' ''protobuf_incs'') (\<lambda>incs0.
     bind_res (config_shown cfg ''proto_library_config'' ''protobuf_php_path'') (\<lambda>php_path.
     bind_res (config_shown cfg ''proto_library_config'' ''protoc_php_plugin'') (\<lambda>plugin.
     let incs = incs_list_to_string incs0
     in Inr
       [builder_rule ''proto''
          (protoc @ '' --proto_path=. -I. '' @ incs @ '' -I=`dirname $SOURCE` --cpp_out='' @ d @ '' $SOURCE'')
          ''compile_proto_cc_message'',
        builder_rule ''proto_java''
          (protoc @ '' --proto_path=. --proto_path='' @ path @ '' --java_out='' @ d @ ''/`dirname $SOURCE` $SOURCE'')
          ''compile_proto_java_message'',
        builder_rule ''proto_php''
          (protoc @ '' --proto_path=. --plugin=protoc-gen-php='' @ plugin @ '' -I. '' @ incs @ '' -I'' @ php_path @
           '' -I=`dirname $SOURCE` --php_out='' @ d @ ''/`dirname $SOURCE` $SOURCE'')
          ''compile_proto_php_message'',
        builder_rule ''proto_python''
          (protoc @ '' --proto_path=. -I. '' @ incs @ '' -I=`dirname $SOURCE` --python_out='' @ d @ '' $SOURCE'')
          ''compile_proto_python_message''])))))"

definition thrift_builders :: "string \<Rightarrow> configs \<Rightarrow> string list res" where
  "thrift_builders d cfg =
     bind_res (config_strs cfg ''thrift_config'' ''thrift_incs'') (\<lambda>incs0.
     bind_res (config_item cfg ''thrift_config'' ''thrift'') (\<lambda>bin.
     case bin of
       PStr thrift_bin \<Rightarrow>
         (let incs = incs_list_to_string incs0;
              t = thrift_command d thrift_bin;
              out = '' -I . '' @ incs @ '' -I `dirname $SOURCE` -out '' @ d @ ''/`dirname $SOURCE` $SOURCE''
          in Inr
            [builder_rule ''thrift'' (t @ '' --gen cpp:include_prefix'' @ out) ''compile_thrift_cc_message'',
             builder_rule ''thrift_java'' (t @ '' --gen java'' @ out) ''compile_thrift_java_message'',
             builder_rule ''thrift_python'' (t @ '' --gen py'' @ out) ''compile_thrift_python_message''])
     | _ \<Rightarrow> Inl AttributeError))"

definition generate_builders ::
  "header_world \<Rightarrow> build_environment \<Rightarrow> string \<Rightarrow> configs \<Rightarrow> string list res" where
  "generate_builders w env build_dir cfg =
     bind_res (generate_fast_link_builders env cfg) (\<lambda>fast.
     bind_res (proto_builders build_dir cfg) (\<lambda>proto.
     bind_res (thrift_builders build_dir cfg) (\<lambda>thrift.
     Inr (fast @ [rule_line (''time_value = Value('' @ dq (hw_time w) @ '')'')] @ proto @ thrift @
          [rule_line (newline @ text_lines jar_builder_lines)] @
          map (\<lambda>(name, var). rule_line (''top_env.Append(BUILDERS = {'' @ dq name @ '' : '' @ var @ ''})''))
            builder_table))))"

section \<open>Flags and cache\<close>

text \<open>\<open>_setup_cache\<close>: only the commands that build have the options of the cache.\<close>

definition has_cache_options :: "options \<Rightarrow> bool" where
  "has_cache_options opts \<longleftrightarrow> o_command opts \<in> {''build'', ''run'', ''test''}"

definition cache_rules :: "string \<Rightarrow> string \<Rightarrow> string list" where
  "cache_rules cache_dir cache_size =
     [rule_line (''CacheDir('' @ dq cache_dir @ '')''),
      rule_line (''scache_manager = ScacheManager('' @ dq cache_dir @ '', cache_limit='' @ cache_size @ '')''),
      rule_line ''Progress(scache_manager, interval=100)'',
      rule_line (''console.info('' @ dq (''using cache directory '' @ cache_dir) @ '')''),
      rule_line (''console.info('' @ dq (''scache size '' @ cache_size) @ '')'')]"

definition setup_cache ::
  "header_world \<Rightarrow> options \<Rightarrow> build_environment \<Rightarrow> (string list \<times> build_environment \<times> msg list) res" where
  "setup_cache w opts env =
     (if be_ccache env then Inr ([], setup_ccache_env env, [])
      else
        let default_dir = hw_expanduser w ''~/.bladescache'' in
        if has_cache_options opts then
          (case o_cache_dir opts of
             None \<Rightarrow> Inr ([], env, [])
           | Some dir \<Rightarrow>
               if dir = [] then Inr ([], env, [])
               else (case o_cache_size opts of
                       PInt n \<Rightarrow> Inr (cache_rules dir
                         (dec_int (if n \<noteq> -1 then n else 4 * 1024 * 1024 * 1024)), env, [])
                     | _ \<Rightarrow> Inl TypeError))
        else Inr (cache_rules default_dir (dec_int (4 * 1024 * 1024 * 1024)), env,
                  [Info (''using default cache dir: '' @ default_dir)]))"

definition env_list :: "string list" where
  "env_list = [''env_with_error'', ''env_no_warning'']"

definition setup_warnings :: "header_world \<Rightarrow> string \<Rightarrow> configs \<Rightarrow> string list res" where
  "setup_warnings w cpp_str cfg =
     bind_res (get_warning_flags (hw_accepts w) cpp_str cfg) (\<lambda>(warnings, cxx_warnings, c_warnings).
     Inr (map (\<lambda>env. rule_line (env @ '' = top_env.Clone()'')) env_list @
       [rule_line (''env_with_error.Append(CPPFLAGS='' @ repr_strs warnings @ '', CFLAGS='' @ repr_strs c_warnings @
          '', CXXFLAGS='' @ repr_strs cxx_warnings @ '')'')]))"

definition toolchain_dir :: "(string, string) dict \<Rightarrow> string" where
  "toolchain_dir environ =
     (let d = dict_get environ ''TOOLCHAIN_DIR'' [] in
      if d \<noteq> [] \<and> \<not> endswith d ''/'' then d @ ''/'' else d)"

definition generate_compliation_flags ::
  "header_world \<Rightarrow> options \<Rightarrow> build_environment \<Rightarrow> string \<Rightarrow> configs \<Rightarrow> (string list \<times> build_environment \<times> msg list) res" where
  "generate_compliation_flags w opts env build_dir cfg =
     (let tool = (\<lambda>var dflt. toolchain_dir (hw_environ w) @ dict_get (hw_environ w) var dflt);
          cpp_str = tool ''CPP'' ''cpp''; cc0 = tool ''CC'' ''gcc''; cxx0 = tool ''CXX'' ''g++''; ld0 = tool ''LD'' ''g++'';
          ms = [Info (''CPP='' @ cpp_str), Info (''CC='' @ cc0), Info (''CXX='' @ cxx0), Info (''LD='' @ ld0)];
          enabled = truthy (dict_get (dict_get cfg ''distcc_config'' []) ''enabled'' (PBool False));
          dccc_enabled = truthy (dict_get (dict_get cfg ''link_config'' []) ''enable_dccc'' (PBool False));
          with_distcc = enabled \<and> be_distcc_prepared env;
          with_ccache = be_ccache env;
          cc = append_prefix ''ccache'' (append_prefix ''distcc'' cc0 with_distcc) with_ccache;
          cxx = append_prefix ''ccache'' (append_prefix ''distcc'' cxx0 with_distcc) with_ccache;
          ld = append_prefix ''dccc'' ld0 (dccc_enabled \<and> be_dccc_prepared env);
          (flags, linkflags) = get_flags_except_warning (hw_accepts w) cpp_str (hw_gcc_version w) opts
      in bind_res (config_strs cfg ''cc_config'' ''extra_incs'') (\<lambda>extra_incs.
         bind_res (config_strs cfg ''cc_config'' ''cppflags'') (\<lambda>cppflags.
         bind_res (config_item cfg ''cc_config'' ''cflags'') (\<lambda>cflags.
         bind_res (config_item cfg ''cc_config'' ''cxxflags'') (\<lambda>cxxflags.
         let extra = (if extra_incs = [] then [quote2, quote2] else join_str '', '' (map dq extra_incs));
             replace_rule = rule_line (''top_env.Replace(CC='' @ dq cc @ '', CXX='' @ dq cxx @ '', CPPPATH=['' @ extra @
               '', '' @ dq build_dir @ '', '' @ dq (hw_python_inc w) @ ''], CPPFLAGS='' @ repr_strs (cppflags @ flags) @
               '', CFLAGS='' @ shown_val cflags @ '', CXXFLAGS='' @ shown_val cxxflags @ '', LINK='' @ dq ld @
               '', LINKFLAGS='' @ repr_strs linkflags @ '')'')
         in bind_res (setup_cache w opts env) (\<lambda>(cache, env1, ms1).
            let env2 = (if with_distcc then setup_distcc_env env1 else env1)
            in bind_res (setup_warnings w cpp_str cfg) (\<lambda>warns.
               Inr ([replace_rule] @ cache @ map rule_line (be_rules env2) @ warns, env2, ms @ ms1))))))))"

section \<open>The whole head\<close>

definition header_generate ::
  "header_world \<Rightarrow> string \<Rightarrow> options \<Rightarrow> build_environment \<Rightarrow> string \<Rightarrow> string list \<Rightarrow> configs \<Rightarrow>
   (string list \<times> (string \<times> string option) \<times> msg list) res" where
  "header_generate w blade_path opts env build_dir svn_roots cfg =
     bind_res (generate_version_file w opts build_dir svn_roots) (\<lambda>(version, cpp, ms1).
      bind_res (generate_builders w env build_dir cfg) (\<lambda>builders.
      bind_res (generate_compliation_flags w opts env build_dir cfg) (\<lambda>(flags, env', ms2).
      Inr (generate_imports_functions blade_path opts build_dir @ generate_top_level_env @
           generate_compliation_verbose (hw_color w) opts @ version @ builders @ flags, cpp, ms1 @ ms2))))"

end
