(* ===== verification/BladeMain.thy ===== *)
theory BladeMain
  imports BladeManager RulesHeader ArgParse TestRunner
begin

text \<open>
  \<open>blade_main.py\<close>: one run of the program, from the command line to the exit code. What is done
  before the command's own action is the function \<open>prepare\<close>; the actions start processes and
  may wait for ever, so they are the relation \<open>action\<close>. \<open>main_world\<close> is what \<open>prepare\<close> finds
  outside, \<open>run_world\<close> what the actions find there.
\<close>

section \<open>Checking the style of changed files\<close>

record main_world =
  mw_cmd :: cmd_world
  mw_wd :: string
  mw_files :: world
  mw_header :: header_world
  mw_base :: ctx
  mw_exists :: "string \<Rightarrow> bool"
  mw_isfile :: "string \<Rightarrow> bool"
  mw_configs :: "string \<rightharpoonup> config_script"
  mw_argv0 :: string
  mw_rc_file :: string
  mw_popen :: "string \<Rightarrow> string \<Rightarrow> string"
  mw_system :: "string \<Rightarrow> int option"
  mw_lock_error :: "int option"
  mw_ccache :: tool
  mw_distcc :: tool
  mw_cpus :: int

definition is_svn_client :: "main_world \<Rightarrow> string \<Rightarrow> bool" where
  "is_svn_client w blade_root_dir = mw_exists w (path_join blade_root_dir ''.svn'')"

definition strip_dots :: "string \<Rightarrow> string" where
  "strip_dots t = (if endswith t ''...'' then drop_last 3 t else t)"

definition is_git_client :: "main_world \<Rightarrow> string \<Rightarrow> string \<Rightarrow> string \<Rightarrow> (string \<times> string) option" where
  "is_git_client w blade_root_dir target0 working_dir =
     (let target = strip_dots target0 in
      if mw_exists w (path_join blade_root_dir ''.git'') then Some (blade_root_dir, target)
      else
        let root_dirs = split_char slash (normpath blade_root_dir);
            dirs = split_char slash (normpath (path_join working_dir target))
        in map_option (\<lambda>i. (join_str [slash] (take i dirs), join_str [slash] (drop i dirs)))
             (find (\<lambda>i. mw_exists w (path_join (join_str [slash] (take i dirs)) ''.git''))
               [length root_dirs..<Suc (length dirs)]))"

definition normalize_target_path :: "string \<Rightarrow> string" where
  "normalize_target_path target0 =
     (let target = strip_dots target0;
          target' = (if CHR '':'' \<in> set target then drop 1 (dropWhile (\<lambda>c. c \<noteq> CHR '':'') target) else target)
      in if target' \<noteq> [] \<and> \<not> endswith target' [slash] then target' @ [slash] else target')"

text \<open>The lines of a status report: the changed source files\<close>

definition changed_file :: "string \<Rightarrow> string option" where
  "changed_file f0 =
     (let seg = split_char CHR '' '' (strip_ws f0); f = last seg in
      if hd seg \<noteq> ''M'' \<and> hd seg \<noteq> ''A'' then None
      else if endswith f ''.h'' \<or> endswith f ''.hpp'' \<or> endswith f ''.cc'' \<or> endswith f ''.cpp'' then Some f
      else None)"

record opened =
  op_check_dir :: "string list"
  op_files :: "string list"
  op_cwd :: string
  op_console :: "msg list"

definition add_changed :: "string list \<Rightarrow> opened \<Rightarrow> opened" where
  "add_changed output st =
     st\<lparr>op_files := add_all_new (map (path_join (op_cwd st)) (List.map_filter changed_file output)) (op_files st)\<rparr>"

text \<open>
  One round of the loop of \<open>_get_opened_files\<close>; \<open>None\<close> is the early \<open>return\<close>. A directory is
  changed to when the sources are under git, and stays changed.
\<close>

definition open_target :: "main_world \<Rightarrow> string \<Rightarrow> string \<Rightarrow> string \<Rightarrow> opened \<Rightarrow> opened option" where
  "open_target w blade_root_dir working_dir target0 st =
     (let target = normalize_target_path target0; d = dirname target in
      if d \<in> set (op_check_dir st) then None
      else
        let st1 = st\<lparr>op_check_dir := op_check_dir st @ [d]\<rparr> in
        Some
          (if is_svn_client w blade_root_dir then
             let full_target = normpath (path_join working_dir d);
                 top_dir = drop (length blade_root_dir + 1) full_target
             in add_changed (split_char CHR 0x0A (mw_popen w (op_cwd st1) (''svn st '' @ top_dir))) st1
           else
             case is_git_client w blade_root_dir target working_dir of
               Some (git_root, git_subdir) \<Rightarrow>
                 add_changed (split_char CHR 0x0A
                     (mw_popen w git_root (''git status --porcelain '' @ git_subdir)))
                   (st1\<lparr>op_cwd := git_root\<rparr>)
             | None \<Rightarrow>
                 add_changed [] (st1\<lparr>op_console := op_console st1 @
                   [Warning ''unknown source client type, NOT svn OR git'']\<rparr>)))"

fun open_targets :: "main_world \<Rightarrow> string \<Rightarrow> string \<Rightarrow> string list \<Rightarrow> opened \<Rightarrow> string list option \<times> msg list" where
  "open_targets w root wd [] st = (Some (op_files st), op_console st)"
| "open_targets w root wd (t # ts) st =
     (case open_target w root wd t st of
        None \<Rightarrow> (None, op_console st)
      | Some st' \<Rightarrow> open_targets w root wd ts st')"

definition get_opened_files ::
  "main_world \<Rightarrow> string list \<Rightarrow> string \<Rightarrow> string \<Rightarrow> string list option \<times> msg list" where
  "get_opened_files w targets blade_root_dir working_dir =
     open_targets w (normpath blade_root_dir) working_dir targets
       \<lparr>op_check_dir = [], op_files = [], op_cwd = blade_root_dir, op_console = []\<rparr>"

text \<open>The program that checks the style ends with a code, or the user interrupts it.\<close>

definition style_message :: "string \<Rightarrow> string" where
  "style_message cpplint =
     ''Can'' @ [quote1] @ ''t execute '' @ sq cpplint @ '' to check style, you can config the '' @
     sq ''cpplint'' @ '' option to be a valid cpplint path in the '' @ sq ''cc_config'' @
     '' section of blade.conf or BLADE_ROOT, or make sure '' @ sq cpplint @ '' command is correct.''"

definition check_code_style ::
  "main_world \<Rightarrow> configs \<Rightarrow> string list option \<Rightarrow> (int \<times> msg list) res" where
  "check_code_style w cfg opened_files =
     (case opened_files of
        None \<Rightarrow> Inr (0, [])
      | Some [] \<Rightarrow> Inr (0, [])
      | Some files \<Rightarrow>
          bind_res (config_shown cfg ''cc_config'' ''cpplint'') (\<lambda>cpplint.
          let begin_msg = Info ''Begin to check code style for changed source code'' in
          Inr (case mw_system w (cpplint @ '' '' @ join_str '' '' files) of
                 None \<Rightarrow> (1, [begin_msg, Error []])
               | Some returncode \<Rightarrow>
                   (0, begin_msg #
                     (if returncode = 0 then []
                      else if returncode = 127 then [Warning (style_message cpplint)]
                      else [Warning ''Please fixing style warnings before submitting the code!''])))))"

section \<open>Everything before the action\<close>

text \<open>What \<open>_main\<close> has in hand when it comes to the action of the command\<close>

record prepared =
  pr_blade :: blade
  pr_script :: "string list"
  pr_version_files :: "string \<times> string option"
  pr_environment :: build_environment
  pr_query_targets :: "string list"
  pr_run_target :: "string option"
  pr_console :: "msg list"

definition generate_scons_script ::
  "main_world \<Rightarrow> build_environment \<Rightarrow> blade \<Rightarrow> (blade \<times> string list \<times> (string \<times> string option)) res" where
  "generate_scons_script w env b =
     bind_res (header_generate (mw_header w) (b_blade_path b) (b_options b) env (b_build_path b)
       (b_svn_roots b) (b_config b)) (\<lambda>(header, cpp, ms).
     bind_res (gen_targets_rules (mw_base w) b) (\<lambda>(b', rules).
     Inr (b'\<lparr>b_console := b_console b' @ ms\<rparr>, header @ rules, cpp)))"

definition blade_generate ::
  "main_world \<Rightarrow> (tkey list \<Rightarrow> nat) \<Rightarrow> (tkey list \<Rightarrow> tkey list) \<Rightarrow> build_environment \<Rightarrow> blade \<Rightarrow>
   (blade \<times> string list \<times> (string \<times> string option)) res" where
  "blade_generate w pick enum env b =
     bind_res (blade_load_targets (mw_files w) pick b) (\<lambda>b1.
     bind_res (analyze_targets enum b1) (\<lambda>b2.
     bind_res (generate_scons_script w env (info ''generating build rules...'' b2)) (\<lambda>(b3, script, cpp).
     Inr (info ''generating done.'' b3, script, cpp))))"

definition lock_check :: "main_world \<Rightarrow> unit res" where
  "lock_check w =
     (case lock_file (\<lambda>_. mw_lock_error w) (or lock_ex lock_nb) of
        (locked_scons, ret_code) \<Rightarrow>
          if locked_scons then Inr ()
          else if ret_code = 11 then error_exit (''There is already an active building in current source dir tree. '' @
            ''Blade will exit...'')
          else error_exit ''Lock exception, please try it later.'')"

definition building_path :: "configs \<Rightarrow> options \<Rightarrow> string res" where
  "building_path cfg opts =
     bind_res (config_shown cfg ''global_config'' ''build_path_template'') (\<lambda>template.
     substitute [(''m'', shown_m opts), (''profile'', o_profile opts)] template)"

definition tune_jobs_for ::
  "main_world \<Rightarrow> string \<Rightarrow> build_environment \<Rightarrow> blade \<Rightarrow> blade res" where
  "tune_jobs_for w command env b =
     (if command \<in> {''build'', ''run'', ''test''}
      then bind_res (tune_parallel_jobs_num (be_distcc_prepared env) (length (get_distcc_hosts_list env))
             (mw_cpus w) b) (\<lambda>(jobs, b'). Inr b')
      else Inr b)"

definition prepare_in ::
  "main_world \<Rightarrow> (tkey list \<Rightarrow> nat) \<Rightarrow> (tkey list \<Rightarrow> tkey list) \<Rightarrow> string \<Rightarrow> cmd_state \<Rightarrow> string \<Rightarrow> prepared res" where
  "prepare_in w pick enum blade_path cs root =
     (let opts = cs_options cs; command = o_command opts;
          wd = mw_wd w;
          targets = (if cs_targets cs = [] then [''.''] else cs_targets cs)
      in bind_res (parse_config (e_heap_text (w_env (mw_files w))) (w_traceback (mw_files w)) (mw_configs w)
           (mw_argv0 w) (mw_rc_file w) root new_conf) (\<lambda>conf.
         let cfg = c_configs conf;
             (opened_files, ms1) = (if command \<in> {''build'', ''test''}
                                    then get_opened_files w targets root wd else (None, []))
         in bind_res (check_code_style w cfg opened_files) (\<lambda>(_, ms2).
         bind_res (building_path cfg opts) (\<lambda>build_path.
         bind_res (lock_check w) (\<lambda>_.
         let targets' = (if command = ''query'' \<and> o_depended opts then [''...''] else targets);
             b = new_blade targets' blade_path wd build_path root opts command cfg
         in bind_res (new_build_env (mw_ccache w) (mw_distcc w) (mw_exists w) (hw_environ (mw_header w)) root [])
              (\<lambda>env.
         bind_res (blade_generate w pick enum env b) (\<lambda>(b1, script, cpp).
         bind_res (tune_jobs_for w command env b1) (\<lambda>b2.
         Inr \<lparr>pr_blade = b2, pr_script = script, pr_version_files = cpp, pr_environment = env,
              pr_query_targets = cs_targets cs,
              pr_run_target = (if command = ''run'' then Some (hd (cs_targets cs)) else None),
              pr_console = cs_console cs @ c_console conf @ ms1 @ ms2 @ be_console env @ b_console b2\<rparr>))))))))"

text \<open>The world after \<open>chdir\<close> to the root, with the colours chosen\<close>

definition in_root :: "string \<Rightarrow> bool \<Rightarrow> main_world \<Rightarrow> main_world" where
  "in_root root color w = w\<lparr>mw_files := (mw_files w)\<lparr>w_cwd := root\<rparr>, mw_base := (mw_base w)\<lparr>x_cwd := root\<rparr>,
     mw_header := (mw_header w)\<lparr>hw_color := color\<rparr>\<rparr>"

text \<open>The search for the root may not end (\<open>find_blade_root_dir\<close>); then nor does \<open>prepare\<close>.\<close>

definition prepare ::
  "main_world \<Rightarrow> (tkey list \<Rightarrow> nat) \<Rightarrow> (tkey list \<Rightarrow> tkey list) \<Rightarrow> string \<Rightarrow> options \<times> string list \<Rightarrow>
   prepared res option" where
  "prepare w pick enum blade_path parsed =
     (case cmd_arguments (mw_cmd w) (hw_color (mw_header w)) parsed of
        Inl e \<Rightarrow> Some (Inl e)
      | Inr cs \<Rightarrow>
          (case find_blade_root_dir (mw_isfile w) (mw_wd w) of
             None \<Rightarrow> None
           | Some (Inl e) \<Rightarrow> Some (Inl e)
           | Some (Inr root) \<Rightarrow>
               Some (prepare_in (in_root root (cs_color cs) w) pick enum blade_path cs root)))"

section \<open>The actions\<close>

definition scons_command :: "options \<Rightarrow> string" where
  "scons_command opts =
     ''scons --duplicate=soft-copy --cache-show -j '' @ dec_int (o_jobs opts) @
     (if o_keep_going opts then '' -k'' else [])"

definition build_action :: "main_world \<Rightarrow> options \<Rightarrow> int \<times> msg list" where
  "build_action w opts =
     (if o_scons_only opts then (0, [])
      else case mw_system w (scons_command opts) of
             None \<Rightarrow> (1, [])
           | Some returncode \<Rightarrow> if returncode \<noteq> 0 then (returncode, [Error ''building failure'']) else (0, []))"

definition runner_of :: "main_world \<Rightarrow> blade \<Rightarrow> runner" where
  "runner_of w b = \<lparr>r_targets = build_dict b, r_build_dir = b_build_path b, r_options = b_options b,
     r_database = b_database b, r_cwd = b_root_dir b, r_realpath = (\<lambda>_. x_realpath (mw_base w))\<rparr>"

text \<open>
  What the actions find outside: what the processes of a program to run and of the tests do, the
  surroundings of the tests, what their last run left, and the files when they are run.
\<close>

record run_world =
  ru_program :: "string list \<Rightarrow> (string, string) dict \<Rightarrow> process"
  ru_test :: "job \<Rightarrow> process"
  ru_surroundings :: surroundings
  ru_history :: history
  ru_state :: run_state

inductive action :: "main_world \<Rightarrow> run_world \<Rightarrow> prepared \<Rightarrow> int res \<Rightarrow> bool" for w ru p where
  build: "b_command (pr_blade p) = ''build'' \<Longrightarrow> action w ru p (Inr (fst (build_action w (b_options (pr_blade p)))))"
| unbuilt: "b_command (pr_blade p) \<in> {''run'', ''test''} \<Longrightarrow>
    fst (build_action w (b_options (pr_blade p))) \<noteq> 0 \<Longrightarrow>
    action w ru p (Inr (fst (build_action w (b_options (pr_blade p)))))"
| run: "b_command (pr_blade p) = ''run'' \<Longrightarrow> fst (build_action w (b_options (pr_blade p))) = 0 \<Longrightarrow>
    pr_run_target p = Some target \<Longrightarrow>
    action w ru p
      (bind_res (get_normpath_target (mw_files w) (pr_blade p) target) (\<lambda>key.
       bind_res (run_target (ru_program ru) (u_environ (ru_surroundings ru)) (runner_of w (pr_blade p)) key (ru_state ru))
         (\<lambda>(code, rs'). Inr code)))"
| test: "b_command (pr_blade p) = ''test'' \<Longrightarrow> fst (build_action w (b_options (pr_blade p))) = 0 \<Longrightarrow>
    run_tests (ru_test ru) (nat (mw_cpus w)) (ru_surroundings ru) (runner_of w (pr_blade p))
      (b_direct_targets (pr_blade p)) (ru_history ru) (ru_state ru) out \<Longrightarrow>
    action w ru p (bind_res out (\<lambda>(code, _). Inr code))"
| clean: "b_command (pr_blade p) = ''clean'' \<Longrightarrow>
    mw_system w ''scons --duplicate=soft-copy -c -s --cache-show'' = Some code \<Longrightarrow> action w ru p (Inr code)"
| query: "b_command (pr_blade p) = ''query'' \<Longrightarrow>
    query (mw_files w) order (pr_query_targets p) (pr_blade p) = Inr (output, b') \<Longrightarrow> action w ru p (Inr 0)"
| query_fails: "b_command (pr_blade p) = ''query'' \<Longrightarrow>
    query (mw_files w) order (pr_query_targets p) (pr_blade p) = Inl e \<Longrightarrow> action w ru p (Inl e)"

inductive_cases actionE: "action w ru p out"

text \<open>
  \<open>main\<close>: every exception but an exit is reported and ends in an error exit itself, with code 1;
  only the parser of the line exits with codes of its own.
\<close>

definition exit_code :: "int res \<Rightarrow> int" where
  "exit_code r = (case r of Inr code \<Rightarrow> code | Inl _ \<Rightarrow> 1)"

definition parser_exit_code :: "py_error \<Rightarrow> int" where
  "parser_exit_code e = (case e of SysExit code \<Rightarrow> code | _ \<Rightarrow> 1)"

inductive blade_main :: "main_world \<Rightarrow> run_world \<Rightarrow> string \<Rightarrow> string list \<Rightarrow> int \<Rightarrow> bool" for w ru blade_path argv where
  unread: "parsed_line argv = Some (Inl e) \<Longrightarrow> blade_main w ru blade_path argv (parser_exit_code e)"
| stopped: "parsed_line argv = Some (Inr parsed) \<Longrightarrow> enumerates enum \<Longrightarrow>
    prepare w pick enum blade_path parsed = Some (Inl e) \<Longrightarrow> blade_main w ru blade_path argv (exit_code (Inl e))"
| acted: "parsed_line argv = Some (Inr parsed) \<Longrightarrow> enumerates enum \<Longrightarrow>
    prepare w pick enum blade_path parsed = Some (Inr p) \<Longrightarrow>
    action w ru p out \<Longrightarrow> blade_main w ru blade_path argv (exit_code out)"

inductive_cases blade_mainE: "blade_main w ru blade_path argv code"

text \<open>A line that cannot be read decides the code alone, and nothing is run after a failed build.\<close>

lemma blade_main_unread:
  "parsed_line argv = Some (Inl e) \<Longrightarrow> blade_main w ru blade_path argv code \<longleftrightarrow> code = parser_exit_code e"
  by (auto elim: blade_mainE intro: blade_main.unread)

lemma failed_build_decides:
  assumes "action w ru p out" and "b_command (pr_blade p) \<in> {''build'', ''run'', ''test''}"
    and "fst (build_action w (b_options (pr_blade p))) \<noteq> 0"
  shows "out = Inr (fst (build_action w (b_options (pr_blade p))))"
  using assms by (cases rule: action.cases) auto

end
