(* ===== verification/MainProperties.thy ===== *)
theory MainProperties
  imports BladeMain ManagerResults
begin

text \<open>
  The whole way from the command line to the script that SCons is given: the composition of the
  checks of the command line, the search for the root, the configuration, loading, analysis, the
  header and the rules.
\<close>

declare split_paired_All [simp del] split_paired_Ex [simp del]

text \<open>The result of a chain of binds, with its pairs taken apart\<close>

lemmas bind_Inr = bind_res_eq_Inr split_paired_Ex prod.case sum.inject prod.inject

section \<open>What generation leaves\<close>

lemma same_objects_deps:
  assumes "same_objects b c"
  shows "deps_of (b_database c) k = deps_of (b_database b) k"
proof (cases "map_of (b_database c) k")
  case None
  then have "map_of (b_database b) k = None" using assms unfolding same_objects_def by (metis option.map_disc_iff)
  with None show ?thesis by (simp add: deps_of_def)
next
  case (Some t)
  from same_objects_Some [OF assms this] obtain u where
    u: "map_of (b_database b) k = Some u" "ident t = ident u" by blast
  then have "t_expanded_deps t = t_expanded_deps u" by (cases t, cases u) (simp add: ident_def)
  with Some u(1) show ?thesis by (simp add: deps_of_def)
qed

text \<open>The script is a header and the rules of the selected targets, dependencies first.\<close>

definition ordered_rules :: "blade \<Rightarrow> string list \<Rightarrow> bool" where
  "ordered_rules b rules \<longleftrightarrow> (\<exists>ks. rules = concat (map (rules_of b) ks) \<and> distinct ks \<and>
     set ks = {k \<in> set (b_build_targets b). gen_selected b k} \<and>
     (\<forall>xs k ys. ks = xs @ k # ys \<longrightarrow> {d \<in> set (deps_of (b_database b) k). gen_selected b d} \<subseteq> set xs))"

lemma ordered_rules_cong:
  assumes "b_database c = b_database b" and "b_build_targets c = b_build_targets b"
    and "o_no_test (b_options c) = o_no_test (b_options b)"
  shows "ordered_rules c rules = ordered_rules b rules"
proof -
  have "gen_selected c = gen_selected b" "rules_of c = rules_of b"
    by (simp_all add: fun_eq_iff gen_selected_def rules_of_def assms split: option.splits)
  then show ?thesis unfolding ordered_rules_def assms by simp
qed

lemma collected_ordered:
  assumes "keys_sorted b1" and "gen_targets_rules base b1 = Inr (b2, buf)"
  shows "ordered_rules b2 buf"
proof -
  note C = collected_rules [OF assms refl]
  have "gen_selected b2 = gen_selected b1" by (rule ext) (rule same_objects_selected [OF C(1)])
  moreover have "deps_of (b_database b2) = deps_of (b_database b1)"
    by (rule ext) (rule same_objects_deps [OF C(1)])
  moreover have "b_build_targets b2 = b_build_targets b1" using C(1) by (simp add: same_objects_def)
  ultimately show ?thesis unfolding ordered_rules_def
    using C(2-4) C(5) by (intro exI [of _ "filter (gen_selected b1) (b_sorted_keys b1)"] conjI allI impI) simp_all
qed

text \<open>The parts of generation\<close>

abbreviation generating :: "blade \<Rightarrow> blade" where
  "generating b \<equiv> info ''generating build rules...'' b"

lemma blade_generate_parts:
  assumes "blade_generate w pick enum env b0 = Inr (b', script, cpp)"
  obtains b1 b2 b4 :: blade and header :: "string list" and ms rules
  where "blade_load_targets (mw_files w) pick b0 = Inr b1" and "analyze_targets enum b1 = Inr b2"
    and "header_generate (mw_header w) (b_blade_path (generating b2)) (b_options (generating b2)) env
        (b_build_path (generating b2)) (b_svn_roots (generating b2)) (b_config (generating b2)) = Inr (header, cpp, ms)"
    and "gen_targets_rules (mw_base w) (generating b2) = Inr (b4, rules)" and "script = header @ rules"
    and "b' = info ''generating done.'' (b4\<lparr>b_console := b_console b4 @ ms\<rparr>)"
proof -
  from assms obtain b1 b2 b3 where load: "blade_load_targets (mw_files w) pick b0 = Inr b1"
    and run: "analyze_targets enum b1 = Inr b2"
    and gen: "generate_scons_script w env (generating b2) = Inr (b3, script, cpp)"
    and b': "b' = info ''generating done.'' b3"
    unfolding blade_generate_def bind_Inr
    by (elim exE conjE) (rule that, (assumption | simp)+)
  from gen obtain header ms b4 rules where
      h: "header_generate (mw_header w) (b_blade_path (generating b2)) (b_options (generating b2)) env
        (b_build_path (generating b2)) (b_svn_roots (generating b2)) (b_config (generating b2)) = Inr (header, cpp, ms)"
    and rules: "gen_targets_rules (mw_base w) (generating b2) = Inr (b4, rules)"
    and b3: "b3 = b4\<lparr>b_console := b_console b4 @ ms\<rparr>" and script: "script = header @ rules"
    unfolding generate_scons_script_def bind_Inr
    by (elim exE conjE) (rule that, (assumption | simp)+)
  show thesis by (rule that [OF load run h rules script]) (simp only: b' b3)
qed

lemma blade_generate_ordered:
  assumes "blade_generate w pick enum env b0 = Inr (b', script, cpp)" and "db_inv (b_database b0)"
    and "enumerates enum"
  shows "\<exists>(b1 :: blade) header ms rules. header_generate (mw_header w) (b_blade_path b1) (b_options b1) env (b_build_path b1)
      (b_svn_roots b1) (b_config b1) = Inr (header, cpp, ms) \<and>
    script = header @ rules \<and> ordered_rules b' rules"
proof -
  obtain b1 b2 b4 :: blade and header :: "string list" and ms rules
    where load: "blade_load_targets (mw_files w) pick b0 = Inr b1" and run: "analyze_targets enum b1 = Inr b2"
    and h: "header_generate (mw_header w) (b_blade_path (generating b2)) (b_options (generating b2)) env
        (b_build_path (generating b2)) (b_svn_roots (generating b2)) (b_config (generating b2)) = Inr (header, cpp, ms)"
    and rules: "gen_targets_rules (mw_base w) (generating b2) = Inr (b4, rules)" and script: "script = header @ rules"
    and b': "b' = info ''generating done.'' (b4\<lparr>b_console := b_console b4 @ ms\<rparr>)"
    by (rule blade_generate_parts [OF assms(1)])
  have "keys_sorted (info m b) = keys_sorted b" for m b by (simp add: keys_sorted_def info_def)
  then have "ordered_rules b4 rules"
    using collected_ordered [OF _ rules] analyzed_keys_sorted [OF load assms(2,3) run] by simp
  moreover have "ordered_rules b' rules = ordered_rules b4 rules"
    by (rule ordered_rules_cong) (simp_all add: b' info_def)
  ultimately have rest: "ordered_rules b' rules" by simp
  show ?thesis by (intro exI conjI) (rule h, rule script, rule rest)
qed

lemma tune_jobs_frame:
  assumes "tune_jobs_for w command env b = Inr b'"
  shows "b_database b' = b_database b \<and> b_build_targets b' = b_build_targets b \<and> b_command b' = b_command b \<and>
    o_no_test (b_options b') = o_no_test (b_options b) \<and>
    o_scons_only (b_options b') = o_scons_only (b_options b)"
proof (cases "command \<in> {''build'', ''run'', ''test''}")
  case True
  from assms obtain jobs m where
    "b' = (if jobs \<noteq> o_jobs (b_options b) then info m (b\<lparr>b_options := (b_options b)\<lparr>o_jobs := jobs\<rparr>\<rparr>)
       else b\<lparr>b_options := (b_options b)\<lparr>o_jobs := jobs\<rparr>\<rparr>)"
    unfolding tune_jobs_for_def tune_parallel_jobs_num_def if_P [OF True] Let_def bind_Inr
    by (elim exE conjE) (rule that, rule sym, rule trans, assumption, assumption)
  then show ?thesis by (simp add: info_def)
qed (use assms in \<open>simp add: tune_jobs_for_def\<close>)

lemma tune_jobs_ordered:
  assumes "tune_jobs_for w command env b = Inr b'"
  shows "ordered_rules b' rules = ordered_rules b rules"
  using tune_jobs_frame [OF assms] by (intro ordered_rules_cong) simp_all

section \<open>The property\<close>

lemma prepare_in_parts:
  assumes "prepare_in w pick enum blade_path cs root = Inr p"
  obtains b0 b1 b2 :: blade and env where "db_inv (b_database b0)" and "b_command b0 = o_command (cs_options cs)"
    and "b_options b0 = cs_options cs"
    and "blade_generate w pick enum env b0 = Inr (b1, pr_script p, pr_version_files p)"
    and "tune_jobs_for w (o_command (cs_options cs)) env b1 = Inr b2" and "pr_blade p = b2"
proof -
  from assms obtain targets' build_path cfg env out b2 where
      gen: "blade_generate w pick enum env
        (new_blade targets' blade_path (mw_wd w) build_path root (cs_options cs) (o_command (cs_options cs)) cfg) =
        Inr out"
    and tune: "tune_jobs_for w (o_command (cs_options cs)) env (fst out) = Inr b2"
    and p: "pr_blade p = b2" "pr_script p = fst (snd out)" "pr_version_files p = snd (snd out)"
    unfolding prepare_in_def Let_def case_prod_beta bind_res_eq_Inr sum.inject
    by (elim exE conjE) (rule that, assumption, assumption, (hypsubst, simp)+)
  show thesis
    by (rule that [OF _ _ _ _ tune p(1)]) (use gen in \<open>simp_all add: new_blade_def db_inv_def dict_wf_def p(2,3)\<close>)
qed

lemma prepare_in_ordered:
  assumes "prepare_in w pick enum blade_path cs root = Inr p" and "enumerates enum"
  shows "\<exists>env (b :: blade) header ms rules. header_generate (mw_header w) (b_blade_path b) (b_options b) env (b_build_path b)
      (b_svn_roots b) (b_config b) = Inr (header, pr_version_files p, ms) \<and>
    pr_script p = header @ rules \<and> ordered_rules (pr_blade p) rules"
proof -
  obtain b0 b1 b2 :: blade and env where db: "db_inv (b_database b0)"
    and gen: "blade_generate w pick enum env b0 = Inr (b1, pr_script p, pr_version_files p)"
    and tune: "tune_jobs_for w (o_command (cs_options cs)) env b1 = Inr b2" and p: "pr_blade p = b2"
    by (rule prepare_in_parts [OF assms(1)])
  from blade_generate_ordered [OF gen db assms(2)] show ?thesis
    unfolding p tune_jobs_ordered [OF tune] by (rule exI)
qed

text \<open>C3: Whatever the command line and the repository, when \<open>_main\<close> comes to the action of the
  command the script it has generated is the header followed by the rules of the targets to
  build, each once, without system libraries and skipped tests, and the rules of a target come
  after those of everything it depends on.\<close>

theorem main_script_ordered:
  assumes "prepare w pick enum blade_path parsed = Some (Inr p)" and "enumerates enum"
  shows "\<exists>root color env (b :: blade) header ms rules.
    header_generate (mw_header (in_root root color w)) (b_blade_path b) (b_options b) env (b_build_path b)
      (b_svn_roots b) (b_config b) = Inr (header, pr_version_files p, ms) \<and>
    pr_script p = header @ rules \<and> ordered_rules (pr_blade p) rules"
proof -
  from assms(1) obtain cs root where
    "prepare_in (in_root root (cs_color cs) w) pick enum blade_path cs root = Inr p"
    by (auto simp: prepare_def split: sum.splits option.splits)
  from prepare_in_ordered [OF this assms(2)] show ?thesis by blast
qed

section \<open>A run on the small repository\<close>

definition demo_header_world :: header_world where
  "demo_header_world = \<lparr>hw_time = [], hw_host = [], hw_environ = [], hw_has_svn = (\<lambda>_. False),
     hw_svn_info = (\<lambda>_. (0, [])), hw_accepts = (\<lambda>_. True), hw_expanduser = (\<lambda>p. p), hw_color = False,
     hw_gcc_version = ''4.4'', hw_python_inc = [],
     hw_version = \<lparr>vw_template = None, vw_popen = (\<lambda>_. []), vw_time = [], vw_host = []\<rparr>\<rparr>"

text \<open>Two generated files, the second made from the first\<close>

definition gen_demo :: "string \<Rightarrow> string \<Rightarrow> arg \<Rightarrow> string \<Rightarrow> build_call" where
  "gen_demo name src deps out = CallGenRule \<lparr>g_name = name, g_srcs = AStr src, g_deps = deps, g_outs = AStr out,
     g_cmd = ''c'', g_kwargs = []\<rparr>"

definition demo_files :: world where
  "demo_files = demo_world\<lparr>w_exists := (\<lambda>p. p = ''a''),
     w_builds := [(''a'', [gen_demo ''x'' ''i'' (AList []) ''o'', gen_demo ''y'' ''o'' (AStr '':x'') ''u''])]\<rparr>"

definition demo_main_world :: main_world where
  "demo_main_world = \<lparr>mw_cmd = demo_cmd_world, mw_wd = ''/r'', mw_files = demo_files,
     mw_header = demo_header_world, mw_base = demo_base, mw_exists = (\<lambda>_. False),
     mw_isfile = (\<lambda>p. p = ''/r/BLADE_ROOT''), mw_configs = (\<lambda>_. None), mw_argv0 = [], mw_rc_file = [],
     mw_popen = (\<lambda>_ _. []), mw_system = (\<lambda>_. None), mw_lock_error = None, mw_ccache = NoTool,
     mw_distcc = Tool 127 [] [], mw_cpus = 1\<rparr>"

lemma demo_root: "find_blade_root_dir (mw_isfile demo_main_world) (mw_wd demo_main_world) = Some (Inr ''/r'')"
  unfolding find_blade_root_dir_def
  by (subst find_root.simps)
    (simp add: demo_main_world_def endswith_def slash_def path_join_def isabs_def startswith_def)

lemma demo_prepare_in:
  "case cmd_arguments demo_cmd_world False (demo_options, [''a:y'']) of
     Inl e \<Rightarrow> False
   | Inr cs \<Rightarrow> is_ok (prepare_in (in_root ''/r'' (cs_color cs) demo_main_world) (\<lambda>_. 0) rev [] cs ''/r'')"
  by code_simp

lemma demo_prepare:
  "\<exists>p. prepare demo_main_world (\<lambda>_. 0) rev [] (demo_options, [''a:y'']) = Some (Inr p)"
proof -
  obtain cs where cs: "cmd_arguments demo_cmd_world False (demo_options, [''a:y'']) = Inr cs"
    and ok: "is_ok (prepare_in (in_root ''/r'' (cs_color cs) demo_main_world) (\<lambda>_. 0) rev [] cs ''/r'')"
    using demo_prepare_in by (cases "cmd_arguments demo_cmd_world False (demo_options, [''a:y''])") simp_all
  have "mw_cmd demo_main_world = demo_cmd_world" "hw_color (mw_header demo_main_world) = False"
    by (simp_all add: demo_main_world_def demo_header_world_def)
  then have "prepare demo_main_world (\<lambda>_. 0) rev [] (demo_options, [''a:y'']) =
      Some (prepare_in (in_root ''/r'' (cs_color cs) demo_main_world) (\<lambda>_. 0) rev [] cs ''/r'')"
    unfolding prepare_def by (simp only: cs sum.case demo_root option.case)
  with ok show ?thesis unfolding is_ok_iff by (elim exE) (rule exI, simp only:)
qed

theorem main_script_ordered_witness:
  "\<exists>p header rules. prepare demo_main_world (\<lambda>_. 0) rev [] (demo_options, [''a:y'']) = Some (Inr p) \<and>
     pr_script p = header @ rules \<and> ordered_rules (pr_blade p) rules"
proof -
  obtain p where p: "prepare demo_main_world (\<lambda>_. 0) rev [] (demo_options, [''a:y'']) = Some (Inr p)"
    using demo_prepare ..
  from main_script_ordered [OF p enumerates_rev] obtain header rules where
    "pr_script p = header @ rules" "ordered_rules (pr_blade p) rules" by (elim exE conjE) (rule that)
  with p show ?thesis by (intro exI conjI)
qed

end
