(* ===== verification/ExitCode.thy ===== *)
theory ExitCode
  imports MainProperties TestRunnerProperties
begin

text \<open>
  What the exit code of Blade says: the composition of the command line, the script, the build and
  the tests.
\<close>

section \<open>The command is kept\<close>

lemma check_command_keeps:
  assumes "check_command w s = Inr s'"
  shows "o_command (cs_options s') = o_command (cs_options s)"
  using assms unfolding check_command_def Let_def
  by (auto simp: res_simps check_test_options_def check_clean_options_def check_query_options_def split: if_splits
      dest!: build_step run_step deprecated_step plat_step(2) color_step query_step)

text \<open>For the tests, no check turns the build off or on.\<close>

lemma plat_scons_only:
  assumes "check_plat_and_profile_options w s = Inr s'"
  shows "o_scons_only (cs_options s') = o_scons_only (cs_options s)"
  using assms by (auto simp: check_plat_and_profile_options_def Let_def split: if_splits option.splits)

lemma build_scons_only:
  assumes "check_build_options w s = Inr s'"
  shows "o_scons_only (cs_options s') = o_scons_only (cs_options s)"
proof -
  obtain s1 s2 dir sz where p: "check_plat_and_profile_options w s = Inr s1" and c: "check_color_options s1 = Inr s2" and
    s': "s' = s2\<lparr>cs_options := (cs_options s2)\<lparr>o_cache_dir := dir, o_cache_size := sz\<rparr>\<rparr>"
    using assms unfolding check_build_options_def Let_def bind_res_eq_Inr by blast
  show ?thesis using plat_scons_only [OF p] color_step [OF c] by (simp add: s')
qed

lemma test_scons_only:
  assumes "check_command w s = Inr s'" and "o_command (cs_options s) = ''test''"
  shows "o_scons_only (cs_options s') = o_scons_only (cs_options s)"
proof -
  obtain s1 where 1: "check_build_options w s = Inr s1" and 2: "check_test_options s1 = Inr s'"
    using assms by (auto simp: check_command_def bind_res_eq_Inr)
  have "o_scons_only (cs_options s') = o_scons_only (cs_options s1)"
    using 2 by (auto simp: check_test_options_def deprecated_args_def cs_warn_def Let_def bind_res_eq_Inr
        split: option.splits if_splits)
  with build_scons_only [OF 1] show ?thesis by simp
qed

lemma cmd_arguments_scons_only:
  assumes "cmd_arguments w color (opts, others) = Inr cs" and "o_command opts = ''test''"
  shows "o_scons_only (cs_options cs) = o_scons_only opts"
  using assms by (auto simp: cmd_arguments_def res_simps split: prod.splits dest!: test_scons_only)

lemma cmd_arguments_command:
  assumes "cmd_arguments w color (opts, others) = Inr cs"
  shows "o_command (cs_options cs) = o_command opts"
  using assms by (auto simp: cmd_arguments_def res_simps split: prod.splits dest!: check_command_keeps)

text \<open>What the command line asks for\<close>

definition asked :: "blade \<Rightarrow> string \<times> options" where
  "asked b = (b_command b, b_options b)"

lemma asked_frame [simp]:
  "asked (b\<lparr>b_current_source_path := d\<rparr>) = asked b" "asked (b\<lparr>b_svn_roots := r\<rparr>) = asked b"
  "asked (b\<lparr>b_command_targets := ids\<rparr>) = asked b" "asked (info m b) = asked b"
  by (simp_all add: asked_def info_def)

lemma load_build_file_asked:
  assumes "load_build_file w d act st = Inr st'"
  shows "asked (snd st') = asked (snd st)"
proof -
  obtain p b p' b' where st: "st = (p, b)" "st' = (p', b')" by fastforce
  have "b' = b \<or> (\<exists>script b2. run_script (w_env w) script (b\<lparr>b_current_source_path := normpath d\<rparr>) = Inr b2 \<and>
         b' = b2\<lparr>b_current_source_path := b_current_source_path b\<rparr>)"
    using assms unfolding st
    by (auto simp: load_build_file_def Let_def report_not_exist_def split: if_splits option.splits
        sum.splits py_error.splits)
  moreover have "asked c' = asked c" if "db_step c c'" for c c' :: blade
    using that by (cases c, cases c') (simp add: db_step_def asked_def)
  ultimately show ?thesis unfolding st by (auto dest!: run_script_step)
qed

lemma load_loop_asked:
  "load_loop w pick cited related st = Inr (related', st') \<Longrightarrow> asked (snd st') = asked (snd st)"
proof (induction w pick cited related st rule: load_loop.induct)
  case (1 w pick cited related st)
  let ?k = "popped pick cited"
  show ?case
  proof (cases "cited = [] \<or> ?k \<in> set related")
    case True
    with 1 show ?thesis
      by (cases "cited = []") (simp_all add: load_loop.simps [of w pick cited] load_loop.simps [of w pick "[]"])
  next
    case False
    then obtain st1 t where load: "load_build_file w (fst ?k) AbortIfFail st = Inr st1"
      and t: "map_of (b_database (snd st1)) ?k = Some t"
      and run: "load_loop w pick (new_cited (t_expanded_deps t) (related @ [?k]) (after_pop pick cited))
          (related @ [?k]) st1 = Inr (related', st')"
      using "1.prems"
      by (auto simp: load_loop.simps [of w pick cited] Let_def bind_res_eq_Inr split: option.splits)
    from False "1.IH"(2) [OF _ refl refl _ load t refl run] load_build_file_asked [OF load]
    show ?thesis by simp
  qed
qed

lemma blade_load_targets_asked:
  assumes "blade_load_targets w pick b = Inr b'"
  shows "asked b' = asked b"
proof -
  let ?wd = "if b_command b = ''query'' then b_root_dir b else b_working_dir b"
  obtain ids r where
    run: "load_targets w pick ids ?wd (b_root_dir b) ((info ''loading BUILDs...'' b)\<lparr>b_command_targets := ids\<rparr>) = Inr r"
    and b': "asked b' = asked (snd (snd (snd r)))"
    using assms unfolding blade_load_targets_def Let_def bind_res_eq_Inr case_prod_beta
    by (elim exE conjE) (rule that, assumption, auto simp: info_def asked_def)
  define b1 where "b1 = (info ''loading BUILDs...'' b)\<lparr>b_command_targets := ids\<rparr>"
  obtain dirs cited st1 related st2 where 1: "load_source_dirs w dirs ([], b1) = Inr st1"
    and 2: "load_loop w pick cited [] st1 = Inr (related, st2)"
    and r: "asked (snd (snd (snd r))) = asked (snd st2)"
    using run [folded b1_def] by (auto simp: load_targets_def bind_res_eq_Inr Let_def)
  have "asked (snd st1) = asked b1"
    by (rule fold_res_invariant [where P = "\<lambda>st. asked (snd st) = asked b1",
          OF _ _ 1 [unfolded load_source_dirs_def]]) (auto dest!: load_build_file_asked)
  then show ?thesis using load_loop_asked [OF 2] r b' by (simp add: b1_def info_def asked_def)
qed

lemma analyze_targets_asked:
  assumes "analyze_targets enum b = Inr b'"
  shows "asked b' = asked b"
  using assms by (auto simp: analyze_targets_def bind_res_eq_Inr info_def asked_def)

lemma gen_targets_rules_asked:
  assumes "gen_targets_rules base b = Inr (b', buf)"
  shows "asked b' = asked b"
proof -
  have "asked (fst (b', buf)) = asked b"
    by (rule fold_res_invariant [where P = "\<lambda>st. asked (fst st) = asked b",
          OF _ _ assms [unfolded gen_targets_rules_def]])
      (auto simp: gen_target_rules_def bind_res_eq_Inr warn_def asked_def split: if_splits option.splits)
  then show ?thesis by simp
qed

lemma gen_targets_rules_same:
  assumes "keys_sorted b" and "gen_targets_rules base b = Inr (b', buf)"
  shows "same_objects b b'"
  by (rule collected_rules(1) [OF assms refl])

section \<open>The objects are found under their names\<close>

definition named :: "blade \<Rightarrow> bool" where
  "named b \<longleftrightarrow> distinct (b_build_targets b) \<and> (\<forall>k \<in> set (b_build_targets b). \<exists>t. map_of (b_database b) k = Some t \<and>
     t_key t = k \<and> (t_path t, t_name t) = k)"

lemma core_named: "core t = core u \<Longrightarrow> t_key t = t_key u \<and> (t_path t, t_name t) = (t_path u, t_name u)"
proof -
  assume eq: "core t = core u"
  have "t_key (core t) = t_key t" "t_path (core t) = t_path t" "t_name (core t) = t_name t" for t
    by (simp_all add: core_def)
  then show ?thesis using eq by metis
qed

lemma ident_named: "ident t = ident u \<Longrightarrow> t_key t = t_key u \<and> (t_path t, t_name t) = (t_path u, t_name u)"
proof -
  assume eq: "ident t = ident u"
  have "t_key (ident t) = t_key t" "t_path (ident t) = t_path t" "t_name (ident t) = t_name t" for t
    by (simp_all add: ident_def)
  then show ?thesis using eq by metis
qed

lemma loaded_named:
  assumes "blade_load_targets w pick b0 = Inr b" and "db_inv (b_database b0)"
  shows "named b"
proof -
  note L = blade_load_targets_correct [OF assms]
  have "\<exists>t. map_of (b_database b) k = Some t \<and> t_key t = k \<and> (t_path t, t_name t) = k"
    if k: "k \<in> set (b_build_targets b)" for k
  proof -
    obtain t where t: "map_of (b_database b) k = Some t" using map_of_keys [OF subsetD [OF L(4) k]] ..
    then have "target_ok k t" using L(6) by (simp add: db_inv_def)
    then show ?thesis using t by (simp add: target_ok_def)
  qed
  with L(3) show ?thesis by (simp add: named_def)
qed

lemma analyzed_named:
  assumes "analyze_targets enum b = Inr b'" and "named b"
  shows "named b'"
proof -
  obtain ts' order where A: "expand_deps (build_dict b) = Inr ts'"
    and b': "b_build_targets b' = b_build_targets b" "b_database b' = dict_update (b_database b) ts'"
    using assms(1) by (auto simp: analyze_targets_def analyze_deps_def bind_res_eq_Inr info_def)
  have k': "keys ts' = b_build_targets b" using keys_expand_deps [OF A] by (simp add: build_dict_def)
  have d: "distinct (b_build_targets b)" using assms(2) by (simp add: named_def)
  have "\<exists>t. map_of (b_database b') k = Some t \<and> t_key t = k \<and> (t_path t, t_name t) = k"
    if k: "k \<in> set (b_build_targets b)" for k
  proof -
    obtain t0 where t0: "map_of (b_database b) k = Some t0" "t_key t0 = k" "(t_path t0, t_name t0) = k"
      using assms(2) k unfolding named_def by blast
    obtain t where t: "map_of ts' k = Some t" using k k' map_of_keys [of k ts'] by metis
    have "map_of (build_dict b) k = Some t0" using k t0(1) by (simp add: build_dict_def map_of_restrict)
    with expand_deps_sound(3) [OF A, of k] t have "core t = core t0" by simp
    from core_named [OF this] t0(2,3) have "t_key t = k" "(t_path t, t_name t) = k" by simp_all
    moreover have "map_of (b_database b') k = Some t"
      using t d unfolding b'(2) by (simp add: map_of_dict_update k')
    ultimately show ?thesis by blast
  qed
  with d show ?thesis by (simp add: named_def b'(1))
qed

lemma same_objects_named:
  assumes "same_objects b c" and "named b"
  shows "named c"
proof -
  have bt: "b_build_targets c = b_build_targets b" using assms(1) by (simp add: same_objects_def)
  have "\<exists>t. map_of (b_database c) k = Some t \<and> t_key t = k \<and> (t_path t, t_name t) = k"
    if k: "k \<in> set (b_build_targets b)" for k
  proof -
    obtain t0 where t0: "map_of (b_database b) k = Some t0" "t_key t0 = k" "(t_path t0, t_name t0) = k"
      using assms(2) k unfolding named_def by blast
    have "map_option ident (map_of (b_database c) k) = Some (ident t0)"
      using assms(1) t0(1) by (simp add: same_objects_def)
    then obtain t where t: "map_of (b_database c) k = Some t" "ident t = ident t0" by auto
    from ident_named [OF t(2)] t0(2,3) have "t_key t = k" "(t_path t, t_name t) = k" by simp_all
    with t(1) show ?thesis by blast
  qed
  with assms(2) show ?thesis by (simp add: named_def bt)
qed

lemma named_keys_ok:
  assumes "named b"
  shows "keys_ok (runner_of w b)"
proof -
  have t: "t_key t = k \<and> (t_path t, t_name t) = k"
    if "k \<in> set (b_build_targets b)" "t = the (map_of (b_database b) k)" for k t
    using assms that unfolding named_def by force
  have "map t_key (map snd (build_dict b)) = b_build_targets b"
    by (simp add: build_dict_def restrict_def o_def) (rule map_idI, simp add: t)
  moreover have "list_all (\<lambda>t. t_key t = (t_path t, t_name t)) (map snd (build_dict b))"
    by (simp add: build_dict_def restrict_def list_all_iff) (simp add: t)
  ultimately show ?thesis using assms by (simp add: keys_ok_def runner_of_def named_def)
qed

lemma blade_generate_kept:
  assumes "blade_generate w pick enum env b0 = Inr (b', script, cpp)" and "db_inv (b_database b0)" and "enumerates enum"
  shows "named b' \<and> asked b' = asked b0"
proof -
  have [simp]: "named (info m b) = named b" "keys_sorted (info m b) = keys_sorted b" "asked (info m b) = asked b" for m b
    by (simp_all add: named_def keys_sorted_def info_def asked_def)
  obtain b1 b2 b4 :: blade and ms rules where load: "blade_load_targets (mw_files w) pick b0 = Inr b1"
    and run: "analyze_targets enum b1 = Inr b2" and gen: "gen_targets_rules (mw_base w) (generating b2) = Inr (b4, rules)"
    and b': "b' = info ''generating done.'' (b4\<lparr>b_console := b_console b4 @ ms\<rparr>)"
    by (rule blade_generate_parts [OF assms(1)])
  have "named (generating b2)" using analyzed_named [OF run loaded_named [OF load assms(2)]] by simp
  moreover have "keys_sorted (generating b2)" using analyzed_keys_sorted [OF load assms(2,3) run] by simp
  ultimately have "named b4" using same_objects_named [OF gen_targets_rules_same [OF _ gen]] by simp
  then have "named b'" by (simp add: b' named_def info_def)
  moreover have "asked b2 = asked b1" by (rule analyze_targets_asked [OF run])
  ultimately show ?thesis
    using blade_load_targets_asked [OF load] gen_targets_rules_asked [OF gen] by (simp add: b' asked_def info_def)
qed

lemma tune_jobs_kept:
  assumes "tune_jobs_for w command env b = Inr b'"
  shows "named b' = named b \<and> b_command b' = b_command b \<and> o_scons_only (b_options b') = o_scons_only (b_options b)"
  using tune_jobs_frame [OF assms] by (simp add: named_def)

lemma prepare_in_kept:
  assumes "prepare_in w pick enum blade_path cs root = Inr p" and "enumerates enum"
  shows "named (pr_blade p) \<and> b_command (pr_blade p) = o_command (cs_options cs) \<and>
    o_scons_only (b_options (pr_blade p)) = o_scons_only (cs_options cs)"
proof -
  obtain b0 b1 b2 :: blade and env where db: "db_inv (b_database b0)" and c: "b_command b0 = o_command (cs_options cs)" "b_options b0 = cs_options cs"
    and gen: "blade_generate w pick enum env b0 = Inr (b1, pr_script p, pr_version_files p)"
    and tune: "tune_jobs_for w (o_command (cs_options cs)) env b1 = Inr b2" and p: "pr_blade p = b2"
    by (rule prepare_in_parts [OF assms(1)])
  from blade_generate_kept [OF gen db assms(2)] tune_jobs_kept [OF tune] c p show ?thesis by (simp add: asked_def)
qed

lemma prepare_kept:
  assumes "prepare w pick enum blade_path (opts, others) = Some (Inr p)" and "enumerates enum"
  shows "named (pr_blade p)" and "b_command (pr_blade p) = o_command opts"
    and "o_command opts = ''test'' \<Longrightarrow> o_scons_only (b_options (pr_blade p)) = o_scons_only opts"
proof -
  from assms(1) obtain cs root where cs: "cmd_arguments (mw_cmd w) (hw_color (mw_header w)) (opts, others) = Inr cs"
    and "prepare_in (in_root root (cs_color cs) w) pick enum blade_path cs root = Inr p"
    by (auto simp: prepare_def split: sum.splits option.splits)
  from prepare_in_kept [OF this(2) assms(2)] cmd_arguments_command [OF cs] cmd_arguments_scons_only [OF cs]
  show "named (pr_blade p)" "b_command (pr_blade p) = o_command opts"
    "o_command opts = ''test'' \<Longrightarrow> o_scons_only (b_options (pr_blade p)) = o_scons_only opts" by simp_all
qed

section \<open>The exit code of the tests\<close>

text \<open>What \<open>blade test\<close> runs in a prepared build\<close>

definition tests_end :: "main_world \<Rightarrow> run_world \<Rightarrow> prepared \<Rightarrow> (int \<times> written \<times> test_state) res \<Rightarrow> bool" where
  "tests_end w ru p out \<longleftrightarrow>
     run_tests (ru_test ru) (nat (mw_cpus w)) (ru_surroundings ru) (runner_of w (pr_blade p))
       (b_direct_targets (pr_blade p)) (ru_history ru) (ru_state ru) out"

definition failed_in :: "main_world \<Rightarrow> run_world \<Rightarrow> prepared \<Rightarrow> target \<Rightarrow> bool" where
  "failed_in w ru p t \<longleftrightarrow>
     test_failed (ru_test ru) (nat (mw_cpus w)) (ru_surroundings ru) (runner_of w (pr_blade p)) (rs_fs (ru_state ru))
       (b_direct_targets (pr_blade p)) (first_state (ru_surroundings ru) (runner_of w (pr_blade p)) (ru_history ru)) t"

lemma test_action:
  assumes "action w ru p out" and "b_command (pr_blade p) = ''test''" and "exit_code out = 0"
  obtains w' s' where "fst (build_action w (b_options (pr_blade p))) = 0" and "tests_end w ru p (Inr (0, w', s'))"
  using assms(1)
proof (cases rule: action.cases)
  case unbuilt
  then show thesis using assms(3) by (simp add: exit_code_def)
next
  case (test out')
  then show thesis
  proof (cases out')
    case (Inl e)
    then show thesis using test assms(3) by (simp add: exit_code_def)
  next
    case (Inr r)
    obtain code w' s' where r: "r = (code, w', s')" by (cases r)
    have "code = 0" using test assms(3) by (simp add: exit_code_def Inr r)
    with test Inr r that show thesis by (simp add: tests_end_def)
  qed
qed (use assms(2) in simp_all)

lemma build_action_ok:
  "fst (build_action w opts) = 0 \<Longrightarrow> \<not> o_scons_only opts \<Longrightarrow> mw_system w (scons_command opts) = Some 0"
  by (auto simp: build_action_def split: option.splits if_splits)

lemma tests_end_passed:
  assumes "tests_end w ru p (Inr (0, w', s'))" and "named (pr_blade p)"
    and "''PWD'' \<in> set (keys (u_environ (ru_surroundings ru)))"
  shows "\<forall>t \<in> set (map snd (build_dict (pr_blade p))). \<not> failed_in w ru p t"
proof -
  have targets: "r_targets (runner_of w (pr_blade p)) = build_dict (pr_blade p)" by (simp add: runner_of_def)
  show ?thesis
    using tests_code [OF assms(1) [unfolded tests_end_def] named_keys_ok [OF assms(2)] assms(3)]
    unfolding targets failed_in_def by (simp only: split: if_splits) blast
qed


section \<open>A run of one test\<close>

text \<open>The test \<open>//a:x\<close>, with a configuration file that makes the build directory \<open>b\<close>\<close>

definition test_files :: world where
  "test_files = demo_world\<lparr>w_exists := (\<lambda>p. p = ''a''),
     w_builds := [(''a'', [CallCcTest ((cc_defaults ''x'')\<lparr>a_srcs := AStr ''i''\<rparr>)])]\<rparr>"

definition test_world :: main_world where
  "test_world = demo_main_world\<lparr>mw_files := test_files, mw_system := (\<lambda>_. Some 0),
     mw_configs := (\<lambda>p. if p = ''/r/BLADE_ROOT''
       then Some [(GlobalConfig, NoAppend, [(''build_path_template'', PStr ''b'')])] else None)\<rparr>"

definition test_fs :: fs where
  "test_fs p = (if length p \<le> 3 then Some FDir
     else if length p = 4 \<and> length (last p) = 1 then Some (FFile []) else None)"

definition test_start :: run_state where
  "test_start = \<lparr>rs_fs = test_fs, rs_console = []\<rparr>"

text \<open>The test passes in the prepared build.\<close>

definition passes :: "prepared \<Rightarrow> bool" where
  "passes p \<longleftrightarrow> b_command (pr_blade p) = ''test'' \<and> o_test_jobs (b_options (pr_blade p)) \<le> 1 \<and>
     fst (build_action test_world (b_options (pr_blade p))) = 0 \<and>
     (case run_alone exit_proc demo_surroundings (runner_of test_world (pr_blade p)) (b_direct_targets (pr_blade p))
         NoHistory test_start 8 of None \<Rightarrow> False | Some out \<Rightarrow> fst out = 0)"

definition test_options :: options where
  "test_options = demo_options\<lparr>o_command := ''test'', o_m := None, o_color := Some ''auto'', o_deps := False,
     o_depended := False, o_test_jobs := 1\<rparr>"

definition test_checked :: cmd_state where
  "test_checked = \<lparr>cs_options = test_options\<lparr>o_m := Some ''64'', o_cache_size := PInt 2147483648\<rparr>,
     cs_targets = [''a:x''], cs_color = False, cs_console = []\<rparr>"

lemma demo_read: "parsed_line [''test'', ''a:x''] = Some (Inr (test_options, [''a:x'']))"
  by code_simp

lemma demo_checked: "cmd_arguments demo_cmd_world False (test_options, [''a:x'']) = Inr test_checked"
  by code_simp

lemma demo_passes:
  "case prepare_in (in_root ''/r'' False test_world) (\<lambda>_. 0) rev [] test_checked ''/r'' of
     Inl e \<Rightarrow> False | Inr p \<Rightarrow> passes p"
  by code_simp

definition test_outside :: run_world where
  "test_outside = \<lparr>ru_program = (\<lambda>_ _. Exited 0 []), ru_test = exit_proc, ru_surroundings = demo_surroundings,
     ru_history = NoHistory, ru_state = test_start\<rparr>"

lemma demo_exit_zero: "blade_main test_world test_outside [] [''test'', ''a:x''] 0"
proof -
  obtain p where p: "prepare_in (in_root ''/r'' False test_world) (\<lambda>_. 0) rev [] test_checked ''/r'' = Inr p" "passes p"
    using demo_passes by (auto split: sum.splits)
  have w: "mw_cmd test_world = demo_cmd_world" "hw_color (mw_header test_world) = False" "cs_color test_checked = False"
    "mw_isfile test_world = mw_isfile demo_main_world" "mw_wd test_world = mw_wd demo_main_world"
    by (simp_all add: test_world_def demo_main_world_def demo_header_world_def test_checked_def)
  have prepared: "prepare test_world (\<lambda>_. 0) rev [] (test_options, [''a:x'']) = Some (Inr p)"
    unfolding prepare_def w demo_checked by (simp only: sum.case demo_root option.case w p(1))
  obtain w' s' where run: "run_alone exit_proc demo_surroundings (runner_of test_world (pr_blade p))
      (b_direct_targets (pr_blade p)) NoHistory test_start 8 = Some (0, w', s')"
    and ok: "b_command (pr_blade p) = ''test''" "o_test_jobs (b_options (pr_blade p)) \<le> 1"
      "fst (build_action test_world (b_options (pr_blade p))) = 0"
    using p(2) unfolding passes_def by (auto split: option.splits)
  have "o_test_jobs (r_options (runner_of test_world (pr_blade p))) \<le> 1" using ok(2) by (simp add: runner_of_def)
  note tests = run_alone_run [OF run this]
  have "nat (mw_cpus test_world) = 1" by (simp add: test_world_def demo_main_world_def)
  with tests have "action test_world test_outside p (bind_res (Inr (0, w', s')) (\<lambda>(code, _). Inr code))"
    by (intro action.test [OF ok(1,3)]) (simp add: test_outside_def)
  then have "action test_world test_outside p (Inr 0)" by simp
  from blade_main.acted [OF demo_read enumerates_rev prepared this] show ?thesis by (simp add: exit_code_def)
qed


end
