(* ===== verification/Spec2Isabelle.thy ===== *)
theory Spec2Isabelle
  imports ManagerProperties ManagerResults SchedulerRefinement RunnerProperties TestRunnerProperties
    SconsActions CommandTable JavaTargets BuildRules ArgRoundtrip MainProperties ExitCode
begin

text \<open>
  A verification library for Blade, the build system under
  \<open>src/devel/typhoon-blade/src/blade\<close>: the part of the repository that is the repository's own
  program in Python. File names below are relative to that directory.

  THE PROGRAM. A user runs \<open>blade build|run|test|clean|query [options] [targets]\<close> in a source
  tree. \<open>command_args.py\<close> reads the line with \<open>argparse.py\<close> and checks it; \<open>load_build_files.py\<close> finds the root of the tree
  (the closest directory upwards with a file \<open>BLADE_ROOT\<close>); \<open>configparse.py\<close> runs three
  configuration files; \<open>blade.py\<close> (the manager) loads the BUILD files the targets need, has
  \<open>dependency_analyzer.py\<close> expand and sort the dependencies, and asks every target object
  (\<open>cc_targets.py\<close> and its siblings) for its rules; \<open>rules_generator.py\<close> puts a header in front;
  the whole is the script \<open>SConstruct\<close>. SCons executes it, calling back into \<open>scons_helper.py\<close>.
  Afterwards \<open>binary_runner.py\<close> runs a program, or \<open>test_runner.py\<close> selects the tests that
  have to be run again and \<open>test_scheduler.py\<close> runs them on several threads.

  THE LIBRARY.

  Shared vocabulary. \<open>Prelude\<close>: results (\<open>py_error + 'a\<close>, every raise and every error exit a
  value), loops over them, Python values, dictionaries as association lists; the collections
  \<open>res_simps\<close> and \<open>frame_simps\<close>. \<open>PyString\<close>, \<open>PyPath\<close>, \<open>PyStdlib\<close>: what the code uses of Python's
  strings, \<open>os.path\<close>, \<open>shlex\<close>, \<open>int\<close> and \<open>string.Template\<close>. \<open>BladeUtil\<close>: \<open>blade_util.py\<close> and
  \<open>console.py\<close>. \<open>FileSystem\<close>: directories, files with contents and links, the walk of
  a path through them, and the calls of \<open>os\<close> and \<open>shutil\<close> that the code makes. \<open>WorkerPool\<close>: interleaving threads over a shared state, and the locale
  \<open>worker_pool\<close>.

  State. \<open>BladeState\<close> holds the records the components share: \<open>target\<close> (an object of
  \<open>target.py\<close> with its attributes and its \<open>data\<close>), \<open>options\<close>, the configuration, and
  \<open>blade\<close>, the manager with its target database. The code's \<open>build_targets\<close> holds references to
  the objects of the database; the model keeps the keys.

  The target classes. \<open>TargetBase\<close> (\<open>target.py\<close>), \<open>CcTargets\<close> and \<open>CcRules\<close> (\<open>cc_targets.py\<close>),
  \<open>ProtoLibrary\<close>, \<open>ThriftLibrary\<close>, \<open>SwigLibrary\<close>, \<open>JavaJar\<close>, \<open>JavaTargets\<close>, \<open>ResourceLibrary\<close>,
  \<open>LexYacc\<close>, \<open>GenRule\<close>, \<open>PyTargets\<close>: constructors with their checks, and the statements each
  class writes into the script. \<open>Emitter\<close> states as a locale what all of them have in common: a
  target keeps its identity and only appends to its rules; its interpretation on \<open>scons_rules\<close>
  serves the loop that collects the rules.

  Loading. \<open>Config\<close> (\<open>configparse.py\<close>); \<open>BuildFile\<close> (a BUILD file as the calls it makes, with the
  locale \<open>db_operation\<close>: a call keeps the database well formed and only adds to it);
  \<open>BuildRules\<close> (\<open>build_rules.py\<close>, the names a BUILD file can use); \<open>LoadBuild\<close>
  (\<open>load_build_files.py\<close>); \<open>LoadCorrect\<close>.

  Analysis. \<open>DependencyAnalyzer\<close> (\<open>dependency_analyzer.py\<close>); \<open>DependencyExpansion\<close> and
  \<open>TopologicalSort\<close> (its two halves proved); \<open>AnalyzeDeps\<close> (the two together).

  The manager. \<open>BladeManager\<close> (\<open>blade.py\<close>); \<open>ManagerCorrect\<close>, \<open>ManagerProperties\<close>,
  \<open>ManagerResults\<close>; \<open>Demo\<close> and \<open>DemoOptions\<close>, a small repository on which witnesses run.

  The program around it. \<open>CommandTable\<close> (the arguments of every sub-command), \<open>ArgParse\<close>
  (\<open>argparse.py\<close>: how a line is read with them) with \<open>ArgRoundtrip\<close>, \<open>CommandArgs\<close> (the checks of
  \<open>command_args.py\<close>),
  \<open>BuildEnvironment\<close> (\<open>build_environment.py\<close>), \<open>Platform\<close> (\<open>blade_platform.py\<close>), \<open>VersionFile\<close>
  (\<open>easou_version_generator.py\<close>), \<open>RulesHeader\<close> (\<open>rules_generator.py\<close>), \<open>BladeMain\<close>
  (\<open>blade_main.py\<close>: the function \<open>prepare\<close> up to the action of the command, the relations
  \<open>action\<close> and \<open>blade_main\<close>, from the strings of the line to the exit code, for the rest);
  \<open>MainProperties\<close> and \<open>ExitCode\<close>.

  Inside SCons. \<open>ScriptHelper\<close> and \<open>SconsActions\<close> (\<open>scons_helper.py\<close>).

  Running. \<open>BinaryRunner\<close> (\<open>binary_runner.py\<close>) with \<open>RunnerCorrect\<close>, \<open>RunDemo\<close>,
  \<open>RunnerProperties\<close>; \<open>TestScheduler\<close> (\<open>test_scheduler.py\<close>) with \<open>SchedulerCorrect\<close>,
  \<open>SchedulerProperties\<close>, \<open>SchedulerRefinement\<close>; \<open>TestRunner\<close> (\<open>test_runner.py\<close>) with
  \<open>TestRunnerCorrect\<close>, \<open>TestRunnerProperties\<close>.

  WHAT THE THEOREMS SHOW.

  From the line to the script (\<open>ExitCode\<close>, \<open>MainProperties\<close>, \<open>ManagerResults\<close>, \<open>AnalyzeDeps\<close>,
  \<open>ManagerProperties\<close>): loading ends with exactly the targets the command line reaches, registered
  and closed under dependencies, whatever order sets are enumerated in; the expansion lists for
  every target its transitive dependencies in an order a static linker accepts, and fails exactly
  on missing dependencies and loops; the sort is total and puts dependencies first; so the
  script is the header followed by the rules of the selected targets, each once, dependencies
  first. Queries report reachability in both directions. \<open>blade test\<close> ends with code 0 only if the
  line and the files were accepted, the build succeeded, and no test that had to be run in that run
  failed.

  Configuration and command line (\<open>Config\<close>, \<open>ArgRoundtrip\<close>, \<open>ArgParse\<close>, \<open>CommandArgs\<close>): what an update
  does to every item, when it fails, that the shape of the defaults is kept; that a line is read
  back as the settings and targets it was written from, that the targets of any line keep its
  order, and that the options that pass the checks are well formed whatever the line was.

  Tests (\<open>SchedulerProperties\<close>, \<open>SchedulerRefinement\<close>, \<open>TestRunnerProperties\<close>): for every interleaving
  no test is lost or run twice, the results are those of the processes and do not depend on the
  interleaving, a run has a bounded number of steps, one worker always ends, and two can block;
  the pool of threads refines a scheduler without threads. A second run skips exactly the tests
  that did not fail, have the same checksums, and are not asked for in any other way.

  Files (\<open>RunnerProperties\<close>, \<open>SconsActions\<close>, \<open>BuildEnvironment\<close>): the runfiles directory is the only
  place its preparation changes, unless a name climbs, is absolute or goes through a link the
  runner has made, the names of its links are independent, a link replaces its target by the
  program linked from its sources or leaves it alone, an egg is made of the sources it should be made of, and the cache manager
  keeps the heaviest files.

  Some theorems and lemmas state what the code does where this is surely not what is meant; the
  names that go with them: \<open>update_config_fails_iff\<close>, \<open>two_workers_can_block\<close>, \<open>purge_nothing_iff\<close>,
  \<open>cache_size_read\<close>, \<open>equal_links_raise\<close>, \<open>link_escapes\<close>, \<open>build_link_escapes\<close>,
  \<open>absolute_name_escapes\<close>, \<open>relative_path_ignores_case\<close>,
  \<open>gcc_10_counts_as_old\<close>, \<open>java_calls_fail\<close>, \<open>no_generate_python\<close>.

  BOUNDS AND FUEL. Loops are structural recursion or have a measure; there is no fuel but the
  forty links that \<open>fs_walk\<close> follows in one path, which is the limit of the operating system.
  \<open>find_root\<close> is a partial function, since the search does not end for a directory such as
  \<open>//\<close>; that it ends from a normal directory is proved (\<open>find_root_closest\<close>). Python 2 integers are
  unbounded, so they are \<open>int\<close> and \<open>nat\<close>; strings are bytes.

  WHAT COMES FROM OUTSIDE, as arguments of the definitions: the contents of files and the existence of
  paths, what started processes print and return, the clock, the host, the environment, the order
  in which sets are enumerated (a permutation, \<open>enumerates\<close>; the element \<open>pop\<close> takes, \<open>pick\<close>),
  the number of processors, and checksums.

  NOT MODELLED. \<open>argparse.py\<close> is a copy of a module of the standard library; the model has the
  parsing the program uses of it, not the texts of help and usage, the other actions and numbers of
  values, groups and argument files. SCons and the third-party sources of the repository are not
  the program's own. A BUILD or configuration file is the list of calls it makes: that Python
  executes other statements between them is not modelled, nor that two items share one list object.
  Messages printed before an error exit are not part of its value.
\<close>

end
